(* ===== verification/Prelude.thy ===== *)
theory Prelude
  imports Main "HOL-Library.Char_ord" "HOL-Library.List_Lexorder"
begin

text \<open>
  Shared vocabulary of the development: the Go machine integers the operator computes with
  (their wrap-around written out), clock values and durations, the string routines of the Go
  standard library the code calls, Go error values, and a generic interface for lists that are
  updated by key (Kubernetes conditions and probe observations).  Everything here is language
  or standard-library behaviour; the components of the operator start in \<open>Api_Types\<close>.
\<close>

named_theorems go_int "facts on wrap-around of Go integers"
named_theorems go_str "facts on Go string routines"

section \<open>Machine integers, clock values and durations\<close>

text \<open>
  \<open>int32\<close> and \<open>int64\<close> values are HOL integers; every arithmetic step whose result the code
  stores at a width goes through the wrap of that width.  A \<open>time.Duration\<close> is an \<open>int64\<close>
  number of nanoseconds, a \<open>time.Time\<close> an instant in nanoseconds.
\<close>

type_synonym time = int
type_synonym duration = int

definition wrap32 :: "int \<Rightarrow> int" where
  "wrap32 x = (x + 2147483648) mod 4294967296 - 2147483648"

definition wrap64 :: "int \<Rightarrow> int" where
  "wrap64 x = (x + 9223372036854775808) mod 18446744073709551616 - 9223372036854775808"

definition is_int32 :: "int \<Rightarrow> bool" where
  "is_int32 x \<longleftrightarrow> - 2147483648 \<le> x \<and> x \<le> 2147483647"

definition is_int64 :: "int \<Rightarrow> bool" where
  "is_int64 x \<longleftrightarrow> - 9223372036854775808 \<le> x \<and> x \<le> 9223372036854775807"

lemma wrap32_id [go_int]: "is_int32 x \<Longrightarrow> wrap32 x = x"
  by (simp add: wrap32_def is_int32_def)

lemma wrap64_id [go_int]: "is_int64 x \<Longrightarrow> wrap64 x = x"
  by (simp add: wrap64_def is_int64_def)

lemma wrap32_range [go_int]: "is_int32 (wrap32 x)"
proof -
  have "0 \<le> (x + 2147483648) mod 4294967296" "(x + 2147483648) mod 4294967296 < 4294967296"
    by simp_all
  then show ?thesis unfolding wrap32_def is_int32_def by linarith
qed

lemma wrap64_range [go_int]: "is_int64 (wrap64 x)"
proof -
  have "0 \<le> (x + 9223372036854775808) mod 18446744073709551616"
    "(x + 9223372036854775808) mod 18446744073709551616 < 18446744073709551616"
    by simp_all
  then show ?thesis unfolding wrap64_def is_int64_def by linarith
qed

text \<open>The unit constants of package \<open>time\<close>, in nanoseconds.\<close>

definition second :: duration where "second = 1000000000"
definition minute :: duration where "minute = 60000000000"
definition hour :: duration where "hour = 3600000000000"

lemmas time_units = second_def minute_def hour_def

text \<open>\<open>time.Duration(n) * time.Second\<close> for an \<open>int32\<close> or \<open>int64\<close> \<open>n\<close>.\<close>

definition seconds :: "int \<Rightarrow> duration" where
  "seconds n = wrap64 (n * second)"

lemma seconds_int32 [go_int]: "is_int32 n \<Longrightarrow> seconds n = n * second"
  unfolding seconds_def
  by (rule wrap64_id) (simp add: is_int32_def is_int64_def second_def)

text \<open>
  \<open>t.Sub(u)\<close> (hence \<open>time.Until\<close>) saturates at the ends of the duration range;
  \<open>t.Add(d)\<close> does not wrap on the instants the program handles.
\<close>

definition time_sub :: "time \<Rightarrow> time \<Rightarrow> duration" where
  "time_sub t u = max (- 9223372036854775808) (min 9223372036854775807 (t - u))"

text \<open>The zero \<open>time.Time\<close> (1 January of year 1, UTC), as nanoseconds since 1970.\<close>

definition zero_time :: time where
  "zero_time = - 62135596800000000000"

section \<open>Go strings\<close>

text \<open>
  A Go string is a byte sequence; a HOL \<open>string\<close> is a list of 8-bit characters.  The order
  of \<open>strings.Compare\<close> and of \<open><\<close> on strings is the lexicographic byte order, which is the
  order instantiated on \<open>string\<close> by the imported library theories.
\<close>

definition digits :: string where
  "digits = ''0123456789''"

fun nat_text :: "nat \<Rightarrow> string" where
  "nat_text n = (if n < 10 then [digits ! n] else nat_text (n div 10) @ [digits ! (n mod 10)])"

declare nat_text.simps [simp del]

text \<open>\<open>strconv.Itoa\<close>, also \<open>%d\<close>.\<close>

definition itoa :: "int \<Rightarrow> string" where
  "itoa i = (if i < 0 then CHR ''-'' # nat_text (nat (- i)) else nat_text (nat i))"

definition digit_value :: "char \<Rightarrow> nat option" where
  "digit_value c = (let n = of_char c :: nat in if 48 \<le> n \<and> n \<le> 57 then Some (n - 48) else None)"

definition is_digit :: "char \<Rightarrow> bool" where
  "is_digit c \<longleftrightarrow> digit_value c \<noteq> None"

text \<open>The value of a digit string, reading left to right (\<open>None\<close> if some byte is no digit).\<close>

fun digits_value :: "nat \<Rightarrow> string \<Rightarrow> nat option" where
  "digits_value acc [] = Some acc"
| "digits_value acc (c # cs) =
     (case digit_value c of None \<Rightarrow> None | Some d \<Rightarrow> digits_value (10 * acc + d) cs)"

text \<open>
  \<open>strconv.ParseInt(s, 10, 64)\<close>, hence \<open>strconv.Atoi\<close> on the 64-bit platforms the
  operator is built for: an optional sign, at least one digit, and a value in range.
\<close>

definition parse_int :: "string \<Rightarrow> int option" where
  "parse_int s =
     (let (neg, ds) = (case s of [] \<Rightarrow> (False, [])
                      | c # cs \<Rightarrow> if c = CHR ''-'' then (True, cs)
                                   else if c = CHR ''+'' then (False, cs) else (False, s))
      in if ds = [] then None
         else case digits_value 0 ds of None \<Rightarrow> None
              | Some n \<Rightarrow> let i = (if neg then - int n else int n)
                          in if is_int64 i then Some i else None)"

abbreviation atoi :: "string \<Rightarrow> int option" where
  "atoi \<equiv> parse_int"

text \<open>
  Unicode white space, as the UTF-8 byte sequences it appears in: what
  \<open>strings.TrimSpace\<close> and the scanner of package \<open>fmt\<close> skip.
\<close>

definition byte :: "nat \<Rightarrow> char" where
  "byte n = char_of n"

definition white_space :: "string list" where
  "white_space =
     map (\<lambda>n. [byte n]) [9, 10, 11, 12, 13, 32]
     @ map (map byte) [[194, 133], [194, 160], [225, 154, 128]]
     @ map (\<lambda>n. [byte 226, byte 128, byte n]) ([128..<139] @ [168, 169, 175])
     @ map (map byte) [[226, 129, 159], [227, 128, 128]]"

definition strip_prefix :: "string \<Rightarrow> string \<Rightarrow> string option" where
  "strip_prefix p s = (if take (length p) s = p then Some (drop (length p) s) else None)"

fun strip_any :: "string list \<Rightarrow> string \<Rightarrow> string option" where
  "strip_any [] s = None"
| "strip_any (p # ps) s = (case strip_prefix p s of Some r \<Rightarrow> Some r | None \<Rightarrow> strip_any ps s)"

lemma strip_prefix_length:
  "strip_prefix p s = Some r \<Longrightarrow> p \<noteq> [] \<Longrightarrow> length r < length s"
  by (cases s) (auto simp: strip_prefix_def split: if_splits)

lemma strip_any_length:
  "strip_any ps s = Some r \<Longrightarrow> [] \<notin> set ps \<Longrightarrow> length r < length s"
  by (induction ps) (auto split: option.splits dest: strip_prefix_length)

lemma white_space_nonempty: "[] \<notin> set white_space"
  by (auto simp: white_space_def)

function trim_left :: "string \<Rightarrow> string" where
  "trim_left s = (case strip_any white_space s of None \<Rightarrow> s | Some r \<Rightarrow> trim_left r)"
  by pat_completeness auto
termination
  by (relation "measure length") (auto dest: strip_any_length simp: white_space_nonempty)

function trim_right_rev :: "string \<Rightarrow> string" where
  "trim_right_rev s =
     (case strip_any (map rev white_space) s of None \<Rightarrow> s | Some r \<Rightarrow> trim_right_rev r)"
  by pat_completeness auto
termination
  by (relation "measure length") (auto dest!: strip_any_length simp: white_space_nonempty)

declare trim_left.simps [simp del] trim_right_rev.simps [simp del]

text \<open>\<open>strings.TrimSpace\<close>.\<close>

definition trim_space :: "string \<Rightarrow> string" where
  "trim_space s = rev (trim_right_rev (rev (trim_left s)))"

text \<open>
  \<open>fmt.Sscanf(s, "%d", &n)\<close> into an \<open>int\<close>: leading spaces are skipped (a newline is an
  error), then an optional sign and the longest run of digits; what follows is ignored.
\<close>

function skip_scan_space :: "string \<Rightarrow> string option" where
  "skip_scan_space s =
     (case s of [] \<Rightarrow> Some []
      | c # cs \<Rightarrow>
          if c = byte 13 \<and> take 1 cs = [byte 10] then skip_scan_space cs
          else if c = byte 10 then None
          else case strip_any white_space s of None \<Rightarrow> Some s | Some r \<Rightarrow> skip_scan_space r)"
  by pat_completeness auto
termination
  by (relation "measure length") (auto dest: strip_any_length simp: white_space_nonempty)

declare skip_scan_space.simps [simp del]

definition sscanf_d :: "string \<Rightarrow> int option" where
  "sscanf_d s =
     (case skip_scan_space s of None \<Rightarrow> None
      | Some t \<Rightarrow>
          let sign = takeWhile (\<lambda>c. c = CHR ''-'' \<or> c = CHR ''+'') (take 1 t);
              rest = drop (length sign) t
          in parse_int (sign @ takeWhile is_digit rest))"

text \<open>\<open>strings.Contains(s, sub)\<close> and \<open>strings.ReplaceAll(s, old, new)\<close> for a nonempty \<open>old\<close>.\<close>

fun contains_string :: "string \<Rightarrow> string \<Rightarrow> bool" where
  "contains_string [] sub \<longleftrightarrow> sub = []"
| "contains_string (c # cs) sub \<longleftrightarrow>
     take (length sub) (c # cs) = sub \<or> contains_string cs sub"

function replace_all :: "string \<Rightarrow> string \<Rightarrow> string \<Rightarrow> string" where
  "replace_all old new s =
     (if old = [] then s
      else case s of [] \<Rightarrow> []
           | c # cs \<Rightarrow> if take (length old) s = old
                        then new @ replace_all old new (drop (length old) s)
                        else c # replace_all old new cs)"
  by pat_completeness auto
termination
  by (relation "measure (\<lambda>(old, new, s). length s)") auto

declare replace_all.simps [simp del]

text \<open>
  \<open>%q\<close> (\<open>strconv.Quote\<close>): the ASCII escapes.  Bytes above 127 pass unchanged, which is what
  Go does for printable UTF-8 text.
\<close>

definition hex_digit :: "nat \<Rightarrow> char" where
  "hex_digit n = ''0123456789abcdef'' ! n"

definition quote_char :: "char \<Rightarrow> string" where
  "quote_char c =
     (let n = of_char c :: nat; bs = byte 92 in
      if n = 34 \<or> n = 92 then [bs, c]
      else if n = 7 then [bs, CHR ''a''] else if n = 8 then [bs, CHR ''b'']
      else if n = 12 then [bs, CHR ''f''] else if n = 10 then [bs, CHR ''n'']
      else if n = 13 then [bs, CHR ''r''] else if n = 9 then [bs, CHR ''t'']
      else if n = 11 then [bs, CHR ''v'']
      else if n < 32 \<or> n = 127 then [bs, CHR ''x'', hex_digit (n div 16), hex_digit (n mod 16)]
      else [c])"

definition quote :: "string \<Rightarrow> string" where
  "quote s = [byte 34] @ concat (map quote_char s) @ [byte 34]"

section \<open>Round trip of decimal text\<close>

lemma less_10_cases: "(n::nat) < 10 \<Longrightarrow> n \<in> {0, 1, 2, 3, 4, 5, 6, 7, 8, 9}"
  by auto

lemma digit_value_nth [go_str]: "n < 10 \<Longrightarrow> digit_value (digits ! n) = Some n"
  by (drule less_10_cases) (auto simp: digits_def digit_value_def)

lemma digits_value_append:
  "digits_value acc (xs @ ys) =
     (case digits_value acc xs of None \<Rightarrow> None | Some n \<Rightarrow> digits_value n ys)"
  by (induction xs arbitrary: acc) (auto split: option.splits)

lemma digits_value_nat_text [go_str]: "digits_value 0 (nat_text n) = Some n"
proof (induction n rule: less_induct)
  case (less m)
  have "digits_value 0 (nat_text (m div 10)) = Some (m div 10)" if "m \<ge> 10"
    using less [of "m div 10"] that by simp
  then show ?case
    by (cases "m \<ge> 10")
      (simp_all add: nat_text.simps [of m] digits_value_append digit_value_nth)
qed


lemma nat_text_nonempty [go_str, simp]: "nat_text n \<noteq> []"
  by (simp add: nat_text.simps [of n])

lemma digit_value_sign [simp]: "digit_value (CHR ''-'') = None" "digit_value (CHR ''+'') = None"
  by (simp_all add: digit_value_def)

lemma nat_text_hd:
  assumes "nat_text n = c # cs"
  shows "c \<noteq> CHR ''-''" and "c \<noteq> CHR ''+''"
  using digits_value_nat_text [of n] assms by auto

lemma parse_int_itoa [go_str]: "is_int64 i \<Longrightarrow> parse_int (itoa i) = Some i"
proof (cases "i < 0")
  case True
  moreover assume "is_int64 i"
  ultimately show ?thesis
    by (simp add: parse_int_def itoa_def digits_value_nat_text Let_def)
next
  case False
  assume "is_int64 i"
  obtain c cs where t: "nat_text (nat i) = c # cs"
    by (cases "nat_text (nat i)") auto
  have "digits_value 0 (c # cs) = Some (nat i)"
    using digits_value_nat_text [of "nat i"] t by simp
  with nat_text_hd [OF t] t False \<open>is_int64 i\<close> show ?thesis
    by (simp add: parse_int_def itoa_def Let_def del: digits_value.simps)
qed

lemma itoa_inj [go_str]: "itoa i = itoa j \<longleftrightarrow> i = j"
proof
  assume eq: "itoa i = itoa j"
  have hd: "hd (nat_text n) \<noteq> CHR ''-''" for n
    by (cases "nat_text n") (auto dest: nat_text_hd)
  have nat: "nat_text m = nat_text n \<Longrightarrow> m = n" for m n
    by (metis digits_value_nat_text option.inject)
  show "i = j"
    using eq hd [of "nat i"] hd [of "nat j"]
    by (cases "i < 0"; cases "j < 0")
      (auto simp: itoa_def dest!: nat, (metis list.sel(1))+)
qed simp

text \<open>On digit strings the scanner of \<open>fmt\<close> and \<open>strconv\<close> agree.\<close>

lemma white_space_heads: "list_all (\<lambda>p. p \<noteq> [] \<and> \<not> is_digit (hd p)) white_space"
  by (simp add: white_space_def byte_def is_digit_def digit_value_def Let_def upt_rec)

lemma strip_any_none:
  "list_all (\<lambda>p. p \<noteq> [] \<and> hd p \<noteq> c) ps \<Longrightarrow> strip_any ps (c # cs) = None"
  by (induction ps) (auto simp: strip_prefix_def neq_Nil_conv)

lemma white_space_ends: "list_all (\<lambda>p. p \<noteq> [] \<and> \<not> is_digit (hd (rev p))) white_space"
  by (simp add: white_space_def byte_def is_digit_def digit_value_def Let_def upt_rec)

lemma trim_space_digits:
  assumes "list_all is_digit s"
  shows "trim_space s = s"
proof -
  have left: "trim_left t = t" if "list_all is_digit t" for t
  proof (cases t)
    case (Cons c cs)
    have "strip_any white_space t = None" unfolding Cons
      by (rule strip_any_none) (use white_space_heads that Cons in \<open>auto simp: list_all_iff\<close>)
    then show ?thesis by (simp add: trim_left.simps)
  qed (simp add: trim_left.simps white_space_def strip_prefix_def byte_def upt_rec)
  have right: "trim_right_rev t = t" if "list_all is_digit t" for t
  proof (cases t)
    case (Cons c cs)
    have "strip_any (map rev white_space) t = None" unfolding Cons
      by (rule strip_any_none) (use white_space_ends that Cons in \<open>auto simp: list_all_iff\<close>)
    then show ?thesis by (simp add: trim_right_rev.simps)
  qed (simp add: trim_right_rev.simps white_space_def strip_prefix_def byte_def upt_rec)
  show ?thesis using assms by (simp add: trim_space_def left right)
qed

lemma sscanf_digits [go_str]:
  assumes "s \<noteq> []" "list_all is_digit s"
  shows "sscanf_d s = parse_int s"
proof -
  obtain c cs where s: "s = c # cs" using assms(1) by (cases s) auto
  then have c: "is_digit c" using assms(2) by simp
  then have "c \<noteq> byte 13" "c \<noteq> byte 10" "c \<noteq> CHR ''-''" "c \<noteq> CHR ''+''"
    by (auto simp: is_digit_def digit_value_def byte_def Let_def)
  moreover have "list_all (\<lambda>p. p \<noteq> [] \<and> hd p \<noteq> c) white_space"
    using white_space_heads c by (auto simp: list_all_iff)
  then have "strip_any white_space s = None" by (simp add: s strip_any_none)
  moreover have "takeWhile is_digit s = s"
    using assms(2) by (simp add: takeWhile_eq_all_conv list_all_iff)
  ultimately show ?thesis
    by (simp add: sscanf_d_def skip_scan_space.simps [of "c # cs"] s Let_def)
qed

section \<open>Errors\<close>

text \<open>
  A Go \<open>error\<close> value: a plain message, a message wrapped around another error (\<open>%w\<close>), the
  provider error of package \<open>netcup\<close> with its retry metadata, or the API server's
  not-found status.  \<open>errors.As\<close> looks through the wrapping.
\<close>

datatype error_class =
  ErrorClassTransient | ErrorClassRateLimited | ErrorClassAuth | ErrorClassValidation
| ErrorClassTerminal

record provider_error =
  pe_class :: error_class
  pe_status_code :: int
  pe_retry_after :: duration
  pe_message :: string

datatype go_error =
  GoError string
| Wrapped string go_error
| ProviderError provider_error
| NotFoundError string

fun error_text :: "go_error \<Rightarrow> string" where
  "error_text (GoError m) = m"
| "error_text (Wrapped prefix e) = prefix @ error_text e"
| "error_text (ProviderError p) = pe_message p"
| "error_text (NotFoundError m) = m"

fun as_provider_error :: "go_error \<Rightarrow> provider_error option" where
  "as_provider_error (GoError m) = None"
| "as_provider_error (Wrapped prefix e) = as_provider_error e"
| "as_provider_error (ProviderError p) = Some p"
| "as_provider_error (NotFoundError m) = None"

section \<open>String maps\<close>

text \<open>A Go \<open>map[string]string\<close> read with \<open>m[k]\<close>: a missing key reads as the empty string.\<close>

type_synonym string_map = "(string \<times> string) list"

definition map_get :: "string_map \<Rightarrow> string \<Rightarrow> string" where
  "map_get m k = (case map_of m k of None \<Rightarrow> [] | Some v \<Rightarrow> v)"

section \<open>Lists updated by key\<close>

text \<open>
  Conditions and observations are Go slices in which at most one entry has a given key; an
  update rewrites that entry in place or appends a new one.  The interface states what every
  such update promises, and the consequences the components use are proved once here.
\<close>

locale keyed_list =
  fixes key :: "'a \<Rightarrow> 'k"
    and put :: "'b \<Rightarrow> 'a list \<Rightarrow> 'a list"
    and put_key :: "'b \<Rightarrow> 'k"
  assumes keys_put:
    "map key (put b xs) =
       (if put_key b \<in> key ` set xs then map key xs else map key xs @ [put_key b])"
    and put_other: "k \<noteq> put_key b \<Longrightarrow>
       find (\<lambda>x. key x = k) (put b xs) = find (\<lambda>x. key x = k) xs"
begin

lemma distinct_keys: "distinct (map key xs) \<Longrightarrow> distinct (map key (put b xs))"
  by (auto simp: keys_put)

lemma key_set: "key ` set (put b xs) = insert (put_key b) (key ` set xs)"
proof -
  have "set (map key (put b xs)) = insert (put_key b) (set (map key xs))"
    by (auto simp: keys_put)
  then show ?thesis by simp
qed

lemma length_put:
  "length (put b xs) = (if put_key b \<in> key ` set xs then length xs else Suc (length xs))"
  using arg_cong [OF keys_put, of length b xs] by (simp split: if_splits)

lemma present: "\<exists>x \<in> set (put b xs). key x = put_key b"
proof -
  have "put_key b \<in> key ` set (put b xs)" by (simp add: key_set)
  then show ?thesis by auto
qed

lemma fold_distinct:
  "distinct (map key xs) \<Longrightarrow> distinct (map key (fold put bs xs))"
  by (induction bs arbitrary: xs) (auto intro: distinct_keys)

end

section \<open>Forced chains\<close>

text \<open>
  A chain each of whose links can only be entered from the link before it: whoever follows the
  relation to the end of the chain, from outside it, has walked the whole chain last.
\<close>

lemma forced_suffix:
  assumes "successively (\<lambda>a b. \<forall>x. R x b \<longrightarrow> x = a) (g # gs)"
    and "successively R p" "p \<noteq> []" "last p = last (g # gs)" "hd p \<notin> set gs"
  shows "\<exists>q. p = q @ g # gs"
  using assms
proof (induction gs arbitrary: p rule: rev_induct)
  case Nil
  then have "p = butlast p @ [g]" by (metis append_butlast_last_id last.simps)
  then show ?case by blast
next
  case (snoc h gs)
  then obtain q where p: "p = q @ [h]" by (metis append_butlast_last_id last_ConsR last_snoc snoc_eq_iff_butlast)
  then have q: "q \<noteq> []" using snoc.prems(5) by (cases q) auto
  have "R (last q) h" "successively R q"
    using snoc.prems(2) q by (auto simp: p successively_append_iff)
  moreover have "successively (\<lambda>a b. \<forall>x. R x b \<longrightarrow> x = a) ((g # gs) @ [h])"
    using snoc.prems(1) by simp
  then have chain: "successively (\<lambda>a b. \<forall>x. R x b \<longrightarrow> x = a) (g # gs)"
    "\<forall>x. R x h \<longrightarrow> x = last (g # gs)"
    by (simp_all only: successively_append_iff) auto
  moreover have "hd q \<notin> set gs" using snoc.prems(5) q p by simp
  ultimately obtain q' where "q = q' @ g # gs"
    using snoc.IH [of q] q by blast
  then show ?case using p by simp
qed

end
