(* ===== verification/Json.thy ===== *)
theory Json
  imports Prelude
begin

text \<open>
  The part of the standard library package \<open>encoding/json\<close> the provider client, the token helper
  and the fake provider use: the values, the scanner and parser of \<open>json.Unmarshal\<close>, the
  encoder of \<open>json.Encoder\<close>, and the rules by which a value is stored into struct fields.
\<close>

section \<open>Values\<close>

text \<open>A number is kept as its literal, an object as its members in the order of the text.\<close>

datatype json =
  JNull
| JBool bool
| JNum string
| JStr string
| JArr "json list"
| JObj "(string \<times> json) list"

section \<open>Strings\<close>

text \<open>UTF-8: the length of the valid sequence at the head of a byte string, if there is one.\<close>

definition code :: "char \<Rightarrow> nat" where
  "code c = of_char c"

definition continuation :: "char \<Rightarrow> bool" where
  "continuation c \<longleftrightarrow> 128 \<le> code c \<and> code c < 192"

definition rune_length :: "string \<Rightarrow> nat option" where
  "rune_length s =
     (case s of [] \<Rightarrow> None
      | c # cs \<Rightarrow>
          let b = code c in
          if b < 128 then Some 1
          else if 194 \<le> b \<and> b < 224 then
            (case cs of d # _ \<Rightarrow> if continuation d then Some 2 else None | _ \<Rightarrow> None)
          else if 224 \<le> b \<and> b < 240 then
            (case cs of d # e # _ \<Rightarrow>
               if continuation d \<and> continuation e \<and> (b = 224 \<longrightarrow> 160 \<le> code d)
                  \<and> (b = 237 \<longrightarrow> code d < 160) then Some 3 else None
             | _ \<Rightarrow> None)
          else if 240 \<le> b \<and> b < 245 then
            (case cs of d # e # f # _ \<Rightarrow>
               if continuation d \<and> continuation e \<and> continuation f \<and> (b = 240 \<longrightarrow> 144 \<le> code d)
                  \<and> (b = 244 \<longrightarrow> code d < 144) then Some 4 else None
             | _ \<Rightarrow> None)
          else None)"

definition replacement_char :: string where
  "replacement_char = [byte 239, byte 191, byte 189]"

text \<open>\<open>utf8.AppendRune\<close>, where surrogates become the replacement character.\<close>

definition encode_rune :: "nat \<Rightarrow> string" where
  "encode_rune r =
     (if r < 128 then [byte r]
      else if r < 2048 then [byte (192 + r div 64), byte (128 + r mod 64)]
      else if 55296 \<le> r \<and> r < 57344 \<or> r > 1114111 then replacement_char
      else if r < 65536 then
        [byte (224 + r div 4096), byte (128 + r div 64 mod 64), byte (128 + r mod 64)]
      else [byte (240 + r div 262144), byte (128 + r div 4096 mod 64),
            byte (128 + r div 64 mod 64), byte (128 + r mod 64)])"

definition hex_nibble :: "char \<Rightarrow> nat option" where
  "hex_nibble c =
     (let n = code c in
      if 48 \<le> n \<and> n \<le> 57 then Some (n - 48)
      else if 97 \<le> n \<and> n \<le> 102 then Some (n - 87)
      else if 65 \<le> n \<and> n \<le> 70 then Some (n - 55) else None)"

text \<open>Four hexadecimal digits, and what follows them.\<close>

definition hex4 :: "string \<Rightarrow> (nat \<times> string) option" where
  "hex4 s =
     (case s of a # b # c # d # rest \<Rightarrow>
        (case (hex_nibble a, hex_nibble b, hex_nibble c, hex_nibble d) of
           (Some w, Some x, Some y, Some z) \<Rightarrow> Some (((w * 16 + x) * 16 + y) * 16 + z, rest)
         | _ \<Rightarrow> None)
      | _ \<Rightarrow> None)"

definition simple_escape :: "char \<Rightarrow> char option" where
  "simple_escape c =
     map_of [(byte 34, byte 34), (byte 92, byte 92), (CHR ''/'', CHR ''/''), (CHR ''b'', byte 8),
       (CHR ''f'', byte 12), (CHR ''n'', byte 10), (CHR ''r'', byte 13), (CHR ''t'', byte 9)] c"

text \<open>
  One character of a string literal after its opening quote: the bytes it denotes and the text
  after it.  A surrogate pair is one rune, a lone surrogate and an invalid byte are replaced.
\<close>

definition low_surrogate :: "string \<Rightarrow> (nat \<times> string) option" where
  "low_surrogate s =
     (case strip_prefix [byte 92, CHR ''u''] s of None \<Rightarrow> None
      | Some t \<Rightarrow> (case hex4 t of None \<Rightarrow> None
                   | Some (r, rest) \<Rightarrow> if 56320 \<le> r \<and> r < 57344 then Some (r, rest) else None))"

definition scan_escape :: "string \<Rightarrow> (string \<times> string) option" where
  "scan_escape s =
     (case s of [] \<Rightarrow> None
      | d # ds \<Rightarrow>
          if d = CHR ''u'' then
            (case hex4 ds of None \<Rightarrow> None
             | Some (r, rest) \<Rightarrow>
                 (case (if 55296 \<le> r \<and> r < 56320 then low_surrogate rest else None) of
                    None \<Rightarrow> Some (encode_rune r, rest)
                  | Some (r2, rest2) \<Rightarrow>
                      Some (encode_rune (65536 + (r - 55296) * 1024 + (r2 - 56320)), rest2)))
          else map_option (\<lambda>e. ([e], ds)) (simple_escape d))"

definition scan_char :: "string \<Rightarrow> (string \<times> string) option" where
  "scan_char s =
     (case s of [] \<Rightarrow> None
      | c # cs \<Rightarrow>
          if code c < 32 then None
          else if c = byte 92 then scan_escape cs
          else (case rune_length s of
                  None \<Rightarrow> Some (replacement_char, cs)
                | Some n \<Rightarrow> Some (take n s, drop n s)))"

lemma hex4_length: "hex4 s = Some (r, rest) \<Longrightarrow> length rest < length s"
  by (auto simp: hex4_def split: list.splits option.splits)

lemma rune_length_pos: "rune_length s = Some n \<Longrightarrow> 0 < n"
  by (auto simp: rune_length_def Let_def split: list.splits if_splits)

lemma scan_char_length: "scan_char s = Some (t, rest) \<Longrightarrow> length rest < length s"
  by (cases s)
    (auto simp: scan_char_def scan_escape_def low_surrogate_def split: list.splits if_splits option.splits
      dest!: hex4_length rune_length_pos strip_prefix_length)

function scan_string :: "string \<Rightarrow> (string \<times> string) option" where
  "scan_string s =
     (if take 1 s = [byte 34] then Some ([], drop 1 s)
      else case scan_char s of None \<Rightarrow> None
           | Some (t, rest) \<Rightarrow> map_option (apfst ((@) t)) (scan_string rest))"
  by pat_completeness auto
termination
  by (relation "measure length") (auto dest: scan_char_length)

declare scan_string.simps [simp del]

lemma scan_string_length: "scan_string s = Some (t, u) \<Longrightarrow> length u < length s"
proof (induction s arbitrary: t u rule: scan_string.induct)
  case (1 s)
  show ?case
  proof (cases "take 1 s = [byte 34]")
    case True
    then have "u = drop 1 s" "s \<noteq> []" using "1.prems" by (auto simp: scan_string.simps [of s])
    then show ?thesis by simp
  next
    case False
    then obtain t1 rest z where "scan_char s = Some (t1, rest)" "scan_string rest = Some (z, u)"
      using "1.prems" by (auto simp: scan_string.simps [of s] split: option.splits)
    with "1.IH" [OF False this(1) refl, of z u] scan_char_length [of s t1 rest]
    show ?thesis by simp
  qed
qed

section \<open>Tokens\<close>

datatype json_token =
  LBrace | RBrace | LBrack | RBrack | Colon | Comma
| Scalar json

definition is_exponent :: "string \<Rightarrow> bool" where
  "is_exponent s \<longleftrightarrow>
     (case s of [] \<Rightarrow> True
      | c # r \<Rightarrow> (c = CHR ''e'' \<or> c = CHR ''E'')
          \<and> (let ds = (if take 1 r = ''+'' \<or> take 1 r = ''-'' then drop 1 r else r)
             in ds \<noteq> [] \<and> list_all is_digit ds))"

definition is_fraction :: "string \<Rightarrow> bool" where
  "is_fraction s \<longleftrightarrow>
     (if take 1 s = ''.'' then
        let ds = takeWhile is_digit (drop 1 s)
        in ds \<noteq> [] \<and> is_exponent (drop (length ds) (drop 1 s))
      else is_exponent s)"

definition is_number :: "string \<Rightarrow> bool" where
  "is_number s \<longleftrightarrow>
     (let t = (if take 1 s = ''-'' then drop 1 s else s);
          ds = takeWhile is_digit t
      in ds \<noteq> [] \<and> (hd ds = CHR ''0'' \<longrightarrow> length ds = 1) \<and> is_fraction (drop (length ds) t))"

definition number_char :: "char \<Rightarrow> bool" where
  "number_char c \<longleftrightarrow> is_digit c \<or> c \<in> set ''+-.eE''"

definition json_space :: "char \<Rightarrow> bool" where
  "json_space c \<longleftrightarrow> c = CHR '' '' \<or> c = byte 9 \<or> c = byte 10 \<or> c = byte 13"

definition punctuation :: "char \<Rightarrow> json_token option" where
  "punctuation c =
     map_of [(CHR ''{'', LBrace), (CHR ''}'', RBrace), (CHR ''['', LBrack), (CHR '']'', RBrack),
       (CHR '':'', Colon), (CHR '','', Comma)] c"

definition literals :: "(string \<times> json) list" where
  "literals = [(''true'', JBool True), (''false'', JBool False), (''null'', JNull)]"

fun strip_literal :: "(string \<times> json) list \<Rightarrow> string \<Rightarrow> (json \<times> string) option" where
  "strip_literal [] s = None"
| "strip_literal ((w, v) # ls) s =
     (case strip_prefix w s of Some r \<Rightarrow> Some (v, r) | None \<Rightarrow> strip_literal ls s)"

function tokenize :: "string \<Rightarrow> json_token list option" where
  "tokenize s =
     (case s of [] \<Rightarrow> Some []
      | c # cs \<Rightarrow>
          if json_space c then tokenize cs
          else case punctuation c of
                 Some t \<Rightarrow> map_option ((#) t) (tokenize cs)
               | None \<Rightarrow>
                   if c = byte 34 then
                     (case scan_string cs of None \<Rightarrow> None
                      | Some (t, rest) \<Rightarrow> map_option ((#) (Scalar (JStr t))) (tokenize rest))
                   else if number_char c then
                     (let lit = takeWhile number_char s in
                      if is_number lit
                      then map_option ((#) (Scalar (JNum lit))) (tokenize (drop (length lit) s))
                      else None)
                   else (case strip_literal literals s of None \<Rightarrow> None
                         | Some (v, rest) \<Rightarrow> map_option ((#) (Scalar v)) (tokenize rest)))"
  by pat_completeness auto

lemma strip_literal_length:
  "strip_literal ls s = Some (v, r) \<Longrightarrow> [] \<notin> fst ` set ls \<Longrightarrow> length r < length s"
  by (induction ls) (auto split: option.splits dest: strip_prefix_length)

lemma strip_literals_length: "strip_literal literals s = Some (v, r) \<Longrightarrow> length r < length s"
  by (erule strip_literal_length) (simp add: literals_def)

termination tokenize
proof (relation "measure length", goal_cases)
  case (4 s c cs lit)
  then have "takeWhile number_char s \<noteq> []" by simp
  with 4 show ?case by (cases s) auto
qed (auto dest!: scan_string_length strip_literals_length)

declare tokenize.simps [simp del]

section \<open>Parsing\<close>

text \<open>
  The scanner of the package is a pushdown automaton: the open arrays and objects, and what may
  come next.  Its stack holds at most \<open>maxNestingDepth\<close> entries.
\<close>

definition maxNestingDepth :: nat where "maxNestingDepth = 10000"

datatype frame =
  InArr "json list"
| InObj "(string \<times> json) list" string

datatype mode =
  WantValue
| WantElement
| WantKey bool "(string \<times> json) list"
| WantColon "(string \<times> json) list" string
| Have json

fun parse_tokens :: "frame list \<Rightarrow> mode \<Rightarrow> json_token list \<Rightarrow> json option" where
  "parse_tokens st m [] = (case m of Have v \<Rightarrow> if st = [] then Some v else None | _ \<Rightarrow> None)"
| "parse_tokens st WantValue (t # ts) =
     (case t of
        Scalar v \<Rightarrow> parse_tokens st (Have v) ts
      | LBrack \<Rightarrow> if length st < maxNestingDepth
                  then parse_tokens (InArr [] # st) WantElement ts else None
      | LBrace \<Rightarrow> if length st < maxNestingDepth then parse_tokens st (WantKey True []) ts else None
      | _ \<Rightarrow> None)"
| "parse_tokens st WantElement (t # ts) =
     (case t of
        RBrack \<Rightarrow> parse_tokens (tl st) (Have (JArr [])) ts
      | Scalar v \<Rightarrow> parse_tokens st (Have v) ts
      | LBrack \<Rightarrow> if length st < maxNestingDepth
                  then parse_tokens (InArr [] # st) WantElement ts else None
      | LBrace \<Rightarrow> if length st < maxNestingDepth then parse_tokens st (WantKey True []) ts else None
      | _ \<Rightarrow> None)"
| "parse_tokens st (WantKey first ms) (t # ts) =
     (case t of
        Scalar (JStr k) \<Rightarrow> parse_tokens st (WantColon ms k) ts
      | RBrace \<Rightarrow> if first then parse_tokens st (Have (JObj [])) ts else None
      | _ \<Rightarrow> None)"
| "parse_tokens st (WantColon ms k) (t # ts) =
     (if t = Colon then parse_tokens (InObj ms k # st) WantValue ts else None)"
| "parse_tokens st (Have v) (t # ts) =
     (case st of
        [] \<Rightarrow> None
      | InArr xs # st' \<Rightarrow>
          if t = Comma then parse_tokens (InArr (v # xs) # st') WantValue ts
          else if t = RBrack then parse_tokens st' (Have (JArr (rev (v # xs)))) ts
          else None
      | InObj ms k # st' \<Rightarrow>
          if t = Comma then parse_tokens st' (WantKey False ((k, v) # ms)) ts
          else if t = RBrace then parse_tokens st' (Have (JObj (rev ((k, v) # ms)))) ts
          else None)"

definition parse_json :: "string \<Rightarrow> json option" where
  "parse_json s = (case tokenize s of None \<Rightarrow> None | Some ts \<Rightarrow> parse_tokens [] WantValue ts)"

section \<open>Encoding\<close>

text \<open>The text of the encoder, with its escapes for characters that matter in HTML.\<close>

definition encode_char :: "char \<Rightarrow> string" where
  "encode_char c =
     (let n = code c; u = (\<lambda>h l. [byte 92, CHR ''u'', CHR ''0'', CHR ''0'', hex_digit h, hex_digit l]) in
      if n = 34 \<or> n = 92 then [byte 92, c]
      else if n = 8 then [byte 92, CHR ''b''] else if n = 12 then [byte 92, CHR ''f'']
      else if n = 10 then [byte 92, CHR ''n''] else if n = 13 then [byte 92, CHR ''r'']
      else if n = 9 then [byte 92, CHR ''t'']
      else if n < 32 \<or> c \<in> set ''<>&'' then u (n div 16) (n mod 16)
      else [c])"

function encode_chars :: "string \<Rightarrow> string" where
  "encode_chars s =
     (case rune_length s of
        None \<Rightarrow> if s = [] then [] else byte 92 # ''ufffd'' @ encode_chars (drop 1 s)
      | Some n \<Rightarrow>
          (if n = 1 then encode_char (hd s)
           else if take n s = encode_rune 8232 then byte 92 # ''u2028''
           else if take n s = encode_rune 8233 then byte 92 # ''u2029''
           else take n s) @ encode_chars (drop n s))"
  by pat_completeness auto
termination
proof (relation "measure length", goal_cases)
  case (3 s n)
  then show ?case using rune_length_pos [of s n] by (cases s) (auto simp: rune_length_def)
qed auto

declare encode_chars.simps [simp del]

definition encode_string :: "string \<Rightarrow> string" where
  "encode_string s = byte 34 # encode_chars s @ [byte 34]"

fun commas :: "'a \<Rightarrow> 'a list list \<Rightarrow> 'a list" where
  "commas c [] = []"
| "commas c [x] = x"
| "commas c (x # y # zs) = x @ c # commas c (y # zs)"

fun json_text :: "json \<Rightarrow> string" where
  "json_text JNull = ''null''"
| "json_text (JBool b) = (if b then ''true'' else ''false'')"
| "json_text (JNum lit) = lit"
| "json_text (JStr s) = encode_string s"
| "json_text (JArr vs) = ''['' @ commas (CHR '','') (map json_text vs) @ '']''"
| "json_text (JObj ms) =
     ''{'' @ commas (CHR '','') (map (\<lambda>(k, v). encode_string k @ '':'' @ json_text v) ms) @ ''}''"

text \<open>\<open>Encoder.Encode\<close> ends the value with a newline.\<close>

definition encode_json :: "json \<Rightarrow> string" where
  "encode_json v = json_text v @ [byte 10]"

section \<open>Round trip\<close>

lemma code_byte [simp]: "n < 256 \<Longrightarrow> code (byte n) = n"
  by (simp add: code_def byte_def)

lemma byte_code [simp]: "byte (code c) = c"
  by (simp add: code_def byte_def)

lemma byte_chars:
  "byte 34 = CHR 0x22" "byte 92 = CHR 0x5C" "byte 8 = CHR 0x08" "byte 9 = CHR 0x09"
  "byte 10 = CHR 0x0A" "byte 12 = CHR 0x0C" "byte 13 = CHR 0x0D"
  by (simp_all add: byte_def char_of_def bit_0)

lemma byte_eq: "c = byte n \<longleftrightarrow> code c = n" if "n < 256"
  using that by (metis byte_code code_byte)

lemma hex_nibble_digits: "list_all (\<lambda>k. hex_nibble (hex_digit k) = Some k) [0..<16]"
  by (simp add: upt_rec hex_digit_def hex_nibble_def code_def)

lemma hex_digit_nibble: "n < 16 \<Longrightarrow> hex_nibble (hex_digit n) = Some n"
  using hex_nibble_digits by (simp add: list_all_iff)

lemma zero_nibble: "hex_nibble (CHR ''0'') = Some 0"
  by (simp add: hex_nibble_def code_def)

definition ascii :: "string \<Rightarrow> bool" where
  "ascii s \<longleftrightarrow> list_all (\<lambda>c. code c < 128) s"

lemma ascii_simps [simp]: "ascii []" "ascii (c # cs) \<longleftrightarrow> code c < 128 \<and> ascii cs"
  by (simp_all add: ascii_def)

lemma encode_chars_ascii: "ascii s \<Longrightarrow> encode_chars s = concat (map encode_char s)"
proof (induction s)
  case Nil
  then show ?case by (simp add: encode_chars.simps rune_length_def)
next
  case (Cons c s)
  then show ?case
    by (simp add: encode_chars.simps [of "c # s"] rune_length_def Let_def)
qed

lemma simple_escapes:
  "simple_escape (byte 34) = Some (byte 34)" "simple_escape (byte 92) = Some (byte 92)"
  "simple_escape (CHR ''b'') = Some (byte 8)" "simple_escape (CHR ''f'') = Some (byte 12)"
  "simple_escape (CHR ''n'') = Some (byte 10)" "simple_escape (CHR ''r'') = Some (byte 13)"
  "simple_escape (CHR ''t'') = Some (byte 9)"
  by (simp_all add: simple_escape_def byte_chars)

lemma scan_special_char:
  assumes "code c \<in> {34, 92, 8, 12, 10, 13, 9}"
  shows "take 1 (encode_char c @ rest) \<noteq> [byte 34]
      \<and> scan_char (encode_char c @ rest) = Some ([c], rest)"
proof -
  have "c \<in> {byte 34, byte 92, byte 8, byte 12, byte 10, byte 13, byte 9}"
    using assms by (auto simp: byte_eq)
  moreover have "byte 92 \<noteq> byte 34" "code (byte 92) = 92" by (simp_all add: byte_eq)
  ultimately show ?thesis
    by (elim insertE)
      (simp_all add: encode_char_def Let_def scan_char_def scan_escape_def simple_escapes,
       simp_all add: byte_chars)
qed

lemma scan_encoded_char:
  assumes "code c < 128"
  shows "scan_string (encode_char c @ rest) = map_option (apfst ((@) [c])) (scan_string rest)"
proof -
  let ?n = "code c"
  have "?n div 16 < 8" "?n mod 16 < 16" using assms by auto
  then have hex: "hex4 ([CHR ''0'', CHR ''0'', hex_digit (?n div 16), hex_digit (?n mod 16)] @ rest)
      = Some (?n, rest)"
    by (simp add: hex4_def hex_digit_nibble zero_nibble)
  have "take 1 (encode_char c @ rest) \<noteq> [byte 34]
      \<and> scan_char (encode_char c @ rest) = Some ([c], rest)"
  proof (cases "?n \<in> {34, 92, 8, 12, 10, 13, 9}")
    case True
    then show ?thesis by (rule scan_special_char)
  next
    case False
    show ?thesis
    proof (cases "?n < 32 \<or> c \<in> set ''<>&''")
      case True
      then show ?thesis using False hex assms
        by (simp add: encode_char_def Let_def scan_char_def scan_escape_def encode_rune_def byte_eq)
    next
      case plain: False
      then show ?thesis using False assms
        by (simp add: encode_char_def Let_def scan_char_def rune_length_def byte_eq)
    qed
  qed
  then show ?thesis by (simp add: scan_string.simps [of "encode_char c @ rest"])
qed

lemma scan_encoded:
  "ascii s \<Longrightarrow> scan_string (encode_chars s @ byte 34 # rest) = Some (s, rest)"
proof -
  assume s: "ascii s"
  have "scan_string (concat (map encode_char s) @ byte 34 # rest) = Some (s, rest)"
    using s by (induction s) (simp_all add: scan_encoded_char scan_string.simps [of "byte 34 # rest"])
  then show ?thesis using s by (simp add: encode_chars_ascii)
qed

text \<open>The tokens of a value, in the order of its text.\<close>

fun tokens :: "json \<Rightarrow> json_token list" where
  "tokens (JArr vs) = LBrack # commas Comma (map tokens vs) @ [RBrack]"
| "tokens (JObj ms) =
     LBrace # commas Comma (map (\<lambda>(k, v). Scalar (JStr k) # Colon # tokens v) ms) @ [RBrace]"
| "tokens v = [Scalar v]"

text \<open>Values the encoder can have written: ASCII strings, proper number literals.\<close>

fun plain_json :: "json \<Rightarrow> bool" where
  "plain_json (JNum lit) \<longleftrightarrow> is_number lit \<and> list_all number_char lit"
| "plain_json (JStr s) \<longleftrightarrow> ascii s"
| "plain_json (JArr vs) \<longleftrightarrow> list_all plain_json vs"
| "plain_json (JObj ms) \<longleftrightarrow> list_all (\<lambda>(k, v). ascii k \<and> plain_json v) ms"
| "plain_json _ \<longleftrightarrow> True"

fun json_depth :: "json \<Rightarrow> nat" where
  "json_depth (JArr vs) = Suc (fold max (map json_depth vs) 0)"
| "json_depth (JObj ms) = Suc (fold max (map (\<lambda>(k, v). json_depth v) ms) 0)"
| "json_depth _ = 0"

definition stops :: "string \<Rightarrow> bool" where
  "stops rest \<longleftrightarrow> (case rest of [] \<Rightarrow> True | c # _ \<Rightarrow> \<not> number_char c)"

lemma code_mem: "c \<in> set s \<longleftrightarrow> code c \<in> code ` set s"
  by (auto simp: code_def)

lemma number_char_code:
  "number_char c \<longleftrightarrow> 48 \<le> code c \<and> code c \<le> 57 \<or> code c \<in> {43, 45, 46, 101, 69}"
proof -
  have "c \<in> set ''+-.eE'' \<longleftrightarrow> code c \<in> {43, 45, 46, 101, 69}"
    unfolding code_mem [of c "''+-.eE''"] by (simp add: code_def)
  moreover have "is_digit c \<longleftrightarrow> 48 \<le> code c \<and> code c \<le> 57"
    by (simp add: is_digit_def digit_value_def Let_def code_def)
  ultimately show ?thesis unfolding number_char_def by blast
qed

lemma json_space_code: "json_space c \<longleftrightarrow> code c \<in> {32, 9, 10, 13}"
proof -
  have "c = CHR '' '' \<longleftrightarrow> code c = 32" using code_mem [of c "'' ''"] by (simp add: code_def)
  then show ?thesis by (simp add: json_space_def byte_eq)
qed

lemma punctuation_code: "punctuation c = None \<longleftrightarrow> code c \<notin> {123, 125, 91, 93, 58, 44}"
proof -
  have "punctuation c = None \<longleftrightarrow> c \<notin> set ''{}[]:,''"
    unfolding punctuation_def map_of_eq_None_iff by simp
  moreover have "c \<in> set ''{}[]:,'' \<longleftrightarrow> code c \<in> {123, 125, 91, 93, 58, 44}"
    unfolding code_mem [of c "''{}[]:,''"] by (simp add: code_def)
  ultimately show ?thesis by blast
qed

lemmas char_codes = number_char_code json_space_code punctuation_code

lemma tokenize_Cons:
  "tokenize (c # cs) =
     (if json_space c then tokenize cs
      else case punctuation c of
             Some t \<Rightarrow> map_option ((#) t) (tokenize cs)
           | None \<Rightarrow>
               if c = byte 34 then
                 (case scan_string cs of None \<Rightarrow> None
                  | Some (t, rest) \<Rightarrow> map_option ((#) (Scalar (JStr t))) (tokenize rest))
               else if number_char c then
                 (let lit = takeWhile number_char (c # cs) in
                  if is_number lit
                  then map_option ((#) (Scalar (JNum lit))) (tokenize (drop (length lit) (c # cs)))
                  else None)
               else (case strip_literal literals (c # cs) of None \<Rightarrow> None
                     | Some (v, rest) \<Rightarrow> map_option ((#) (Scalar v)) (tokenize rest)))"
  by (subst tokenize.simps) simp

lemma tokenize_punctuation:
  "tokenize (CHR ''{'' # s) = map_option ((#) LBrace) (tokenize s)"
  "tokenize (CHR ''}'' # s) = map_option ((#) RBrace) (tokenize s)"
  "tokenize (CHR ''['' # s) = map_option ((#) LBrack) (tokenize s)"
  "tokenize (CHR '']'' # s) = map_option ((#) RBrack) (tokenize s)"
  "tokenize (CHR '':'' # s) = map_option ((#) Colon) (tokenize s)"
  "tokenize (CHR '','' # s) = map_option ((#) Comma) (tokenize s)"
  by (simp_all add: tokenize_Cons json_space_def punctuation_def byte_chars)

lemma tokenize_end: "tokenize [] = Some []" "tokenize [byte 10] = Some []"
  by (simp_all add: tokenize_Cons tokenize.simps [of "[]"] json_space_def)

lemma quote_token: "\<not> json_space (byte 34)" "punctuation (byte 34) = None"
  by (simp_all add: json_space_def punctuation_def byte_chars)

lemma tokenize_string:
  "ascii s \<Longrightarrow>
     tokenize (encode_string s @ rest) = map_option ((#) (Scalar (JStr s))) (tokenize rest)"
  by (simp add: tokenize_Cons encode_string_def quote_token scan_encoded)

lemma tokenize_word:
  assumes "code c \<in> {110, 116, 102}"
  shows "tokenize (c # cs) = (case strip_literal literals (c # cs) of None \<Rightarrow> None
     | Some (v, rest) \<Rightarrow> map_option ((#) (Scalar v)) (tokenize rest))"
proof -
  have "\<not> json_space c" "punctuation c = None" "c \<noteq> byte 34" "\<not> number_char c"
    using assms by (auto simp: char_codes byte_eq)
  then show ?thesis by (simp add: tokenize_Cons)
qed

lemma tokenize_literals:
  "tokenize (''null'' @ rest) = map_option ((#) (Scalar JNull)) (tokenize rest)"
  "tokenize (''true'' @ rest) = map_option ((#) (Scalar (JBool True))) (tokenize rest)"
  "tokenize (''false'' @ rest) = map_option ((#) (Scalar (JBool False))) (tokenize rest)"
  by (simp_all add: tokenize_word code_def literals_def strip_prefix_def)

lemma number_char_not:
  "number_char c \<Longrightarrow> \<not> json_space c \<and> punctuation c = None \<and> c \<noteq> byte 34"
  by (auto simp: char_codes byte_eq)

lemma tokenize_number:
  assumes "is_number lit" "list_all number_char lit" "stops rest"
  shows "tokenize (lit @ rest) = map_option ((#) (Scalar (JNum lit))) (tokenize rest)"
proof -
  obtain c cs where lit: "lit = c # cs"
    using assms(1) by (cases lit) (auto simp: is_number_def)
  have "takeWhile number_char (lit @ rest) = lit"
    using assms(2,3) by (cases rest) (auto simp: stops_def takeWhile_append list_all_iff)
  then show ?thesis
    using assms(1,2) number_char_not [of c] by (simp add: tokenize_Cons lit Let_def)
qed


lemma append_fun:
  "(@) [] = (\<lambda>a. a)" "(@) (x # xs) = (\<lambda>a. x # xs @ a)" "(@) (xs @ ys) = (\<lambda>a. xs @ ys @ a)"
  by (simp_all add: fun_eq_iff)

lemmas map_option_append = append_fun option.map_comp comp_def

lemma stops_punctuation: "stops (CHR '','' # s)" "stops (CHR '']'' # s)" "stops (CHR ''}'' # s)"
  "stops []" "stops [byte 10]"
  by (simp_all add: stops_def number_char_code) (simp_all add: code_def)

text \<open>Texts that are tokenized one by one are tokenized when separated by commas.\<close>

lemma tokenize_commas:
  assumes "\<And>x rest. x \<in> set xs \<Longrightarrow> stops rest \<Longrightarrow>
      tokenize (f x @ rest) = map_option ((@) (g x)) (tokenize rest)"
    and "stops rest"
  shows "tokenize (commas (CHR '','') (map f xs) @ rest)
    = map_option ((@) (commas Comma (map g xs))) (tokenize rest)"
  using assms(1)
proof (induction xs rule: induct_list012)
  case 1
  then show ?case by (cases "tokenize rest") simp_all
next
  case (2 x)
  then show ?case using assms(2) by simp
next
  case (3 x y zs)
  then show ?case
    by (simp add: stops_punctuation tokenize_punctuation map_option_append)
qed

lemma tokenize_json:
  "plain_json v \<Longrightarrow> stops rest \<Longrightarrow>
     tokenize (json_text v @ rest) = map_option ((@) (tokens v)) (tokenize rest)"
proof (induction v arbitrary: rest rule: json_text.induct)
  case (5 vs)
  then show ?case
    by (simp add: tokenize_punctuation tokenize_commas [of vs json_text tokens] stops_punctuation
        list_all_iff map_option_append)
next
  case (6 ms)
  have "tokenize ((\<lambda>(k, v). encode_string k @ '':'' @ json_text v) m @ rest)
      = map_option ((@) ((\<lambda>(k, v). Scalar (JStr k) # Colon # tokens v) m)) (tokenize rest)"
    if "m \<in> set ms" "stops rest" for m rest
  proof -
    obtain k v where m: "m = (k, v)" by (cases m)
    with that "6.prems" have "ascii k" "plain_json v" by (auto simp: list_all_iff)
    with "6.IH" that m show ?thesis
      by (simp add: tokenize_string tokenize_punctuation map_option_append)
  qed
  from tokenize_commas [of ms "\<lambda>(k, v). encode_string k @ '':'' @ json_text v"
      "\<lambda>(k, v). Scalar (JStr k) # Colon # tokens v" "CHR ''}'' # rest", OF this] show ?case
    by (simp add: tokenize_punctuation stops_punctuation map_option_append)
qed (simp_all add: tokenize_literals [simplified] tokenize_number tokenize_string map_option_append)

text \<open>The automaton reads the tokens of a value, whatever is open around it.\<close>

lemma parse_element:
  assumes "\<forall>xs. t # ts \<noteq> RBrack # xs"
  shows "parse_tokens st WantElement (t # ts) = parse_tokens st WantValue (t # ts)"
  using assms by (cases t) auto

lemma tokens_first: "\<exists>t ts. tokens v = t # ts \<and> t \<noteq> RBrack"
  by (cases v) auto

lemma fold_max_le: "fold max xs (m::nat) \<le> n \<longleftrightarrow> m \<le> n \<and> (\<forall>x\<in>set xs. x \<le> n)"
  by (induction xs arbitrary: m) auto

lemma parse_value_tokens:
  "plain_json v \<Longrightarrow> length st + json_depth v \<le> maxNestingDepth \<Longrightarrow>
     parse_tokens st WantValue (tokens v @ ts) = parse_tokens st (Have v) ts"
proof (induction v arbitrary: st ts rule: tokens.induct)
  case (1 vs)
  have depth: "Suc (length st) + json_depth v \<le> maxNestingDepth" if "v \<in> set vs" for v
    using that 1(3) fold_max_le [of "map json_depth vs" 0 "maxNestingDepth - Suc (length st)"] by auto
  have elems: "parse_tokens (InArr (rev pre) # st) WantValue
        (commas Comma (map tokens (v # ws)) @ RBrack # ts)
      = parse_tokens st (Have (JArr (pre @ v # ws))) ts"
    if "set (v # ws) \<subseteq> set vs" for pre v ws
    using that
  proof (induction ws arbitrary: v pre)
    case Nil
    then show ?case using 1(1) [of v "InArr (rev pre) # st"] 1(2) depth by (simp add: list_all_iff)
  next
    case (Cons w ws)
    then show ?case
      using 1(1) [of v "InArr (rev pre) # st"] 1(2) depth Cons.IH [of w "pre @ [v]"]
      by (simp add: list_all_iff)
  qed
  show ?case
  proof (cases vs)
    case Nil
    then show ?thesis using 1(3) by simp
  next
    case (Cons v ws)
    obtain t us where first: "commas Comma (map tokens (v # ws)) @ RBrack # ts = t # us" "t \<noteq> RBrack"
      using tokens_first [of v] by (cases ws) auto
    have "parse_tokens (InArr [] # st) WantElement (commas Comma (map tokens (v # ws)) @ RBrack # ts)
        = parse_tokens (InArr [] # st) WantValue (commas Comma (map tokens (v # ws)) @ RBrack # ts)"
      unfolding first(1) by (rule parse_element) (use first(2) in simp)
    then show ?thesis using elems [of v ws "[]"] 1(3) Cons by simp
  qed
next
  case (2 ms)
  let ?member = "\<lambda>(k, v). Scalar (JStr k) # Colon # tokens v"
  have depth: "length st + json_depth v < maxNestingDepth" if "(k, v) \<in> set ms" for k v
    using that 2(3) fold_max_le [of "map (\<lambda>(k, v). json_depth v) ms" 0 "maxNestingDepth - Suc (length st)"]
    by force
  have one: "parse_tokens st (WantKey first pre) (?member (k, v) @ us)
      = parse_tokens (InObj pre k # st) (Have v) us" if "(k, v) \<in> set ms" for first pre k v us
    using that 2(1) [of "(k, v)" k v "InObj pre k # st"] 2(2) depth [OF that]
    by (auto simp: list_all_iff)
  have members: "parse_tokens st (WantKey first (rev pre)) (commas Comma (map ?member (m # ws)) @ RBrace # ts)
      = parse_tokens st (Have (JObj (pre @ m # ws))) ts"
    if "set (m # ws) \<subseteq> set ms" for first pre m ws
    using that
  proof (induction ws arbitrary: m pre first)
    case Nil
    then show ?case using one [of "fst m" "snd m" first "rev pre"] by (cases m) simp
  next
    case (Cons w ws)
    then show ?case
      using one [of "fst m" "snd m" first "rev pre"] Cons.IH [of w False "pre @ [m]"] by (cases m) simp
  qed
  have "length st < maxNestingDepth" using 2(3) by simp
  then show ?case
    using members [of "hd ms" "tl ms" True "[]"] by (cases ms) simp_all
qed simp_all

text \<open>The parser reads back what the encoder writes.\<close>

lemma parse_encode_json:
  assumes "plain_json v" "json_depth v \<le> maxNestingDepth"
  shows "parse_json (encode_json v) = Some v"
proof -
  have "tokenize (json_text v @ [byte 10]) = Some (tokens v)"
    using tokenize_json [OF assms(1), of "[byte 10]"] by (simp add: stops_punctuation tokenize_end)
  then show ?thesis
    using parse_value_tokens [OF assms(1), of "[]" "[]"] assms(2)
    by (simp add: parse_json_def encode_json_def)
qed

section \<open>Storing into variables\<close>

text \<open>
  \<open>json.Unmarshal\<close> into a variable: the new content of the variable, and whether every value
  fitted its place.  A value that does not fit is left out, the rest is still stored, and the
  call ends with an error.  Null leaves a number, a string or a struct as it is.
\<close>

type_synonym 'a store = "json \<Rightarrow> 'a \<Rightarrow> 'a \<times> bool"

definition store_int :: "int store" where
  "store_int v old =
     (case v of
        JNull \<Rightarrow> (old, True)
      | JNum lit \<Rightarrow> (case parse_int lit of Some i \<Rightarrow> (i, True) | None \<Rightarrow> (old, False))
      | _ \<Rightarrow> (old, False))"

definition store_string :: "string store" where
  "store_string v old = (case v of JNull \<Rightarrow> (old, True) | JStr s \<Rightarrow> (s, True) | _ \<Rightarrow> (old, False))"

text \<open>
  Member names are matched exactly, else by their folded form: letters fold to upper case, and
  two characters outside ASCII fold to a letter.
\<close>

function fold_name :: "string \<Rightarrow> string" where
  "fold_name s =
     (case s of [] \<Rightarrow> []
      | c # cs \<Rightarrow>
          if take 2 s = map byte [197, 191] then CHR ''S'' # fold_name (drop 1 cs)
          else if take 3 s = map byte [226, 132, 170] then CHR ''K'' # fold_name (drop 2 cs)
          else (if 97 \<le> code c \<and> code c \<le> 122 then byte (code c - 32) else c) # fold_name cs)"
  by pat_completeness auto
termination
  by (relation "measure length") auto

declare fold_name.simps [simp del]

definition field_for :: "(string \<times> 'b) list \<Rightarrow> string \<Rightarrow> 'b option" where
  "field_for fs k =
     (case map_of fs k of
        Some f \<Rightarrow> Some f
      | None \<Rightarrow> map_option snd (find (\<lambda>(n, f). fold_name n = fold_name k) fs))"

fun store_members :: "(string \<times> 'a store) list \<Rightarrow> (string \<times> json) list \<Rightarrow> 'a \<Rightarrow> 'a \<times> bool" where
  "store_members fs [] old = (old, True)"
| "store_members fs ((k, v) # ms) old =
     (case field_for fs k of
        None \<Rightarrow> store_members fs ms old
      | Some f \<Rightarrow>
          (case f v old of (new, ok) \<Rightarrow>
             (case store_members fs ms new of (final, rest_ok) \<Rightarrow> (final, ok \<and> rest_ok))))"

definition store_struct :: "(string \<times> 'a store) list \<Rightarrow> 'a store" where
  "store_struct fs v old =
     (case v of JNull \<Rightarrow> (old, True) | JObj ms \<Rightarrow> store_members fs ms old | _ \<Rightarrow> (old, False))"

definition store_pointer :: "'a \<Rightarrow> 'a store \<Rightarrow> 'a option store" where
  "store_pointer zero f v old =
     (case v of
        JNull \<Rightarrow> (None, True)
      | _ \<Rightarrow> (case f v (case old of None \<Rightarrow> zero | Some x \<Rightarrow> x) of (x, ok) \<Rightarrow> (Some x, ok)))"

definition store_slice :: "'a \<Rightarrow> 'a store \<Rightarrow> 'a list store" where
  "store_slice zero f v old =
     (case v of
        JNull \<Rightarrow> ([], True)
      | JArr vs \<Rightarrow> (map (\<lambda>x. fst (f x zero)) vs, list_all (\<lambda>x. snd (f x zero)) vs)
      | _ \<Rightarrow> (old, False))"

text \<open>A field of a struct: how to read it and how to set it.\<close>

definition in_field :: "('s \<Rightarrow> 'a) \<Rightarrow> ('a \<Rightarrow> 's \<Rightarrow> 's) \<Rightarrow> 'a store \<Rightarrow> 's store" where
  "in_field get put f v s = (case f v (get s) of (x, ok) \<Rightarrow> (put x s, ok))"

definition unmarshal :: "'a store \<Rightarrow> string \<Rightarrow> 'a \<Rightarrow> 'a \<times> bool" where
  "unmarshal f text old =
     (case parse_json text of None \<Rightarrow> (old, False) | Some v \<Rightarrow> f v old)"

text \<open>The error of a failed call; its text is not modelled.\<close>

definition json_error :: go_error where
  "json_error = GoError ''json: invalid value''"

definition decoded :: "'a store \<Rightarrow> string \<Rightarrow> 'a \<Rightarrow> go_error + 'a" where
  "decoded f text zero =
     (case unmarshal f text zero of (x, ok) \<Rightarrow> if ok then Inr x else Inl json_error)"

definition upper :: "char \<Rightarrow> char" where
  "upper c = (if 97 \<le> code c \<and> code c \<le> 122 then byte (code c - 32) else c)"

lemma fold_name_ascii: "ascii s \<Longrightarrow> fold_name s = map upper s"
proof (induction s)
  case (Cons c cs)
  then have "c \<noteq> byte 197" "c \<noteq> byte 226" by (auto simp: byte_eq)
  then show ?case using Cons by (subst fold_name.simps) (simp add: upper_def)
qed (simp add: fold_name.simps)

text \<open>Encoded text is read as the value it stands for.\<close>

lemma unmarshal_encode_json:
  "plain_json v \<Longrightarrow> json_depth v \<le> maxNestingDepth \<Longrightarrow> unmarshal f (encode_json v) old = f v old"
  by (simp add: unmarshal_def parse_encode_json)

lemmas field_names = field_for_def fold_name_ascii ascii_def code_def upper_def


text \<open>Reading back encoded numbers and members.\<close>

lemma nat_text_digits: "list_all is_digit (nat_text n)"
proof -
  have "digits_value a s = Some m \<Longrightarrow> list_all is_digit s" for a s m
    by (induction s arbitrary: a) (auto simp: is_digit_def split: option.splits)
  then show ?thesis using digits_value_nat_text [of n] by blast
qed

lemma nat_text_zero: "nat_text m = CHR ''0'' # s \<Longrightarrow> s = []"
proof (induction m arbitrary: s rule: less_induct)
  case (less m)
  obtain c t where t: "nat_text (m div 10) = c # t" by (cases "nat_text (m div 10)") auto
  show ?case
  proof (rule ccontr)
    assume "s \<noteq> []"
    then have m: "m \<ge> 10" using less.prems by (auto simp: nat_text.simps [of m] split: if_splits)
    then have "c = CHR ''0''" using less.prems t by (simp add: nat_text.simps [of m])
    moreover from this have "t = []" using less.IH [of "m div 10" t] t m by simp
    ultimately have "digits_value 0 (nat_text (m div 10)) = Some 0"
      using t by (simp add: digit_value_def)
    then show False using m by (simp add: digits_value_nat_text)
  qed
qed


lemma is_number_itoa: "is_number (itoa i) \<and> list_all number_char (itoa i)"
proof -
  have nat: "is_number (nat_text n) \<and> is_number (CHR ''-'' # nat_text n)" for n
  proof -
    obtain c s where cs: "nat_text n = c # s" by (cases "nat_text n") auto
    have all: "takeWhile is_digit s = s"
      using nat_text_digits [of n] cs by (simp add: takeWhile_eq_all_conv list_all_iff)
    have "c = CHR ''0'' \<Longrightarrow> s = []" using nat_text_zero [of n s] cs by simp
    moreover have "is_digit c" using nat_text_digits [of n] cs by simp
    moreover have "\<not> is_digit (CHR ''-'')" by (simp add: is_digit_def)
    ultimately show ?thesis using nat_text_hd(1) [OF cs] cs
      by (auto simp: is_number_def is_fraction_def is_exponent_def Let_def all)
  qed
  moreover have "list_all number_char (nat_text n)" for n
    using nat_text_digits [of n] by (auto simp: list_all_iff number_char_def)
  ultimately show ?thesis by (simp add: itoa_def number_char_def)
qed

section \<open>The first value of a stream\<close>

text \<open>
  \<open>Decoder.Decode\<close> reads one value and leaves what follows it: the value ends with its closing
  bracket, quote or letter, a number at the first character that cannot continue it.
\<close>

definition number_continues :: "string \<Rightarrow> char \<Rightarrow> bool" where
  "number_continues lit c \<longleftrightarrow> is_number (lit @ [c]) \<or> is_number (lit @ [c, CHR ''0''])"

definition ends_value :: "string \<Rightarrow> nat \<Rightarrow> bool" where
  "ends_value s n \<longleftrightarrow>
     (case parse_json (take n s) of
        None \<Rightarrow> False
      | Some (JNum lit) \<Rightarrow> n = length s \<or> \<not> number_continues lit (s ! n)
      | Some v \<Rightarrow> True)"

definition first_value :: "string \<Rightarrow> json option" where
  "first_value s =
     (case find (ends_value s) [0..<Suc (length s)] of
        None \<Rightarrow> None | Some n \<Rightarrow> parse_json (take n s))"

definition decode :: "'a store \<Rightarrow> string \<Rightarrow> 'a \<Rightarrow> 'a \<times> bool" where
  "decode f s old = (case first_value s of None \<Rightarrow> (old, False) | Some v \<Rightarrow> f v old)"

text \<open>A closing token has its character in the text, and an object needs one.\<close>

lemma hex4_rest: "hex4 s = Some (r, rest) \<Longrightarrow> set rest \<subseteq> set s"
  by (auto simp: hex4_def split: list.splits option.splits)

lemma strip_prefix_rest: "strip_prefix p s = Some r \<Longrightarrow> set r \<subseteq> set s"
  by (auto simp: strip_prefix_def split: if_splits dest: in_set_dropD)

lemma low_surrogate_rest: "low_surrogate s = Some (r, rest) \<Longrightarrow> set rest \<subseteq> set s"
  by (fastforce simp: low_surrogate_def split: option.splits if_splits
      dest: hex4_rest strip_prefix_rest)

lemma scan_escape_rest: "scan_escape s = Some (t, rest) \<Longrightarrow> set rest \<subseteq> set s"
  by (fastforce simp: scan_escape_def split: list.splits option.splits if_splits
      dest: hex4_rest low_surrogate_rest)

lemma scan_char_rest: "scan_char s = Some (t, rest) \<Longrightarrow> set rest \<subseteq> set s"
  by (fastforce simp: scan_char_def split: list.splits if_splits option.splits
      dest: in_set_dropD scan_escape_rest)

lemma scan_string_rest: "scan_string s = Some (t, u) \<Longrightarrow> set u \<subseteq> set s"
proof (induction s arbitrary: t u rule: scan_string.induct)
  case (1 s)
  show ?case
  proof (cases "take 1 s = [byte 34]")
    case True
    then have "u = drop 1 s" using "1.prems" by (auto simp: scan_string.simps [of s])
    then show ?thesis using set_drop_subset [of 1 s] by simp
  next
    case False
    then obtain t1 rest z where "scan_char s = Some (t1, rest)" "scan_string rest = Some (z, u)"
      using "1.prems" by (auto simp: scan_string.simps [of s] split: option.splits)
    with "1.IH" [OF False this(1) refl, of z u] scan_char_rest [of s t1 rest]
    show ?thesis by auto
  qed
qed

lemma strip_literal_rest: "strip_literal ls s = Some (v, r) \<Longrightarrow> set r \<subseteq> set s"
  by (induction ls) (auto simp: strip_prefix_def split: option.splits if_splits dest: in_set_dropD)

lemma punctuation_chars:
  "punctuation c = Some RBrace \<Longrightarrow> c = CHR ''}''" "punctuation c = Some RBrack \<Longrightarrow> c = CHR '']''"
  by (auto simp: punctuation_def split: if_splits)

lemma tokenize_closers:
  "tokenize s = Some ts \<Longrightarrow>
     (RBrace \<in> set ts \<longrightarrow> CHR ''}'' \<in> set s) \<and> (RBrack \<in> set ts \<longrightarrow> CHR '']'' \<in> set s)"
proof (induction s arbitrary: ts rule: length_induct)
  case (1 s)
  have IH: "(RBrace \<in> set ts' \<longrightarrow> CHR ''}'' \<in> set s) \<and> (RBrack \<in> set ts' \<longrightarrow> CHR '']'' \<in> set s)"
    if "tokenize r = Some ts'" "length r < length s" "set r \<subseteq> set s" for r ts'
    using 1 that by blast
  show ?case
  proof (cases s)
    case Nil
    then show ?thesis using 1 by (simp add: tokenize_end)
  next
    case (Cons c cs)
    note eq = "1.prems" [unfolded Cons tokenize_Cons]
    consider "json_space c" | t where "\<not> json_space c" "punctuation c = Some t"
      | "\<not> json_space c" "punctuation c = None" "c = byte 34"
      | "\<not> json_space c" "punctuation c = None" "c \<noteq> byte 34" "number_char c"
      | "\<not> json_space c" "punctuation c = None" "c \<noteq> byte 34" "\<not> number_char c" by blast
    then show ?thesis
    proof cases
      case 1
      then show ?thesis using IH [of cs ts] eq Cons by auto
    next
      case (2 t)
      then obtain ts' where "tokenize cs = Some ts'" "ts = t # ts'" using eq by auto
      then show ?thesis using IH [of cs ts'] 2 Cons punctuation_chars [of c] by auto
    next
      case 3
      then obtain u r ts' where "scan_string cs = Some (u, r)" "tokenize r = Some ts'"
          "ts = Scalar (JStr u) # ts'"
        using eq by (auto split: option.splits)
      then show ?thesis using IH [of r ts'] scan_string_rest [of cs u r] scan_string_length [of cs u r]
        Cons by auto
    next
      case 4
      let ?l = "takeWhile number_char s"
      obtain ts' where "tokenize (drop (length ?l) s) = Some ts'" "ts = Scalar (JNum ?l) # ts'"
        using 4 eq Cons by (auto simp: Let_def split: if_splits)
      moreover have "length ?l > 0" using 4 Cons by simp
      ultimately show ?thesis
        using IH [of "drop (length ?l) s" ts'] set_drop_subset [of "length ?l" s] Cons
        by (simp del: takeWhile.simps)
    next
      case 5
      then obtain v r ts' where "strip_literal literals s = Some (v, r)" "tokenize r = Some ts'"
          "ts = Scalar v # ts'"
        using eq Cons by (auto split: option.splits)
      then show ?thesis using IH [of r ts'] strip_literal_rest [of literals s v r]
        strip_literals_length [of s v r] by auto
    qed
  qed
qed

lemma open_needs_closer:
  "parse_tokens st m ts = Some v \<Longrightarrow> st \<noteq> [] \<or> (\<exists>b ms k. m = WantKey b ms \<or> m = WantColon ms k) \<Longrightarrow>
     RBrace \<in> set ts \<or> RBrack \<in> set ts"
  by (induction st m ts rule: parse_tokens.induct)
    (auto split: json_token.splits json.splits list.splits frame.splits if_splits mode.splits)

lemma first_value_object:
  assumes "parse_json (CHR ''{'' # s @ ''}'') = Some v"
    and "CHR ''}'' \<notin> set s" "CHR '']'' \<notin> set s"
  shows "first_value (CHR ''{'' # s @ ''}'') = Some v"
proof -
  let ?s = "CHR ''{'' # s @ ''}''"
  have none: "parse_json (take n ?s) = None" if "n < length ?s" for n
  proof (cases n)
    case 0
    then show ?thesis by (simp add: parse_json_def tokenize_end)
  next
    case (Suc m)
    then have t: "take n ?s = CHR ''{'' # take m s" using that by simp
    have quiet: "RBrace \<notin> set ts \<and> RBrack \<notin> set ts" if "tokenize (take m s) = Some ts" for ts
      using tokenize_closers [OF that] assms(2,3) by (auto dest: in_set_takeD)
    have "parse_tokens [] (WantKey True []) ts = None" if "tokenize (take m s) = Some ts" for ts
      using open_needs_closer [of "[]" "WantKey True []" ts] quiet [OF that]
      by (cases "parse_tokens [] (WantKey True []) ts") auto
    then show ?thesis unfolding t
      by (auto simp: parse_json_def tokenize_punctuation split: option.splits)
  qed
  have no: "\<not> ends_value ?s n" if "n < length ?s" for n
    using none [OF that] by (simp add: ends_value_def)
  have yes: "ends_value ?s (length ?s)"
    unfolding ends_value_def take_all [OF order_refl] assms(1) by (simp split: json.split)
  have "find (ends_value ?s) [0..<Suc (length ?s)] = Some (length ?s)"
    unfolding find_Some_iff
    by (rule exI [of _ "length ?s"]) (use no yes in \<open>auto simp: nth_append simp del: upt_Suc\<close>)
  then show ?thesis
    unfolding first_value_def by (simp only: option.case take_all [OF order_refl] assms(1))
qed

end
