(* ===== verification/Ip_Address.thy ===== *)
theory Ip_Address
  imports Prelude "HOL-Library.Word"
begin

text \<open>
  The part of the standard library package \<open>net\<close> that the node agent and the probe network
  policy use: IP addresses as byte slices of length 4 or 16, their textual form, equality, and
  CIDR networks.  An IPv4 address is the same address in its 4-byte and in its 16-byte
  (IPv4-mapped) form.
\<close>

type_synonym ip = "8 word list"

section \<open>Addresses\<close>

definition v4_in_v6_prefix :: "8 word list" where
  "v4_in_v6_prefix = replicate 10 0 @ [255, 255]"

definition to4 :: "ip \<Rightarrow> ip option" where
  "to4 a =
     (if length a = 4 then Some a
      else if length a = 16 \<and> take 12 a = v4_in_v6_prefix then Some (drop 12 a) else None)"

text \<open>\<open>IP.Equal\<close>.\<close>

definition ip_equal :: "ip \<Rightarrow> ip \<Rightarrow> bool" where
  "ip_equal a b \<longleftrightarrow>
     (if length a = length b then a = b
      else if length a = 4 \<and> length b = 16 then take 12 b = v4_in_v6_prefix \<and> a = drop 12 b
      else if length a = 16 \<and> length b = 4 then take 12 a = v4_in_v6_prefix \<and> drop 12 a = b
      else False)"

section \<open>Text\<close>

fun split_on :: "char \<Rightarrow> string \<Rightarrow> string list" where
  "split_on sep [] = [[]]"
| "split_on sep (c # cs) =
     (if c = sep then [] # split_on sep cs
      else case split_on sep cs of [] \<Rightarrow> [[c]] | f # fs \<Rightarrow> (c # f) # fs)"

text \<open>One field of dotted-decimal notation: no leading zero, at most 255.\<close>

definition parse_octet :: "string \<Rightarrow> 8 word option" where
  "parse_octet s =
     (if s = [] \<or> (length s > 1 \<and> hd s = CHR ''0'') then None
      else case digits_value 0 s of
             None \<Rightarrow> None
           | Some n \<Rightarrow> if n \<le> 255 then Some (of_nat n) else None)"

fun all_some :: "'a option list \<Rightarrow> 'a list option" where
  "all_some [] = Some []"
| "all_some (x # xs) =
     (case x of None \<Rightarrow> None
      | Some y \<Rightarrow> (case all_some xs of None \<Rightarrow> None | Some ys \<Rightarrow> Some (y # ys)))"

definition parse_ipv4 :: "string \<Rightarrow> ip option" where
  "parse_ipv4 s =
     (let fields = split_on (CHR ''.'') s in
      if length fields = 4 then all_some (map parse_octet fields) else None)"

definition hex_value :: "char \<Rightarrow> nat option" where
  "hex_value c =
     (let n = of_char c :: nat in
      if 48 \<le> n \<and> n \<le> 57 then Some (n - 48)
      else if 97 \<le> n \<and> n \<le> 102 then Some (n - 87)
      else if 65 \<le> n \<and> n \<le> 70 then Some (n - 55) else None)"

fun hex_number :: "nat \<Rightarrow> string \<Rightarrow> nat" where
  "hex_number acc [] = acc"
| "hex_number acc (c # cs) =
     hex_number (16 * acc + (case hex_value c of None \<Rightarrow> 0 | Some d \<Rightarrow> d)) cs"

text \<open>
  The loop of \<open>parseIPv6\<close> over groups of hexadecimal digits: the bytes so far, the position of
  the ellipsis, and the text that is left.
\<close>

function ipv6_groups :: "string \<Rightarrow> ip \<Rightarrow> nat option \<Rightarrow> (ip \<times> nat option \<times> string) option" where
  "ipv6_groups s bytes ellipsis =
     (if length bytes \<ge> 16 then Some (bytes, ellipsis, s)
      else
        let ds = takeWhile (\<lambda>c. hex_value c \<noteq> None) s;
            rest = drop (length ds) s in
        if ds = [] \<or> length ds > 4 then None
        else if take 1 rest = ''.'' then
          (if ellipsis = None \<and> length bytes \<noteq> 12 \<or> length bytes + 4 > 16 then None
           else case parse_ipv4 s of None \<Rightarrow> None
                | Some v4 \<Rightarrow> Some (bytes @ v4, ellipsis, []))
        else
          let n = hex_number 0 ds;
              bytes' = bytes @ [of_nat (n div 256), of_nat (n mod 256)] in
          case rest of
            [] \<Rightarrow> Some (bytes', ellipsis, [])
          | c # cs \<Rightarrow>
              if c \<noteq> CHR '':'' \<or> cs = [] then None
              else if hd cs = CHR '':'' then
                (if ellipsis \<noteq> None then None
                 else if tl cs = [] then Some (bytes', Some (length bytes'), [])
                 else ipv6_groups (tl cs) bytes' (Some (length bytes')))
              else ipv6_groups cs bytes' ellipsis)"
  by pat_completeness auto
termination
  by (relation "measure (\<lambda>(s, bytes, e). 16 - length bytes)") auto

declare ipv6_groups.simps [simp del]

definition parse_ipv6 :: "string \<Rightarrow> ip option" where
  "parse_ipv6 s =
     (if s = ''::'' then Some (replicate 16 0)
      else
        let start = (if take 2 s = ''::'' then (drop 2 s, Some 0) else (s, None)) in
        case ipv6_groups (fst start) [] (snd start) of
          None \<Rightarrow> None
        | Some (bytes, ellipsis, rest) \<Rightarrow>
            if rest \<noteq> [] then None
            else case ellipsis of
                   None \<Rightarrow> if length bytes < 16 then None else Some bytes
                 | Some e \<Rightarrow>
                     if length bytes < 16
                     then Some (take e bytes @ replicate (16 - length bytes) 0 @ drop e bytes)
                     else None)"

text \<open>
  \<open>netip.ParseAddr\<close>: the first dot or colon decides the family.  A zone (\<open>%\<close>) makes both of
  its callers here fail.
\<close>

definition parse_addr :: "string \<Rightarrow> ip option" where
  "parse_addr s =
     (if CHR ''%'' \<in> set s then None
      else case find (\<lambda>c. c = CHR ''.'' \<or> c = CHR '':'') s of
             None \<Rightarrow> None
           | Some c \<Rightarrow> if c = CHR ''.'' then parse_ipv4 s else parse_ipv6 s)"

text \<open>\<open>net.ParseIP\<close> returns the 16-byte form.\<close>

definition parse_ip :: "string \<Rightarrow> ip option" where
  "parse_ip s =
     (case parse_addr s of None \<Rightarrow> None
      | Some a \<Rightarrow> Some (if length a = 4 then v4_in_v6_prefix @ a else a))"

section \<open>Lengths\<close>

lemma all_some_length: "all_some xs = Some ys \<Longrightarrow> length ys = length xs"
  by (induction xs arbitrary: ys) (auto split: option.splits)

lemma parse_ipv4_length: "parse_ipv4 s = Some a \<Longrightarrow> length a = 4"
  by (auto simp: parse_ipv4_def Let_def split: if_splits dest: all_some_length)

lemma ipv6_groups_length:
  "ipv6_groups s bytes e = Some (bytes', e', rest) \<Longrightarrow> length bytes \<le> 16 \<Longrightarrow> even (length bytes) \<Longrightarrow>
     length bytes' \<le> 16"
proof (induction "16 - length bytes" arbitrary: s bytes e rule: less_induct)
  case less
  show ?case
  proof (cases "length bytes \<ge> 16")
    case True
    then show ?thesis using less.prems by (simp add: ipv6_groups.simps [of s bytes])
  next
    case False
    then have short: "length bytes + 2 \<le> 16" using less.prems(3) by presburger
    have again: "length bytes' \<le> 16"
      if "ipv6_groups s2 (bytes @ [x, y]) e2 = Some (bytes', e', rest)" for s2 x y e2
      using that short less.prems(3) by (intro less.hyps [OF _ that]) auto
    show ?thesis
      using less.prems(1) False short
      by (simp add: ipv6_groups.simps [of s bytes] Let_def split: if_splits option.splits list.splits)
        (auto dest: parse_ipv4_length again)
  qed
qed

lemma parse_ipv6_length: "parse_ipv6 s = Some a \<Longrightarrow> length a = 16"
  by (auto simp: parse_ipv6_def Let_def split: if_splits option.splits prod.splits
      dest!: ipv6_groups_length)

lemma parse_ip_length: "parse_ip s = Some a \<Longrightarrow> length a = 16"
  by (auto simp: parse_ip_def parse_addr_def v4_in_v6_prefix_def split: option.splits if_splits
      dest: parse_ipv4_length parse_ipv6_length)

lemma ip_equal_refl [simp]: "ip_equal a a"
  by (simp add: ip_equal_def)

lemma ip_equal_sym: "ip_equal a b \<longleftrightarrow> ip_equal b a"
  by (auto simp: ip_equal_def)

end
