(* ===== verification/Url.thy ===== *)
theory Url
  imports Json Ip_Address
begin

text \<open>
  The part of the standard library package \<open>net/url\<close> the code uses: \<open>url.Parse\<close> with the
  accessors of its result, and the escaping of query components (\<open>url.QueryEscape\<close>,
  \<open>Values.Encode\<close>).  The texts of parse errors are not modelled.
\<close>

section \<open>Cutting strings\<close>

text \<open>\<open>strings.Cut\<close>: the text before the first separator, the text after it, and whether it is there.\<close>

definition cut :: "char \<Rightarrow> string \<Rightarrow> string \<times> string \<times> bool" where
  "cut sep s =
     (let before = takeWhile (\<lambda>c. c \<noteq> sep) s in
      (before, drop (Suc (length before)) s, sep \<in> set s))"

text \<open>The same at the last separator; without one the second part is the whole text.\<close>

definition cut_last :: "char \<Rightarrow> string \<Rightarrow> (string \<times> string) option" where
  "cut_last sep s =
     (case cut sep (rev s) of (after, before, found) \<Rightarrow>
        if found then Some (rev before, rev after) else None)"

section \<open>Escaping\<close>

definition is_letter :: "char \<Rightarrow> bool" where
  "is_letter c \<longleftrightarrow> 65 \<le> code c \<and> code c \<le> 90 \<or> 97 \<le> code c \<and> code c \<le> 122"

definition unreserved :: "char \<Rightarrow> bool" where
  "unreserved c \<longleftrightarrow> is_letter c \<or> is_digit c \<or> c \<in> set ''-_.~''"

text \<open>The bytes that need no escape in a host, a path, a query component.\<close>

definition host_char :: "char \<Rightarrow> bool" where
  "host_char c \<longleftrightarrow> unreserved c \<or> c \<in> set ''!$&()*+,;=:[]<>'' \<or> code c = 34 \<or> code c = 39"

definition path_char :: "char \<Rightarrow> bool" where
  "path_char c \<longleftrightarrow> unreserved c \<or> c \<in> set ''$&+,/:;=@''"

definition upper_hex :: "nat \<Rightarrow> char" where
  "upper_hex n = ''0123456789ABCDEF'' ! n"

definition percent :: "char \<Rightarrow> string" where
  "percent c = [CHR ''%'', upper_hex (code c div 16), upper_hex (code c mod 16)]"

definition query_escape :: "string \<Rightarrow> string" where
  "query_escape s =
     concat (map (\<lambda>c. if unreserved c then [c] else if c = CHR '' '' then ''+'' else percent c) s)"

definition path_escape :: "string \<Rightarrow> string" where
  "path_escape s = concat (map (\<lambda>c. if path_char c then [c] else percent c) s)"

text \<open>
  Undoing escapes: every percent sign must start one.  \<open>ok_byte\<close> says which decoded bytes and
  which plain bytes the component admits.
\<close>

fun unescape :: "(char \<Rightarrow> bool) \<Rightarrow> (char \<Rightarrow> bool) \<Rightarrow> string \<Rightarrow> string option" where
  "unescape ok_escaped ok_plain [] = Some []"
| "unescape ok_escaped ok_plain (c # cs) =
     (if c = CHR ''%'' then
        (case cs of
           h # l # rest \<Rightarrow>
             (case (hex_nibble h, hex_nibble l) of
                (Some x, Some y) \<Rightarrow>
                  if ok_escaped (byte (16 * x + y))
                  then map_option ((#) (byte (16 * x + y))) (unescape ok_escaped ok_plain rest)
                  else None
              | _ \<Rightarrow> None)
         | _ \<Rightarrow> None)
      else if ok_plain c then map_option ((#) c) (unescape ok_escaped ok_plain cs) else None)"

definition unescape_path :: "string \<Rightarrow> string option" where
  "unescape_path = unescape (\<lambda>c. True) (\<lambda>c. True)"

text \<open>In a host only bytes outside ASCII may be escaped.\<close>

definition unescape_host :: "string \<Rightarrow> string option" where
  "unescape_host =
     unescape (\<lambda>c. 128 \<le> code c \<or> c = CHR ''%'') (\<lambda>c. 128 \<le> code c \<or> host_char c)"

section \<open>Parsing\<close>

record url =
  url_scheme :: string
  url_opaque :: string
  url_user :: bool
  url_host :: string
  url_raw_path :: string

text \<open>The scheme of a reference and the rest; \<open>None\<close> if the text starts with a colon.\<close>

fun scheme_length :: "nat \<Rightarrow> string \<Rightarrow> nat option option" where
  "scheme_length i [] = Some None"
| "scheme_length i (c # cs) =
     (if is_letter c then scheme_length (Suc i) cs
      else if is_digit c \<or> c \<in> set ''+-.'' then
        if i = 0 then Some None else scheme_length (Suc i) cs
      else if c = CHR '':'' then if i = 0 then None else Some (Some i)
      else Some None)"

definition get_scheme :: "string \<Rightarrow> (string \<times> string) option" where
  "get_scheme s =
     (case scheme_length 0 s of
        None \<Rightarrow> None
      | Some None \<Rightarrow> Some ([], s)
      | Some (Some i) \<Rightarrow> Some (take i s, drop (Suc i) s))"

definition lower :: "string \<Rightarrow> string" where
  "lower s = map (\<lambda>c. if 65 \<le> code c \<and> code c \<le> 90 then byte (code c + 32) else c) s"

definition valid_optional_port :: "string \<Rightarrow> bool" where
  "valid_optional_port s \<longleftrightarrow>
     (case s of [] \<Rightarrow> True | c # cs \<Rightarrow> c = CHR '':'' \<and> list_all is_digit cs)"

text \<open>A host in brackets must be an IPv6 address; any other has at most one colon.\<close>

definition parse_host :: "string \<Rightarrow> string option" where
  "parse_host host =
     (if take 1 host = ''['' then
        (case cut_last (CHR '']'') host of
           None \<Rightarrow> None
         | Some (inner, port) \<Rightarrow>
             if \<not> valid_optional_port port then None
             else (case unescape_host (fst (cut (CHR ''%'') (drop 1 inner))) of
                     None \<Rightarrow> None
                   | Some a \<Rightarrow> if parse_ipv6 a = None then None
                               else unescape_host host))
      else (case cut_last (CHR '':'') host of
              None \<Rightarrow> unescape_host host
            | Some (name, port) \<Rightarrow>
                if list_all is_digit port \<and> CHR '':'' \<notin> set name then unescape_host host
                else None))"

definition userinfo_char :: "char \<Rightarrow> bool" where
  "userinfo_char c \<longleftrightarrow> is_letter c \<or> is_digit c \<or> c \<in> set ''-._:~!$&()*+,;=%@'' \<or> code c = 39"

text \<open>Whether there is user information, and the host.\<close>

definition parse_authority :: "string \<Rightarrow> (bool \<times> string) option" where
  "parse_authority authority =
     (case cut_last (CHR ''@'') authority of
        None \<Rightarrow> map_option (Pair False) (parse_host authority)
      | Some (userinfo, host) \<Rightarrow>
          if list_all userinfo_char userinfo \<and> unescape_path userinfo \<noteq> None
          then map_option (Pair True) (parse_host host) else None)"

definition control_char :: "char \<Rightarrow> bool" where
  "control_char c \<longleftrightarrow> code c < 32 \<or> code c = 127"

definition empty_url :: url where
  "empty_url = \<lparr> url_scheme = [], url_opaque = [], url_user = False, url_host = [],
     url_raw_path = [] \<rparr>"

definition with_path :: "string \<Rightarrow> url \<Rightarrow> url option" where
  "with_path p u = (if unescape_path p = None then None else Some (u\<lparr>url_raw_path := p\<rparr>))"

definition parse_reference :: "string \<Rightarrow> url option" where
  "parse_reference s =
     (if list_ex control_char s then None
      else if s = ''*'' then Some (empty_url\<lparr>url_raw_path := s\<rparr>)
      else case get_scheme s of
             None \<Rightarrow> None
           | Some (scheme, after) \<Rightarrow>
               let u = empty_url\<lparr>url_scheme := lower scheme\<rparr>;
                   rest = fst (cut (CHR ''?'') after) in
               if take 1 rest \<noteq> ''/'' \<and> scheme \<noteq> [] then Some (u\<lparr>url_opaque := rest\<rparr>)
               else if take 1 rest \<noteq> ''/'' \<and> CHR '':'' \<in> set (fst (cut (CHR ''/'') rest)) then None
               else if (scheme \<noteq> [] \<or> take 3 rest \<noteq> ''///'') \<and> take 2 rest = ''//'' then
                 (let authority = takeWhile (\<lambda>c. c \<noteq> CHR ''/'') (drop 2 rest);
                      path = drop (length authority) (drop 2 rest) in
                  case parse_authority authority of
                    None \<Rightarrow> None
                  | Some (user, host) \<Rightarrow> with_path path (u\<lparr>url_user := user, url_host := host\<rparr>))
               else with_path rest u)"

text \<open>\<open>url.Parse\<close>: the fragment must be well escaped, too.\<close>

definition url_parse :: "string \<Rightarrow> url option" where
  "url_parse s =
     (case cut (CHR ''#'') s of (before, fragment, found) \<Rightarrow>
        (case parse_reference before of
           None \<Rightarrow> None
         | Some u \<Rightarrow> if unescape_path fragment = None then None else Some u))"

section \<open>Accessors\<close>

definition split_host_port :: "string \<Rightarrow> string \<times> string" where
  "split_host_port s =
     (let (host, port) = (case cut_last (CHR '':'') s of
                            Some (h, p) \<Rightarrow> if list_all is_digit p then (h, p) else (s, [])
                          | None \<Rightarrow> (s, [])) in
      (if take 1 host = ''['' \<and> host \<noteq> [] \<and> last host = CHR '']''
       then butlast (drop 1 host) else host, port))"

definition url_hostname :: "url \<Rightarrow> string" where
  "url_hostname u = fst (split_host_port (url_host u))"

definition url_port :: "url \<Rightarrow> string" where
  "url_port u = snd (split_host_port (url_host u))"

text \<open>\<open>EscapedPath\<close>: the path as written, if that is a valid encoding.\<close>

definition url_escaped_path :: "url \<Rightarrow> string" where
  "url_escaped_path u =
     (if list_all (\<lambda>c. path_char c \<or> c \<in> set ''!()*[]%'' \<or> code c = 39) (url_raw_path u)
      then url_raw_path u
      else case unescape_path (url_raw_path u) of
             None \<Rightarrow> url_raw_path u | Some p \<Rightarrow> path_escape p)"

section \<open>Query strings\<close>

definition encode_values :: "(string \<times> string) list \<Rightarrow> string" where
  "encode_values kvs =
     commas (CHR ''&'') (map (\<lambda>(k, v). query_escape k @ ''='' @ query_escape v) (sort_key fst kvs))"

section \<open>Parsing plain addresses\<close>

text \<open>The form of the addresses the code builds: a name and a port, a path, perhaps a query.\<close>

definition name_char :: "char \<Rightarrow> bool" where
  "name_char c \<longleftrightarrow> is_letter c \<or> is_digit c \<or> c \<in> set ''-.''"

definition plain_path :: "char \<Rightarrow> bool" where
  "plain_path c \<longleftrightarrow> unreserved c \<or> c = CHR ''/''"

definition plain_query :: "char \<Rightarrow> bool" where
  "plain_query c \<longleftrightarrow> plain_path c \<or> c \<in> set ''%+=&?''"

lemma plain_chars:
  "name_char c \<Longrightarrow> c \<notin> set ''/?#:@[%*''" "plain_path c \<Longrightarrow> c \<notin> set ''?#%:@[*''" "plain_query c \<Longrightarrow> c \<noteq> CHR ''#''"
  "is_digit c \<Longrightarrow> name_char c"
  "name_char c \<Longrightarrow> plain_path c" "plain_path c \<Longrightarrow> plain_query c" "plain_query c \<Longrightarrow> \<not> control_char c"
  "name_char c \<Longrightarrow> host_char c" "plain_path c \<Longrightarrow> path_char c"
  by (auto simp: name_char_def plain_path_def plain_query_def unreserved_def is_letter_def is_digit_def
      digit_value_def code_def control_char_def host_char_def path_char_def Let_def split: if_splits)

lemma unescape_plain:
  "list_all (\<lambda>c. c \<noteq> CHR ''%'' \<and> ok_plain c) s \<Longrightarrow> unescape ok_escaped ok_plain s = Some s"
  by (induction s) auto

lemma takeWhile_until:
  "sep \<notin> set s \<Longrightarrow> takeWhile (\<lambda>c. c \<noteq> sep) s = s"
  "sep \<notin> set s \<Longrightarrow> takeWhile (\<lambda>c. c \<noteq> sep) (s @ sep # t) = s"
  by (induction s) auto

lemma cut_none: "sep \<notin> set s \<Longrightarrow> cut sep s = (s, [], False)"
  by (simp add: cut_def takeWhile_until)

lemma cut_append: "sep \<notin> set s \<Longrightarrow> cut sep (s @ sep # t) = (s, t, True)"
  by (simp add: cut_def takeWhile_until)

lemma cut_last_none: "sep \<notin> set s \<Longrightarrow> cut_last sep s = None"
  by (simp add: cut_last_def cut_none)

lemma cut_last_append: "sep \<notin> set t \<Longrightarrow> cut_last sep (s @ sep # t) = Some (s, t)"
  by (simp add: cut_last_def cut_append)

lemma parse_authority_plain:
  assumes "list_all name_char h" "list_all is_digit port"
  shows "parse_authority (h @ CHR '':'' # port) = Some (False, h @ CHR '':'' # port)"
proof -
  have h: "\<forall>c \<in> set h. name_char c" and p: "\<forall>c \<in> set port. is_digit c \<and> name_char c"
    using assms plain_chars(4) by (auto simp: list_all_iff)
  have "CHR ''@'' \<notin> set (h @ CHR '':'' # port)" "CHR '':'' \<notin> set h" "CHR '':'' \<notin> set port"
    using h p plain_chars(1) by fastforce+
  moreover have "take 1 (h @ CHR '':'' # port) \<noteq> ''[''"
    using h plain_chars(1) by (cases h) fastforce+
  moreover have "unescape_host (h @ CHR '':'' # port) = Some (h @ CHR '':'' # port)"
    unfolding unescape_host_def
    by (rule unescape_plain) (use h p plain_chars(1,8) in \<open>fastforce simp: list_all_iff host_char_def\<close>)
  ultimately show ?thesis
    using assms(2) by (simp add: parse_authority_def parse_host_def cut_last_none cut_last_append)
qed

lemma url_parse_http:
  assumes "list_all name_char h" "list_all is_digit port" "list_all plain_path p"
    and "q = [] \<or> q = CHR ''?'' # qs \<and> list_all plain_query qs"
  shows "url_parse (''http://'' @ h @ '':'' @ port @ CHR ''/'' # p @ q) =
    Some (empty_url\<lparr>url_scheme := ''http'', url_host := h @ '':'' @ port, url_raw_path := CHR ''/'' # p\<rparr>)"
proof -
  let ?s = "''http://'' @ h @ '':'' @ port @ CHR ''/'' # p @ q"
  let ?rest = "''//'' @ h @ '':'' @ port @ CHR ''/'' # p"
  have h: "\<forall>c \<in> set h. name_char c" and d: "\<forall>c \<in> set port. name_char c"
    and p: "\<forall>c \<in> set p. plain_path c" and q: "\<forall>c \<in> set q. plain_query c"
    using assms plain_chars(4) by (auto simp: list_all_iff plain_query_def)
  have "\<forall>c \<in> set ''http://''. plain_query c \<or> c = CHR '':''"
    by (simp add: plain_query_def plain_path_def unreserved_def is_letter_def code_def)
  moreover have "plain_query c" if "c \<in> set h \<union> set port \<union> set p \<union> set q" for c
    using that h d p q plain_chars(5,6) by blast
  moreover have "plain_query (CHR ''/'')" by (simp add: plain_query_def plain_path_def)
  ultimately have plain: "plain_query c \<or> c = CHR '':''" if "c \<in> set ?s" for c
    using that by (simp only: set_append list.set Un_iff insert_iff empty_iff) blast
  have nohash: "CHR ''#'' \<notin> set ?s"
  proof
    assume "CHR ''#'' \<in> set ?s"
    from plain [OF this] plain_chars(3) [of "CHR ''#''"] show False by (simp del: append.simps)
  qed
  have "\<not> control_char (CHR '':'')" by (simp add: control_char_def code_def)
  then have nocontrol: "\<not> list_ex control_char ?s"
    using plain plain_chars(7) unfolding list_ex_iff by blast
  have "CHR ''?'' \<notin> set ?rest"
    using h d p plain_chars(1,2) by fastforce
  then have rest: "fst (cut (CHR ''?'') (''//'' @ h @ '':'' @ port @ CHR ''/'' # p @ q)) = ?rest"
    using assms(4) cut_none [of "CHR ''?''" ?rest] cut_append [of "CHR ''?''" ?rest qs] by auto
  have scheme: "get_scheme ?s = Some (''http'', ''//'' @ h @ '':'' @ port @ CHR ''/'' # p @ q)"
    by (simp add: get_scheme_def is_letter_def code_def is_digit_def digit_value_def)
  have authority: "takeWhile (\<lambda>c. c \<noteq> CHR ''/'') (h @ '':'' @ port @ CHR ''/'' # p) = h @ '':'' @ port"
    using h d plain_chars(1) by (subst takeWhile_append2) (fastforce simp: takeWhile_append2)+
  have path: "unescape_path (CHR ''/'' # p) = Some (CHR ''/'' # p)"
    unfolding unescape_path_def
    by (rule unescape_plain) (use p plain_chars(2) in \<open>fastforce simp: list_all_iff\<close>)
  have host: "parse_authority (h @ '':'' @ port) = Some (False, h @ '':'' @ port)"
    using parse_authority_plain [OF assms(1,2)] by simp
  have after: "drop (length (h @ '':'' @ port)) (h @ '':'' @ port @ CHR ''/'' # p) = CHR ''/'' # p"
    by simp
  have "drop 2 ?rest = h @ '':'' @ port @ CHR ''/'' # p" by simp
  note parts = rest authority this after host
  have "lower ''http'' = ''http''" by (simp add: lower_def code_def)
  then have "parse_reference ?s = Some (empty_url\<lparr>url_scheme := ''http'', url_host := h @ '':'' @ port,
      url_raw_path := CHR ''/'' # p\<rparr>)"
    unfolding parse_reference_def scheme Let_def option.case prod.case parts
    using nocontrol by (simp add: with_path_def path empty_url_def)
  then show ?thesis
    by (simp only: url_parse_def cut_none [OF nohash] prod.case option.case)
      (simp add: unescape_path_def)
qed

end
