(* ===== verification/Web_Calls.thy ===== *)
theory Web_Calls
  imports Json
begin

text \<open>
  The calls of the programs that talk HTTP: the provider client and the token helper.  As in
  \<open>Controller_Calls\<close>, code is a finite tree of calls, each with the rest of the code as a
  function of the answer; \<open>wsteps\<close> runs it against arbitrary answers, \<open>web_run\<close> against a
  concrete world.
\<close>

section \<open>Calls\<close>

record http_request =
  req_method :: string
  req_url :: string
  req_headers :: string_map
  req_body :: string

text \<open>Of the headers only \<open>Retry-After\<close> is read.  Reading the body may fail.\<close>

record http_response =
  resp_status :: int
  resp_retry_after :: string
  resp_body :: "go_error + string"

text \<open>
  \<open>Send\<close> is one \<open>Client.Do\<close> of \<open>net/http\<close> with the answer it returns.  What that call does within
  is the library's: a redirect it follows by itself (after 307 and 308 with method and body) is
  part of the same \<open>Send\<close>.  \<open>After d\<close> is the choice between \<open>ctx.Done()\<close>, answered with the error of the context, and
  \<open>time.After(d)\<close>; \<open>SleepFor\<close> is \<open>time.Sleep\<close>.
\<close>

datatype 'a web =
  Done 'a
| Clock "time \<Rightarrow> 'a web"
| Send http_request "go_error + http_response \<Rightarrow> 'a web"
| After duration "go_error option \<Rightarrow> 'a web"
| SleepFor duration "'a web"
| Getenv string "string \<Rightarrow> 'a web"

datatype web_event =
  WClock time
| WSend http_request "go_error + http_response"
| WAfter duration "go_error option"
| WSleep duration
| WGetenv string string

section \<open>Steps\<close>

inductive wstep :: "'a web \<Rightarrow> web_event \<Rightarrow> 'a web \<Rightarrow> bool" where
  "wstep (Clock k) (WClock t) (k t)"
| "wstep (Send q k) (WSend q r) (k r)"
| "wstep (After d k) (WAfter d e) (k e)"
| "wstep (SleepFor d p) (WSleep d) p"
| "wstep (Getenv n k) (WGetenv n v) (k v)"

inductive wsteps :: "'a web \<Rightarrow> web_event list \<Rightarrow> 'a web \<Rightarrow> bool" where
  wnone: "wsteps p [] p"
| wmore: "wstep p e p' \<Longrightarrow> wsteps p' es p'' \<Longrightarrow> wsteps p (e # es) p''"

inductive_simps wstep_simps:
  "wstep (Done x) e q" "wstep (Clock k) e q" "wstep (Send r ks) e q" "wstep (After d ka) e q"
  "wstep (SleepFor d p) e q" "wstep (Getenv n kg) e q"
inductive_simps wsteps_simps: "wsteps p [] q" "wsteps p (e # es) q"

text \<open>Complete executions, call by call.\<close>

lemma wsteps_Done: "wsteps (Done x) es (Done y) \<longleftrightarrow> es = [] \<and> y = x"
  by (cases es) (auto simp: wsteps_simps wstep_simps)

lemma wsteps_Clock:
  "wsteps (Clock k) es (Done y) \<longleftrightarrow> (\<exists>t es'. es = WClock t # es' \<and> wsteps (k t) es' (Done y))"
  by (cases es) (auto simp: wsteps_simps wstep_simps)

lemma wsteps_Send:
  "wsteps (Send q k) es (Done y) \<longleftrightarrow>
     (\<exists>r es'. es = WSend q r # es' \<and> wsteps (k r) es' (Done y))"
  by (cases es) (auto simp: wsteps_simps wstep_simps)

lemma wsteps_After:
  "wsteps (After d k) es (Done y) \<longleftrightarrow>
     (\<exists>e es'. es = WAfter d e # es' \<and> wsteps (k e) es' (Done y))"
  by (cases es) (auto simp: wsteps_simps wstep_simps)

lemma wsteps_SleepFor:
  "wsteps (SleepFor d p) es (Done y) \<longleftrightarrow> (\<exists>es'. es = WSleep d # es' \<and> wsteps p es' (Done y))"
  by (cases es) (auto simp: wsteps_simps wstep_simps)

lemma wsteps_Getenv:
  "wsteps (Getenv n k) es (Done y) \<longleftrightarrow>
     (\<exists>v es'. es = WGetenv n v # es' \<and> wsteps (k v) es' (Done y))"
  by (cases es) (auto simp: wsteps_simps wstep_simps)

lemmas wsteps_complete = wsteps_Done wsteps_Clock wsteps_Send wsteps_After wsteps_SleepFor
  wsteps_Getenv

text \<open>
  What every complete execution ends with: \<open>Q\<close> of the calls made and the result.
\<close>

primrec wpost :: "(web_event list \<Rightarrow> 'a \<Rightarrow> bool) \<Rightarrow> web_event list \<Rightarrow> 'a web \<Rightarrow> bool" where
  "wpost Q tr (Done x) \<longleftrightarrow> Q tr x"
| "wpost Q tr (Clock k) \<longleftrightarrow> (\<forall>t. wpost Q (tr @ [WClock t]) (k t))"
| "wpost Q tr (Send q k) \<longleftrightarrow> (\<forall>r. wpost Q (tr @ [WSend q r]) (k r))"
| "wpost Q tr (After d k) \<longleftrightarrow> (\<forall>e. wpost Q (tr @ [WAfter d e]) (k e))"
| "wpost Q tr (SleepFor d p) \<longleftrightarrow> wpost Q (tr @ [WSleep d]) p"
| "wpost Q tr (Getenv n k) \<longleftrightarrow> (\<forall>v. wpost Q (tr @ [WGetenv n v]) (k v))"

lemma wpost_wsteps:
  "wsteps p es (Done y) \<Longrightarrow> wpost Q tr p \<Longrightarrow> Q (tr @ es) y"
proof (induction p arbitrary: es tr)
  case (Send q k)
  then show ?case by (fastforce simp: wsteps_complete)
next
  case (After d k)
  then show ?case by (fastforce simp: wsteps_complete)
qed (fastforce simp: wsteps_complete)+

lemma wpost_result: "wpost Q [] p \<Longrightarrow> wsteps p es (Done y) \<Longrightarrow> Q es y"
  using wpost_wsteps [of p es y Q "[]"] by simp

section \<open>Runs\<close>

text \<open>A world: a server, a clock, and the environment variables of the process.\<close>

record 'w world =
  world_now :: "'w \<Rightarrow> time"
  world_serve :: "http_request \<Rightarrow> 'w \<Rightarrow> (go_error + http_response) \<times> 'w"
  world_after :: "duration \<Rightarrow> 'w \<Rightarrow> go_error option \<times> 'w"
  world_sleep :: "duration \<Rightarrow> 'w \<Rightarrow> 'w"
  world_getenv :: "string \<Rightarrow> string"

primrec web_run :: "'w world \<Rightarrow> 'a web \<Rightarrow> 'w \<Rightarrow> 'a \<times> 'w" where
  "web_run W (Done x) w = (x, w)"
| "web_run W (Clock k) w = web_run W (k (world_now W w)) w"
| "web_run W (Send q k) w = (case world_serve W q w of (r, w') \<Rightarrow> web_run W (k r) w')"
| "web_run W (After d k) w = (case world_after W d w of (e, w') \<Rightarrow> web_run W (k e) w')"
| "web_run W (SleepFor d p) w = web_run W p (world_sleep W d w)"
| "web_run W (Getenv n k) w = web_run W (k (world_getenv W n)) w"

text \<open>The calls a run makes.\<close>

primrec web_log :: "'w world \<Rightarrow> 'a web \<Rightarrow> 'w \<Rightarrow> web_event list" where
  "web_log W (Done x) w = []"
| "web_log W (Clock k) w = WClock (world_now W w) # web_log W (k (world_now W w)) w"
| "web_log W (Send q k) w =
     (case world_serve W q w of (r, w') \<Rightarrow> WSend q r # web_log W (k r) w')"
| "web_log W (After d k) w =
     (case world_after W d w of (e, w') \<Rightarrow> WAfter d e # web_log W (k e) w')"
| "web_log W (SleepFor d p) w = WSleep d # web_log W p (world_sleep W d w)"
| "web_log W (Getenv n k) w = WGetenv n (world_getenv W n) # web_log W (k (world_getenv W n)) w"

lemma web_run_steps: "wsteps p (web_log W p w) (Done (fst (web_run W p w)))"
  by (induction p arbitrary: w) (auto intro: wsteps.intros wstep.intros split: prod.split)

end
