(* ===== verification/Netcup_Client.thy ===== *)
theory Netcup_Client
  imports Url Web_Calls
begin

text \<open>
  The provider client (\<open>internal/netcup/client.go\<close>): the access token and its cache, the
  authenticated request, finding and routing a failover IP, and polling the routing task.
  \<open>http.ParseTime\<close> is the argument \<open>http_time\<close>; the texts of parse errors are not modelled.
\<close>

section \<open>Errors\<close>

definition classifyHTTPError :: "int \<Rightarrow> provider_error" where
  "classifyHTTPError status =
     (let class = (if status = 401 \<or> status = 403 then ErrorClassAuth
                   else if status = 429 then ErrorClassRateLimited
                   else if status \<ge> 500 then ErrorClassTransient
                   else if status \<ge> 400 then ErrorClassValidation
                   else ErrorClassTerminal)
      in \<lparr> pe_class = class, pe_status_code = status, pe_retry_after = 0,
           pe_message = ''provider request failed with HTTP '' @ itoa status \<rparr>)"

definition parseRetryAfter ::
  "(string \<Rightarrow> time option) \<Rightarrow> string \<Rightarrow> time \<Rightarrow> duration" where
  "parseRetryAfter http_time v now =
     (let by_date = (case http_time v of
                       Some t \<Rightarrow> if t > now then time_sub t now else 0
                     | None \<Rightarrow> 0)
      in case atoi (trim_space v) of
           Some s \<Rightarrow> if s \<ge> 0 then seconds s else by_date
         | None \<Rightarrow> by_date)"

text \<open>The error of an unexpected status: its class, and how long the provider wants to be left alone.\<close>

definition status_error ::
  "(string \<Rightarrow> time option) \<Rightarrow> http_response \<Rightarrow> time \<Rightarrow> go_error" where
  "status_error http_time resp now =
     ProviderError ((classifyHTTPError (resp_status resp))\<lparr>
       pe_retry_after := parseRetryAfter http_time (resp_retry_after resp) now\<rparr>)"

section \<open>The client\<close>

definition scpBase_default :: string where
  "scpBase_default = ''https://www.servercontrolpanel.de/scp-core''"

definition tokenURL_default :: string where
  "tokenURL_default =
     ''https://www.servercontrolpanel.de/realms/scp/protocol/openid-connect/token''"

definition clientID :: string where "clientID = ''scp''"

record client =
  client_user_id :: int
  client_refresh_token :: string
  client_scp_base :: string
  client_token_url :: string
  access_token :: string
  token_expiry :: time

definition New :: "int \<Rightarrow> string \<Rightarrow> client" where
  "New userID refreshToken =
     \<lparr> client_user_id = userID, client_refresh_token = refreshToken,
       client_scp_base = scpBase_default, client_token_url = tokenURL_default,
       access_token = [], token_expiry = zero_time \<rparr>"

definition trim_slashes :: "string \<Rightarrow> string" where
  "trim_slashes s = rev (dropWhile (\<lambda>c. c = CHR ''/'') (rev s))"

definition NewFromEnvironment :: "int \<Rightarrow> string \<Rightarrow> (client \<Rightarrow> 'a web) \<Rightarrow> 'a web" where
  "NewFromEnvironment userID refreshToken k =
     (let c = New userID refreshToken in
      Getenv ''NETCUP_API_BASE_URL'' (\<lambda>base.
        let endpoint = trim_slashes base in
        if endpoint \<noteq> '''' then
          Getenv ''NETCUP_TOKEN_URL'' (\<lambda>tok.
            let tokenEndpoint = trim_slashes tok in
            k (c\<lparr>client_scp_base := endpoint,
                 client_token_url := (if tokenEndpoint \<noteq> '''' then tokenEndpoint
                                      else endpoint @ ''/token'')\<rparr>))
        else k c))"

section \<open>Requests\<close>

text \<open>\<open>http.NewRequestWithContext\<close> fails on a URL that does not parse.\<close>

definition url_error :: go_error where
  "url_error = GoError ''parse: invalid URL''"

definition new_request :: "http_request \<Rightarrow> go_error + http_request" where
  "new_request q = (if url_parse (req_url q) = None then Inl url_error else Inr q)"

record token_response =
  tr_access_token :: string
  tr_expires_in :: int

definition store_token_response :: "token_response store" where
  "store_token_response = store_struct
     [(''access_token'', in_field tr_access_token (\<lambda>x r. r\<lparr>tr_access_token := x\<rparr>) store_string),
      (''expires_in'', in_field tr_expires_in (\<lambda>x r. r\<lparr>tr_expires_in := x\<rparr>) store_int)]"

definition token_request :: "client \<Rightarrow> http_request" where
  "token_request c =
     \<lparr> req_method = ''POST'', req_url = client_token_url c,
       req_headers = [(''Content-Type'', ''application/x-www-form-urlencoded'')],
       req_body = encode_values [(''grant_type'', ''refresh_token''),
                    (''refresh_token'', client_refresh_token c), (''client_id'', clientID)] \<rparr>"

definition token ::
  "(string \<Rightarrow> time option) \<Rightarrow> client \<Rightarrow> (client \<Rightarrow> go_error + string \<Rightarrow> 'a web) \<Rightarrow> 'a web" where
  "token http_time c k =
     Clock (\<lambda>now.
       if now < token_expiry c then k c (Inr (access_token c))
       else case new_request (token_request c) of
         Inl e \<Rightarrow> k c (Inl e)
       | Inr q \<Rightarrow>
           Send q (\<lambda>r. case r of
             Inl e \<Rightarrow> k c (Inl (Wrapped ''refreshing SCP token: '' e))
           | Inr resp \<Rightarrow>
               (case resp_body resp of
                  Inl e \<Rightarrow> k c (Inl (Wrapped ''reading token response: '' e))
                | Inr data \<Rightarrow>
                    if resp_status resp div 100 \<noteq> 2 then
                      Clock (\<lambda>t. k c (Inl (ProviderError ((classifyHTTPError (resp_status resp))\<lparr>
                        pe_message := ''SCP token refresh failed with HTTP '' @ itoa (resp_status resp),
                        pe_retry_after := parseRetryAfter http_time (resp_retry_after resp) t\<rparr>))))
                    else
                      (case decoded store_token_response data
                              \<lparr> tr_access_token = [], tr_expires_in = 0 \<rparr> of
                         Inl e \<Rightarrow> k c (Inl (Wrapped ''parsing token response: '' e))
                       | Inr tr \<Rightarrow>
                           Clock (\<lambda>t.
                             let c' = c\<lparr>access_token := tr_access_token tr,
                                        token_expiry := t + seconds (wrap64 (tr_expires_in tr - 30))\<rparr>
                             in k c' (Inr (access_token c')))))))"

definition api_request :: "client \<Rightarrow> string \<Rightarrow> string \<Rightarrow> string \<Rightarrow> string option \<Rightarrow> http_request" where
  "api_request c tok meth path body =
     \<lparr> req_method = meth, req_url = client_scp_base c @ path,
       req_headers = [(''Authorization'', ''Bearer '' @ tok), (''Accept'', ''application/json'')]
         @ (if body = None then [] else [(''Content-Type'', ''application/json'')]),
       req_body = (case body of None \<Rightarrow> [] | Some b \<Rightarrow> b) \<rparr>"

text \<open>
  The method \<open>do\<close>: the body, the status and the header of the response.  The continuation gets
  the response with its body read.
\<close>

definition do_request ::
  "(string \<Rightarrow> time option) \<Rightarrow> client \<Rightarrow> string \<Rightarrow> string \<Rightarrow> string option
     \<Rightarrow> (client \<Rightarrow> go_error + string \<times> http_response \<Rightarrow> 'a web) \<Rightarrow> 'a web" where
  "do_request http_time c meth path body k =
     token http_time c (\<lambda>c' t. case t of
       Inl e \<Rightarrow> k c' (Inl e)
     | Inr tok \<Rightarrow>
         (case new_request (api_request c' tok meth path body) of
            Inl e \<Rightarrow> k c' (Inl e)
          | Inr q \<Rightarrow>
              Send q (\<lambda>r. case r of
                Inl e \<Rightarrow> k c' (Inl (Wrapped (''SCP '' @ meth @ '' '' @ path @ '': '') e))
              | Inr resp \<Rightarrow>
                  (case resp_body resp of
                     Inl e \<Rightarrow> k c' (Inl (Wrapped ''reading SCP response: '' e))
                   | Inr data \<Rightarrow> k c' (Inr (data, resp))))))"

section \<open>Failover IPs\<close>

record failover_ipv4 =
  fi_id :: int
  fi_server :: "int option"

definition store_failover_ipv4 :: "failover_ipv4 store" where
  "store_failover_ipv4 = store_struct
     [(''id'', in_field fi_id (\<lambda>x r. r\<lparr>fi_id := x\<rparr>) store_int),
      (''server'', in_field fi_server (\<lambda>x r. r\<lparr>fi_server := x\<rparr>)
         (store_pointer 0 (store_struct [(''id'', store_int)])))]"

definition store_failover_ips :: "failover_ipv4 list store" where
  "store_failover_ips = store_slice \<lparr> fi_id = 0, fi_server = None \<rparr> store_failover_ipv4"

definition find_path :: "client \<Rightarrow> string \<Rightarrow> string" where
  "find_path c ip =
     ''/api/v1/users/'' @ itoa (client_user_id c) @ ''/failoverips/v4?ip='' @ query_escape ip"

text \<open>What \<open>FindFailoverIP\<close> makes of the body of a successful response.\<close>

definition found_ip :: "string \<Rightarrow> string \<Rightarrow> go_error + int \<times> int" where
  "found_ip ip data =
     (case decoded store_failover_ips data [] of
        Inl e \<Rightarrow> Inl (Wrapped ''parsing failover IPs: '' e)
      | Inr ips \<Rightarrow>
          (case ips of
             [] \<Rightarrow> Inl (GoError (''failover IP '' @ ip @ '' not found in netcup account''))
           | fi # _ \<Rightarrow>
               Inr (fi_id fi, case fi_server fi of None \<Rightarrow> 0 | Some serverID \<Rightarrow> serverID)))"

definition client_FindFailoverIP ::
  "(string \<Rightarrow> time option) \<Rightarrow> client \<Rightarrow> string \<Rightarrow> (client \<Rightarrow> go_error + int \<times> int \<Rightarrow> 'a web) \<Rightarrow> 'a web"
where
  "client_FindFailoverIP http_time c ip k =
     do_request http_time c ''GET'' (find_path c ip) None (\<lambda>c' r. case r of
       Inl e \<Rightarrow> k c' (Inl e)
     | Inr (data, resp) \<Rightarrow>
         if resp_status resp \<noteq> 200 then
           Clock (\<lambda>t. k c' (Inl (status_error http_time resp t)))
         else k c' (found_ip ip data))"

section \<open>Routing\<close>

record task_state =
  task_state_name :: string
  task_message :: string

definition store_task_state :: "task_state store" where
  "store_task_state = store_struct
     [(''state'', in_field task_state_name (\<lambda>x r. r\<lparr>task_state_name := x\<rparr>) store_string),
      (''message'', in_field task_message (\<lambda>x r. r\<lparr>task_message := x\<rparr>) store_string)]"

definition failed_states :: "string list" where
  "failed_states = [''ERROR'', ''CANCELED'', ''ROLLBACK'', ''WAITING_FOR_CANCEL'']"

definition task_path :: "string \<Rightarrow> string" where
  "task_path uuid = ''/api/v1/tasks/'' @ uuid"

text \<open>One answer to a poll: the loop returns, with or without an error, or polls again.\<close>

definition judge_task :: "string \<times> http_response \<Rightarrow> go_error option option" where
  "judge_task d =
     (let (data, resp) = d in
      if resp_status resp \<noteq> 200 then
        Some (Some (GoError (''get task HTTP '' @ itoa (resp_status resp) @ '': '' @ data)))
      else case decoded store_task_state data \<lparr> task_state_name = [], task_message = [] \<rparr> of
             Inl e \<Rightarrow> Some (Some (Wrapped ''parsing task: '' e))
           | Inr task \<Rightarrow>
               if task_state_name task = ''FINISHED'' then Some None
               else if task_state_name task \<in> set failed_states then
                 Some (Some (GoError (if task_message task \<noteq> ''''
                   then ''routing task '' @ task_state_name task @ '': '' @ task_message task
                   else ''routing task ended with state '' @ task_state_name task)))
               else None)"

text \<open>
  The loop \<open>for\<close> has no bound; \<open>n\<close> bounds the polls of the model, and \<open>None\<close> says that the loop
  is still running after them.
\<close>

fun waitForTask ::
  "(string \<Rightarrow> time option) \<Rightarrow> nat \<Rightarrow> client \<Rightarrow> string
     \<Rightarrow> (client \<Rightarrow> go_error option option \<Rightarrow> 'a web) \<Rightarrow> 'a web" where
  "waitForTask http_time 0 c uuid k = k c None"
| "waitForTask http_time (Suc n) c uuid k =
     After (2 * second) (\<lambda>ctx. case ctx of
       Some e \<Rightarrow> k c (Some (Some e))
     | None \<Rightarrow>
         do_request http_time c ''GET'' (task_path uuid) None (\<lambda>c' r. case r of
           Inl e \<Rightarrow> k c' (Some (Some e))
         | Inr d \<Rightarrow>
             (case judge_task d of
                Some res \<Rightarrow> k c' (Some res)
              | None \<Rightarrow> waitForTask http_time n c' uuid k)))"

definition store_uuid :: "string store" where
  "store_uuid = store_struct [(''uuid'', store_string)]"

definition route_path :: "client \<Rightarrow> int \<Rightarrow> string" where
  "route_path c foipID =
     ''/api/v1/users/'' @ itoa (client_user_id c) @ ''/failoverips/v4/'' @ itoa foipID"

definition route_body :: "int \<Rightarrow> string" where
  "route_body targetServerID = ''{'' @ [byte 34] @ ''serverId'' @ [byte 34] @ '':'' @ itoa targetServerID @ ''}''"

definition client_RouteFailoverIP ::
  "(string \<Rightarrow> time option) \<Rightarrow> nat \<Rightarrow> client \<Rightarrow> int \<Rightarrow> int
     \<Rightarrow> (client \<Rightarrow> go_error option option \<Rightarrow> 'a web) \<Rightarrow> 'a web" where
  "client_RouteFailoverIP http_time n c foipID targetServerID k =
     do_request http_time c ''PATCH'' (route_path c foipID) (Some (route_body targetServerID))
       (\<lambda>c' r. case r of
          Inl e \<Rightarrow> k c' (Some (Some e))
        | Inr (data, resp) \<Rightarrow>
            if resp_status resp \<noteq> 202 then
              Clock (\<lambda>t. k c' (Some (Some (status_error http_time resp t))))
            else
              (case decoded store_uuid data [] of
                 Inl e \<Rightarrow> k c' (Some (Some (Wrapped ''parsing routing task response: '' e)))
               | Inr uuid \<Rightarrow> waitForTask http_time n c' uuid k))"

section \<open>Executions of a request\<close>

text \<open>How often a method was sent.\<close>

fun sent :: "string \<Rightarrow> web_event list \<Rightarrow> nat" where
  "sent m [] = 0"
| "sent m (WSend q r # es) = (if req_method q = m then 1 else 0) + sent m es"
| "sent m (e # es) = sent m es"

lemma sent_append [simp]: "sent m (xs @ ys) = sent m xs + sent m ys"
  by (induction m xs rule: sent.induct) simp_all

text \<open>The last call is this request of the client, and \<open>d\<close> the body and the answer.\<close>

definition answered ::
  "client \<Rightarrow> string \<Rightarrow> string \<Rightarrow> string option \<Rightarrow> web_event list \<Rightarrow> string \<times> http_response \<Rightarrow> bool"
where
  "answered c meth path body es d \<longleftrightarrow>
     resp_body (snd d) = Inr (fst d)
     \<and> (\<exists>es' tok c'. es = es' @ [WSend (api_request c' tok meth path body) (Inr (snd d))]
          \<and> client_scp_base c' = client_scp_base c)"

lemma answered_later: "answered c meth path body es d \<Longrightarrow> answered c meth path body (es0 @ es) d"
  unfolding answered_def by (metis append.assoc)

text \<open>
  The calls of one \<open>do\<close>: at most one request with its method, besides the one POST for a token;
  when it succeeds, that request was the last call.
\<close>

definition exchange ::
  "client \<Rightarrow> string \<Rightarrow> string \<Rightarrow> string option \<Rightarrow> web_event list \<Rightarrow> go_error + string \<times> http_response \<Rightarrow> bool"
where
  "exchange c meth path body es r \<longleftrightarrow>
     (\<forall>m. m \<noteq> meth \<longrightarrow> m \<noteq> ''POST'' \<longrightarrow> sent m es = 0)
     \<and> (meth \<noteq> ''POST'' \<longrightarrow> sent meth es \<le> 1)
     \<and> (\<forall>d. r = Inr d \<longrightarrow>
          (meth \<noteq> ''POST'' \<longrightarrow> sent meth es = 1) \<and> answered c meth path body es d)"

lemma exchange_simps:
  assumes "exchange c meth path body es r" "meth \<noteq> ''POST''"
  shows "m \<noteq> meth \<Longrightarrow> m \<noteq> ''POST'' \<Longrightarrow> sent m es = 0" "sent meth es \<le> 1"
    "r = Inr d \<Longrightarrow> sent meth es = 1" "r = Inr d \<Longrightarrow> answered c meth path body es d"
  using assms by (simp_all add: exchange_def)

text \<open>A client that differs in its cached token only.\<close>

definition same_client :: "client \<Rightarrow> client \<Rightarrow> bool" where
  "same_client c c' \<longleftrightarrow>
     c'\<lparr>access_token := access_token c, token_expiry := token_expiry c\<rparr> = c"

lemma same_client_refl [simp]: "same_client c c"
  by (simp add: same_client_def)

lemma same_client_token [simp]: "same_client c (c\<lparr>access_token := a, token_expiry := t\<rparr>)"
  by (simp add: same_client_def)

lemma same_clientD:
  assumes "same_client c c'"
  shows "client_scp_base c' = client_scp_base c" "client_user_id c' = client_user_id c"
    "client_token_url c' = client_token_url c"
    "client_refresh_token c' = client_refresh_token c"
  using arg_cong [OF assms [unfolded same_client_def], of client_scp_base]
    arg_cong [OF assms [unfolded same_client_def], of client_user_id]
    arg_cong [OF assms [unfolded same_client_def], of client_token_url]
    arg_cong [OF assms [unfolded same_client_def], of client_refresh_token]
  by simp_all

lemma same_client_trans: "same_client a b \<Longrightarrow> same_client b c \<Longrightarrow> same_client a c"
  by (cases a; cases b; cases c) (simp add: same_client_def)

lemma new_request_Inr [simp]: "new_request q = Inr q' \<longleftrightarrow> q' = q \<and> url_parse (req_url q) \<noteq> None"
  by (auto simp: new_request_def)

text \<open>The token: from the cache without any request, or with one POST.\<close>

lemma wpost_token:
  assumes "\<And>c' r es. same_client c c' \<Longrightarrow> \<forall>m. m \<noteq> ''POST'' \<longrightarrow> sent m es = 0 \<Longrightarrow>
      wpost Q (tr @ es) (k c' r)"
  shows "wpost Q tr (token ht c k)"
  unfolding token_def
  by (auto simp: Let_def token_request_def split: sum.split intro!: assms)

lemma wpost_do:
  assumes "\<And>c' r es. same_client c c' \<Longrightarrow> exchange c meth path body es r \<Longrightarrow>
      wpost Q (tr @ es) (k c' r)"
  shows "wpost Q tr (do_request ht c meth path body k)"
  unfolding do_request_def
proof (rule wpost_token)
  fix c' r es
  assume c: "same_client c c'" and quiet: "\<forall>m. m \<noteq> ''POST'' \<longrightarrow> sent m es = 0"
  have step: "wpost Q (tr @ es @ es') (k c' x)" if "exchange c meth path body (es @ es') x" for es' x
    using assms [OF c that] by simp
  show "wpost Q (tr @ es) (case r of Inl e \<Rightarrow> k c' (Inl e) | Inr tok \<Rightarrow>
      (case new_request (api_request c' tok meth path body) of
        Inl e \<Rightarrow> k c' (Inl e)
      | Inr q \<Rightarrow> Send q (\<lambda>r. case r of
          Inl e \<Rightarrow> k c' (Inl (Wrapped (''SCP '' @ meth @ '' '' @ path @ '': '') e))
        | Inr resp \<Rightarrow> (case resp_body resp of
            Inl e \<Rightarrow> k c' (Inl (Wrapped ''reading SCP response: '' e))
          | Inr data \<Rightarrow> k c' (Inr (data, resp))))))"
    using same_clientD [OF c] quiet step [of "[]"]
    by (auto simp: exchange_def answered_def api_request_def split: sum.split intro!: step)
qed

section \<open>Executions of the polling loop\<close>

text \<open>The polls of a loop whose wait ended by the timer.\<close>

fun polls :: "web_event list \<Rightarrow> nat" where
  "polls [] = 0"
| "polls (WAfter d None # es) = Suc (polls es)"
| "polls (e # es) = polls es"

lemma polls_append [simp]: "polls (xs @ ys) = polls xs + polls ys"
  by (induction xs rule: polls.induct) simp_all

text \<open>The last call is a poll of the task that was answered with the state \<open>FINISHED\<close>.\<close>

definition finished_by :: "client \<Rightarrow> string \<Rightarrow> web_event list \<Rightarrow> bool" where
  "finished_by c uuid es \<longleftrightarrow>
     (\<exists>data resp task. answered c ''GET'' (task_path uuid) None es (data, resp)
        \<and> resp_status resp = 200
        \<and> decoded store_task_state data \<lparr> task_state_name = [], task_message = [] \<rparr> = Inr task
        \<and> task_state_name task = ''FINISHED'')"

lemma finished_by_later: "finished_by c uuid es \<Longrightarrow> finished_by c uuid (es0 @ es)"
  unfolding finished_by_def by (blast intro: answered_later)

lemma finished_by_same: "same_client c c' \<Longrightarrow> finished_by c' uuid es \<Longrightarrow> finished_by c uuid es"
  by (simp add: finished_by_def answered_def same_clientD(1) [of c c'])

lemma judge_finished:
  "judge_task (data, resp) = Some None \<longleftrightarrow> resp_status resp = 200
     \<and> (\<exists>task. decoded store_task_state data \<lparr> task_state_name = [], task_message = [] \<rparr> = Inr task
          \<and> task_state_name task = ''FINISHED'')"
  by (auto simp: judge_task_def split: sum.split)

lemma exchange_finished:
  assumes "exchange c ''GET'' (task_path uuid) None es (Inr d)" and "judge_task d = Some None"
  shows "finished_by c uuid es"
  using exchange_simps(4) [OF assms(1) _ refl] assms(2)
  by (cases d) (auto simp: judge_finished finished_by_def)

lemma wpost_wait:
  assumes "\<And>c' res es. same_client c c' \<Longrightarrow> sent ''PATCH'' es = 0 \<Longrightarrow>
      (res = Some None \<Longrightarrow> finished_by c uuid es) \<Longrightarrow> wpost Q (tr @ es) (k c' res)"
  shows "wpost Q tr (waitForTask ht n c uuid k)"
  using assms
proof (induction n arbitrary: c tr)
  case 0
  then show ?case using 0 [of c "[]" None] by simp
next
  case (Suc n)
  have stop: "wpost Q (tr @ es) (k c' res)"
    if "same_client c c'" "sent ''PATCH'' es = 0" "res = Some None \<Longrightarrow> finished_by c uuid es" for c' es res
    using Suc.prems that by simp
  have "wpost Q ((tr @ [WAfter (2 * second) None])) (do_request ht c ''GET'' (task_path uuid) None
      (\<lambda>c' r. case r of Inl e \<Rightarrow> k c' (Some (Some e)) | Inr d \<Rightarrow>
         (case judge_task d of Some res \<Rightarrow> k c' (Some res) | None \<Rightarrow> waitForTask ht n c' uuid k)))"
  proof (rule wpost_do)
    fix c' r es
    assume c: "same_client c c'" and ex: "exchange c ''GET'' (task_path uuid) None es r"
    have quiet: "sent ''PATCH'' (WAfter (2 * second) None # es) = 0"
      using ex by (simp add: exchange_def)
    show "wpost Q ((tr @ [WAfter (2 * second) None]) @ es) (case r of Inl e \<Rightarrow> k c' (Some (Some e)) | Inr d \<Rightarrow>
         (case judge_task d of Some res \<Rightarrow> k c' (Some res) | None \<Rightarrow> waitForTask ht n c' uuid k))"
    proof (cases r)
      case (Inl e)
      then show ?thesis using stop [OF c quiet, of "Some (Some e)"] by simp
    next
      case (Inr d)
      show ?thesis
      proof (cases "judge_task d")
        case None
        have "wpost Q ((tr @ [WAfter (2 * second) None]) @ es) (waitForTask ht n c' uuid k)"
        proof (rule Suc.IH)
          fix c'' es' and res :: "go_error option option"
          assume "same_client c' c''" "sent ''PATCH'' es' = 0" "res = Some None \<Longrightarrow> finished_by c' uuid es'"
          with c quiet show "wpost Q (((tr @ [WAfter (2 * second) None]) @ es) @ es') (k c'' res)"
            using stop [of c'' "WAfter (2 * second) None # es @ es'" res]
              finished_by_later [of c uuid es' "WAfter (2 * second) None # es"]
            by (auto intro: same_client_trans dest: finished_by_same)
        qed
        then show ?thesis using Inr None by simp
      next
        case (Some res)
        then show ?thesis
          using stop [OF c quiet, of "Some res"] ex Inr exchange_finished [of c uuid es d]
            finished_by_later [of c uuid es "[WAfter (2 * second) None]"] by simp
      qed
    qed
  qed
  moreover have "wpost Q (tr @ [WAfter (2 * second) (Some e)]) (k c (Some (Some e)))" for e
    using stop [of c "[WAfter (2 * second) (Some e)]" "Some (Some e)"] by simp
  ultimately show ?case by (simp split: option.split)
qed

text \<open>The last call is a route request, accepted with the identity of its task.\<close>

definition accepted_by :: "client \<Rightarrow> int \<Rightarrow> int \<Rightarrow> web_event list \<Rightarrow> string \<Rightarrow> bool" where
  "accepted_by c foipID sid es uuid \<longleftrightarrow>
     (\<exists>data resp. answered c ''PATCH'' (route_path c foipID) (Some (route_body sid)) es (data, resp)
        \<and> resp_status resp = 202 \<and> decoded store_uuid data [] = Inr uuid)"

lemma wpost_route:
  assumes "\<And>c' res es. sent ''PATCH'' es \<le> 1 \<Longrightarrow>
      (res = Some None \<Longrightarrow> sent ''PATCH'' es = 1
         \<and> (\<exists>es1 uuid es2. es = es1 @ es2 \<and> accepted_by c foipID sid es1 uuid \<and> finished_by c uuid es2))
      \<Longrightarrow> wpost Q (tr @ es) (k c' res)"
  shows "wpost Q tr (client_RouteFailoverIP ht n c foipID sid k)"
  unfolding client_RouteFailoverIP_def
proof (rule wpost_do)
  fix c' r es
  assume c: "same_client c c'"
    and ex: "exchange c ''PATCH'' (route_path c foipID) (Some (route_body sid)) es r"
  have failed: "wpost Q ((tr @ es) @ es') (k c' (Some (Some e)))" if "sent ''PATCH'' es' = 0" for es' e
    using assms [of "es @ es'" "Some (Some e)" c'] ex that by (simp add: exchange_def)
  have wait: "wpost Q (tr @ es) (waitForTask ht n c' uuid k)"
    if "accepted_by c foipID sid es uuid" "sent ''PATCH'' es = 1" for uuid
  proof (rule wpost_wait)
    fix c'' es' and res :: "go_error option option"
    assume "same_client c' c''" "sent ''PATCH'' es' = 0" "res = Some None \<Longrightarrow> finished_by c' uuid es'"
    with that show "wpost Q ((tr @ es) @ es') (k c'' res)"
      using assms [of "es @ es'" res c''] finished_by_same [OF c, of uuid es'] by auto
  qed
  have accepted: "accepted_by c foipID sid es uuid" "sent ''PATCH'' es = 1"
    if "r = Inr (data, resp)" "resp_status resp = 202" "decoded store_uuid data [] = Inr uuid" for data resp uuid
    using exchange_simps [OF ex] that by (auto simp: accepted_by_def)
  show "wpost Q (tr @ es) (case r of Inl e \<Rightarrow> k c' (Some (Some e)) | Inr (data, resp) \<Rightarrow>
      if resp_status resp \<noteq> 202 then Clock (\<lambda>t. k c' (Some (Some (status_error ht resp t))))
      else (case decoded store_uuid data [] of
          Inl e \<Rightarrow> k c' (Some (Some (Wrapped ''parsing routing task response: '' e)))
        | Inr uuid \<Rightarrow> waitForTask ht n c' uuid k))"
    using failed [of "[]"] failed [of "[WClock _]"] wait accepted
    by (auto split: sum.split)
qed

section \<open>Properties\<close>

text \<open>
  C13: RouteFailoverIP hands at most one route request to \<open>net/http\<close> (which may repeat it where the
  provider redirects it), and it reports success only if that request was accepted and the last
  answer the client got says that its routing task finished.
\<close>

theorem route_success_means_finished:
  assumes "wsteps (client_RouteFailoverIP ht n c foipID sid (\<lambda>c' res. Done res)) es (Done res)"
  shows "sent ''PATCH'' es \<le> 1
    \<and> (res = Some None \<longrightarrow> sent ''PATCH'' es = 1
        \<and> (\<exists>es1 uuid es2. es = es1 @ es2
             \<and> accepted_by c foipID sid es1 uuid \<and> finished_by c uuid es2))"
  by (rule wpost_result [OF _ assms], rule wpost_route) simp

text \<open>
  FindFailoverIP changes nothing at the provider, and the owner it reports is the one in the
  body of the last answer, which had status 200.
\<close>

theorem found_owner_was_reported:
  assumes "wsteps (client_FindFailoverIP ht c ip (\<lambda>c' r. Done r)) es (Done r)"
  shows "sent ''PATCH'' es = 0
    \<and> (\<forall>foipID serverID. r = Inr (foipID, serverID) \<longrightarrow>
         (\<exists>data resp. answered c ''GET'' (find_path c ip) None es (data, resp)
            \<and> resp_status resp = 200 \<and> found_ip ip data = Inr (foipID, serverID)))"
proof (rule wpost_result [OF _ assms])
  let ?Q = "\<lambda>es r. sent ''PATCH'' es = 0
    \<and> (\<forall>foipID serverID. r = Inr (foipID, serverID) \<longrightarrow>
         (\<exists>data resp. answered c ''GET'' (find_path c ip) None es (data, resp)
            \<and> resp_status resp = 200 \<and> found_ip ip data = Inr (foipID, serverID)))"
  show "wpost ?Q [] (client_FindFailoverIP ht c ip (\<lambda>c' r. Done r))"
    unfolding client_FindFailoverIP_def
  proof (rule wpost_do)
    fix c' es r
    assume "exchange c ''GET'' (find_path c ip) None es r"
    note ex = exchange_simps [OF this]
    show "wpost ?Q ([] @ es) (case r of Inl e \<Rightarrow> Done (Inl e) | Inr (data, resp) \<Rightarrow>
        if resp_status resp \<noteq> 200 then Clock (\<lambda>t. Done (Inl (status_error ht resp t)))
        else Done (found_ip ip data))"
      using ex(1) [of "''PATCH''"] ex(4) by (auto split: sum.split)
  qed
qed

definition token_outcome ::
  "client \<Rightarrow> web_event list \<Rightarrow> client \<times> (go_error + string) \<Rightarrow> bool" where
  "token_outcome c es res \<longleftrightarrow>
     (case es of
        WClock now # es' \<Rightarrow>
          if now < token_expiry c then es' = [] \<and> res = (c, Inr (access_token c))
          else sent ''POST'' es' \<le> 1 \<and>
            (\<forall>tok. snd res = Inr tok \<longrightarrow>
               (\<exists>resp data tr t. es' = [WSend (token_request c) (Inr resp), WClock t]
                  \<and> resp_status resp div 100 = 2 \<and> resp_body resp = Inr data
                  \<and> decoded store_token_response data \<lparr> tr_access_token = [], tr_expires_in = 0 \<rparr> = Inr tr
                  \<and> tok = tr_access_token tr
                  \<and> fst res = c\<lparr>access_token := tok,
                        token_expiry := t + seconds (wrap64 (tr_expires_in tr - 30))\<rparr>))
      | _ \<Rightarrow> False)"

text \<open>
  C16: The token is taken from the cache until thirty seconds before the provider lets it expire;
  otherwise one POST fetches a new one, which the client keeps.
\<close>

theorem token_is_cached_until_expiry:
  assumes "wsteps (token ht c (\<lambda>c' r. Done (c', r))) es (Done res)"
  shows "token_outcome c es res"
proof (rule wpost_result [OF _ assms])
  show "wpost (token_outcome c) [] (token ht c (\<lambda>c' r. Done (c', r)))"
    by (auto simp: token_def Let_def token_outcome_def split: sum.split)
qed

section \<open>Waiting ends with the context\<close>

text \<open>
  A world in which the context ends at \<open>deadline\<close>: a wait that ends by its timer has taken its
  time and is over by then, and no call turns the clock back.
\<close>

definition ends_by :: "'w world \<Rightarrow> time \<Rightarrow> bool" where
  "ends_by W deadline \<longleftrightarrow>
     (\<forall>d w w'. world_after W d w = (None, w') \<longrightarrow>
        world_now W w + d \<le> world_now W w' \<and> world_now W w + d \<le> deadline)
     \<and> (\<forall>q w. world_now W w \<le> world_now W (snd (world_serve W q w)))"

lemma ends_by_after:
  assumes "ends_by W deadline" "world_after W d w = (None, w')"
  shows "world_now W w + d \<le> world_now W w'" "world_now W w + d \<le> deadline"
  using assms by (auto simp: ends_by_def)

lemma ends_by_serve:
  "ends_by W deadline \<Longrightarrow> world_serve W q w = (r, w') \<Longrightarrow> world_now W w \<le> world_now W w'"
  unfolding ends_by_def by (metis snd_conv)

text \<open>What a request leads to does not depend on the rest of the code.\<close>

abbreviation (input) token_run where
  "token_run W ht c w \<equiv> web_run W (token ht c (\<lambda>c' r. Done (c', r))) w"

abbreviation (input) do_run where
  "do_run W ht c meth path body w \<equiv> web_run W (do_request ht c meth path body (\<lambda>c' r. Done (c', r))) w"

lemma run_token:
  "web_run W (token ht c k) w = (case token_run W ht c w of ((c', r), w') \<Rightarrow> web_run W (k c' r) w')"
  by (cases "world_serve W (token_request c) w")
    (simp add: token_def new_request_def Let_def split: sum.split)

lemma run_token_then:
  "token_run W ht c w = ((c', r), w') \<Longrightarrow> web_run W (token ht c k) w = web_run W (k c' r) w'"
  by (simp add: run_token [of W ht c k w])

lemma run_do_then:
  assumes "do_run W ht c meth path body w = ((c', r), w')"
  shows "web_run W (do_request ht c meth path body k) w = web_run W (k c' r) w'"
proof -
  obtain c1 t w1 where "token_run W ht c w = ((c1, t), w1)" by (metis prod.collapse)
  note t = run_token_then [OF this]
  show ?thesis
  proof (cases t)
    case (Inl e)
    then show ?thesis using assms by (simp add: do_request_def t)
  next
    case (Inr tok)
    obtain x w2 where "world_serve W (api_request c1 tok meth path body) w1 = (x, w2)" by fastforce
    then show ?thesis using assms Inr
      by (auto simp: do_request_def t new_request_def split: sum.splits if_splits)
  qed
qed

lemma token_run_later:
  assumes "ends_by W deadline"
  shows "world_now W w \<le> world_now W (snd (token_run W ht c w))"
  using ends_by_serve [OF assms, of "token_request c" w]
  by (cases "world_serve W (token_request c) w")
    (simp add: token_def new_request_def Let_def split: sum.split)

lemma do_run_later:
  assumes "ends_by W deadline"
  shows "world_now W w \<le> world_now W (snd (do_run W ht c meth path body w))"
proof -
  obtain c1 t w1 where t: "token_run W ht c w = ((c1, t), w1)" by (metis prod.collapse)
  have w1: "world_now W w \<le> world_now W w1" using token_run_later [OF assms, of w ht c] t by simp
  have "world_now W w1 \<le> world_now W w'"
    if "world_serve W q w1 = (r, w')" for q r w' by (rule ends_by_serve [OF assms that])
  then show ?thesis
    unfolding do_request_def using w1
    by (simp only: run_token_then [OF t]) (fastforce simp: new_request_def split: prod.split sum.split)
qed

abbreviation (input) polling ::
  "(string \<Rightarrow> time option) \<Rightarrow> nat \<Rightarrow> client \<Rightarrow> string \<Rightarrow> go_error option option web" where
  "polling ht n c uuid \<equiv> waitForTask ht n c uuid (\<lambda>c' res. Done res)"

text \<open>One round of the loop: what it leads to, for every bound on the rounds that follow.\<close>

lemma run_poll:
  obtains (over) res where "\<And>n. fst (web_run W (polling ht (Suc n) c uuid) w) = Some res"
  | (again) c' w' where
      "\<And>n. fst (web_run W (polling ht (Suc n) c uuid) w) = fst (web_run W (polling ht n c' uuid) w')"
      "ends_by W deadline \<Longrightarrow> world_now W w + 2 * second \<le> world_now W w'"
      "ends_by W deadline \<Longrightarrow> world_now W w + 2 * second \<le> deadline"
proof -
  obtain e w1 where wait: "world_after W (2 * second) w = (e, w1)" by fastforce
  obtain c' r w' where run: "do_run W ht c ''GET'' (task_path uuid) None w1 = ((c', r), w')"
    by (metis prod.collapse)
  have round: "web_run W (polling ht (Suc n) c uuid) w =
      (case e of Some x \<Rightarrow> (Some (Some x), w1) | None \<Rightarrow>
         (case r of Inl x \<Rightarrow> (Some (Some x), w') | Inr d \<Rightarrow>
            (case judge_task d of Some res \<Rightarrow> (Some res, w')
             | None \<Rightarrow> web_run W (polling ht n c' uuid) w')))" for n
    using wait
    by (simp add: run_do_then [OF run] split: option.split sum.split)
  show thesis
  proof (cases "e = None \<and> (\<exists>d. r = Inr d \<and> judge_task d = None)")
    case True
    then have w1: "world_after W (2 * second) w = (None, w1)" using wait by simp
    show thesis
    proof (rule again [of c' w'])
      show "fst (web_run W (polling ht (Suc n) c uuid) w) = fst (web_run W (polling ht n c' uuid) w')" for n
        using True by (auto simp: round simp del: waitForTask.simps)
    next
      assume W: "ends_by W deadline"
      show "world_now W w + 2 * second \<le> deadline" using ends_by_after [OF W w1] by blast
      show "world_now W w + 2 * second \<le> world_now W w'"
        using ends_by_after(1) [OF W w1] do_run_later [OF W, of w1 ht c "''GET''" "task_path uuid" None]
        by (simp add: run)
    qed
  next
    case False
    then obtain res where "\<And>n. fst (web_run W (polling ht (Suc n) c uuid) w) = Some res"
      by (cases e; cases r) (auto simp: round simp del: waitForTask.simps)
    then show thesis by (rule over)
  qed
qed

lemma polling_more:
  "fst (web_run W (polling ht n c uuid) w) = Some res \<Longrightarrow> n \<le> m \<Longrightarrow>
   fst (web_run W (polling ht m c uuid) w) = Some res"
proof (induction n arbitrary: m c w)
  case (Suc n)
  then obtain m' where m: "m = Suc m'" "n \<le> m'" by (cases m) auto
  show ?case
    using Suc.prems(1) Suc.IH [OF _ m(2)] unfolding m(1)
    by (cases rule: run_poll [where W = W and ht = ht and c = c and uuid = uuid and w = w]) (simp_all del: waitForTask.simps)
qed simp

lemma polling_ends:
  assumes W: "ends_by W deadline"
  shows "deadline < world_now W w + 2 * second * int (Suc n) \<Longrightarrow>
    fst (web_run W (polling ht (Suc n) c uuid) w) \<noteq> None"
proof (induction n arbitrary: c w)
  case 0
  then show ?case
    by (cases rule: run_poll [where W = W and ht = ht and c = c and uuid = uuid and w = w and deadline = deadline]) (use W in \<open>auto simp del: waitForTask.simps\<close>)
next
  case (Suc n)
  show ?case
  proof (cases rule: run_poll [where W = W and ht = ht and c = c and uuid = uuid and w = w and deadline = deadline])
    case (again c' w')
    then show ?thesis
      using Suc.IH [of w' c'] Suc.prems W by (simp del: waitForTask.simps add: algebra_simps)
  qed (simp del: waitForTask.simps)
qed

text \<open>
  C14: The polling loop ends when its context does: in a world whose context ends at a deadline,
  enough polls to reach the deadline give a result, and more polls give the same one.
\<close>

theorem wait_returns_by_deadline:
  assumes "ends_by W deadline" and "deadline < world_now W w + 2 * second * int (Suc n)"
  shows "\<exists>res. \<forall>m \<ge> Suc n.
    fst (web_run W (waitForTask ht m c uuid (\<lambda>c' res. Done res)) w) = Some res"
proof -
  obtain res where "fst (web_run W (polling ht (Suc n) c uuid) w) = Some res"
    using polling_ends [OF assms, of ht c uuid] by (metis not_None_eq)
  then show ?thesis by (intro exI allI impI) (rule polling_more)
qed

definition running_body :: string where
  "running_body = encode_json (JObj [(''state'', JStr ''RUNNING'')])"

definition keeps_running :: "'w world \<Rightarrow> bool" where
  "keeps_running W \<longleftrightarrow>
     (\<forall>d w. fst (world_after W d w) = None)
     \<and> (\<forall>q w. \<exists>resp. fst (world_serve W q w) = Inr resp
          \<and> resp_status resp = 200 \<and> resp_body resp = Inr running_body)"

lemma running_decoded:
  "decoded store_token_response running_body \<lparr> tr_access_token = [], tr_expires_in = 0 \<rparr>
     = Inr \<lparr> tr_access_token = [], tr_expires_in = 0 \<rparr>"
  "decoded store_task_state running_body \<lparr> task_state_name = [], task_message = [] \<rparr>
     = Inr \<lparr> task_state_name = ''RUNNING'', task_message = [] \<rparr>"
  by (simp_all add: decoded_def running_body_def unmarshal_encode_json maxNestingDepth_def
      store_token_response_def store_task_state_def store_struct_def store_string_def
      in_field_def field_names)

lemma judge_running: "resp_status resp = 200 \<Longrightarrow> judge_task (running_body, resp) = None"
  by (simp add: judge_task_def running_decoded failed_states_def)

lemma keeps_running_serve:
  assumes "keeps_running W"
  obtains resp w' where "world_serve W q w = (Inr resp, w')" "resp_status resp = 200"
    "resp_body resp = Inr running_body"
  using assms unfolding keeps_running_def by (metis prod.collapse)

lemma token_keeps_running:
  assumes W: "keeps_running W" and u: "url_parse (client_token_url c) \<noteq> None"
  obtains c' tok w' where "same_client c c'" "token_run W ht c w = ((c', Inr tok), w')"
proof (cases "world_now W w < token_expiry c")
  case True
  then show thesis using that [of c "access_token c" w] by (simp add: token_def)
next
  case False
  obtain resp w' where "world_serve W (token_request c) w = (Inr resp, w')" "resp_status resp = 200"
    "resp_body resp = Inr running_body"
    using keeps_running_serve [OF W] by blast
  moreover have "url_parse (req_url (token_request c)) \<noteq> None"
    using u by (simp add: token_request_def)
  ultimately show thesis
    using False that [of "c\<lparr>access_token := [], token_expiry := _\<rparr>" "[]" w']
    by (simp add: token_def new_request_def running_decoded Let_def)
qed

lemma do_keeps_running:
  assumes W: "keeps_running W" and u: "url_parse (client_token_url c) \<noteq> None"
    and p: "url_parse (client_scp_base c @ path) \<noteq> None"
  obtains c' d w' where "same_client c c'" "do_run W ht c meth path body w = ((c', Inr d), w')"
    "judge_task d = None"
proof -
  obtain c' tok w1 where c': "same_client c c'" and tok: "token_run W ht c w = ((c', Inr tok), w1)"
    using token_keeps_running [OF W u] by blast
  obtain resp w' where "world_serve W (api_request c' tok meth path body) w1 = (Inr resp, w')"
    "resp_status resp = 200" "resp_body resp = Inr running_body"
    using keeps_running_serve [OF W] by blast
  moreover have "url_parse (req_url (api_request c' tok meth path body)) \<noteq> None"
    using p same_clientD [OF c'] by (simp add: api_request_def)
  ultimately show thesis
    using that [of c' "(running_body, resp)" w'] c'
    by (simp add: do_request_def run_token_then [OF tok] new_request_def judge_running)
qed

lemma keeps_polling:
  assumes W: "keeps_running W"
  shows "url_parse (client_token_url c) \<noteq> None \<Longrightarrow>
    url_parse (client_scp_base c @ task_path uuid) \<noteq> None \<Longrightarrow>
    fst (web_run W (polling ht n c uuid) w) = None"
proof (induction n arbitrary: c w)
  case (Suc n)
  obtain w1 where wait: "world_after W (2 * second) w = (None, w1)"
    using W unfolding keeps_running_def by (metis prod.collapse)
  obtain c' d w' where c': "same_client c c'" and "judge_task d = None"
    "do_run W ht c ''GET'' (task_path uuid) None w1 = ((c', Inr d), w')"
    using do_keeps_running [OF W Suc.prems] by blast
  then show ?case
    using Suc.IH [of c' w'] Suc.prems same_clientD [OF c'] wait
    by (simp add: run_do_then)
qed simp

text \<open>
  Without such a deadline nothing ends it: as long as the provider says that the task is
  running, the loop is still polling after any number of polls.
\<close>

theorem running_task_is_polled_without_end:
  assumes "keeps_running W" and "url_parse (client_token_url c) \<noteq> None"
    and "url_parse (client_scp_base c @ task_path uuid) \<noteq> None"
  shows "fst (web_run W (waitForTask ht n c uuid (\<lambda>c' res. Done res)) w) = None"
  by (rule keeps_polling [OF assms])

text \<open>A world of each kind: a clock whose waits stop at a deadline, and a task that runs on.\<close>

definition clock_world :: "time \<Rightarrow> time world" where
  "clock_world deadline =
     \<lparr> world_now = (\<lambda>w. w),
       world_serve = (\<lambda>q w. (Inr \<lparr> resp_status = 200, resp_retry_after = [],
         resp_body = Inr running_body \<rparr>, w)),
       world_after = (\<lambda>d w. if w + d \<le> deadline then (None, w + d)
         else (Some (GoError ''context deadline exceeded''), w)),
       world_sleep = (\<lambda>d w. w + d), world_getenv = (\<lambda>n. []) \<rparr>"

definition endless_world :: "time world" where
  "endless_world = (clock_world 0)\<lparr>world_after := \<lambda>d w. (None, w + d)\<rparr>"

lemma clock_world_ends: "ends_by (clock_world deadline) deadline"
  by (simp add: ends_by_def clock_world_def)

lemma endless_world_runs: "keeps_running endless_world"
  by (simp add: keeps_running_def endless_world_def clock_world_def)

theorem wait_returns_by_deadline_witness:
  "\<exists>res. \<forall>m \<ge> Suc 4. fst (web_run (clock_world (7 * second))
     (waitForTask (\<lambda>v. None) m (New 1 ''r'') ''t'' (\<lambda>c' res. Done res)) 0) = Some res"
  by (rule wait_returns_by_deadline [OF clock_world_ends])
    (simp add: clock_world_def second_def)

theorem running_task_is_polled_without_end_witness:
  "fst (web_run endless_world
     (waitForTask (\<lambda>v. None) 1000 (New 1 ''r'') ''t'' (\<lambda>c' res. Done res)) 0) = None"
  by (rule running_task_is_polled_without_end [OF endless_world_runs]) code_simp+

text \<open>
  C38: A Retry-After in seconds is read exactly up to the largest duration there is, 9223372036
  seconds; from there on the product wraps around, and 9223372037 seconds come out negative.
\<close>

theorem parseRetryAfter_exact_iff:
  "(\<forall>v s. atoi (trim_space v) = Some s \<longrightarrow> 0 \<le> s \<longrightarrow>
      (parseRetryAfter http_time v now = s * second \<longleftrightarrow> s \<le> 9223372036))
   \<and> parseRetryAfter http_time ''9223372037'' now < 0"
proof -
  have trim: "trim_space ''9223372037'' = ''9223372037''"
    by (rule trim_space_digits) (simp add: is_digit_def digit_value_def)
  have num: "atoi ''9223372037'' = Some 9223372037"
    by (simp add: parse_int_def digit_value_def is_int64_def)
  have read: "parseRetryAfter http_time v now = wrap64 (s * second)"
    if "atoi (trim_space v) = Some s" "0 \<le> s" for v s
    using that by (simp add: parseRetryAfter_def seconds_def)
  have "wrap64 x = x \<longleftrightarrow> is_int64 x" for x
    using wrap64_id [of x] wrap64_range [of x] by metis
  moreover have "is_int64 (s * second) \<longleftrightarrow> s \<le> 9223372036" if "0 \<le> s" for s
    using that by (auto simp: is_int64_def second_def)
  ultimately have "wrap64 (s * second) = s * second \<longleftrightarrow> s \<le> 9223372036" if "0 \<le> s" for s
    using that by simp
  moreover have "wrap64 (9223372037 * second) < 0"
    by (simp add: wrap64_def second_def)
  ultimately show ?thesis using read [of "''9223372037''" 9223372037] trim num
    by (simp add: read)
qed

theorem parseRetryAfter_exact_iff_witness:
  "atoi (trim_space ''120'') = Some 120 \<and> parseRetryAfter (\<lambda>v. None) ''120'' 5 = 120 * second"
proof -
  have "trim_space ''120'' = ''120''"
    by (rule trim_space_digits) (simp add: is_digit_def digit_value_def)
  moreover have "atoi ''120'' = Some 120"
    by (simp add: parse_int_def digit_value_def is_int64_def)
  ultimately have "atoi (trim_space ''120'') = Some 120" by simp
  then show ?thesis using parseRetryAfter_exact_iff [of "\<lambda>v. None" 5] by fastforce
qed

text \<open>
  A poll answered with another status than 200 ends the loop with an error that has lost the
  class of the status and its Retry-After, and that ends with the body of the response.
\<close>

theorem poll_errors_are_unclassified:
  "resp_status resp \<noteq> 200 \<Longrightarrow>
   \<exists>e pre. judge_task (data, resp) = Some (Some e) \<and> as_provider_error e = None
     \<and> error_text e = pre @ data"
  by (auto simp: judge_task_def)

theorem poll_errors_are_unclassified_witness:
  "\<exists>e pre. judge_task (''slow down'',
       \<lparr> resp_status = 429, resp_retry_after = ''30'', resp_body = Inr ''slow down'' \<rparr>) = Some (Some e)
     \<and> as_provider_error e = None \<and> error_text e = pre @ ''slow down''"
  using poll_errors_are_unclassified [of "\<lparr> resp_status = 429, resp_retry_after = ''30'',
      resp_body = Inr ''slow down'' \<rparr>" "''slow down''"] by simp

end
