(* ===== verification/Provider_Contract.thy ===== *)
theory Provider_Contract
  imports Prelude
begin

text \<open>
  What the controller relies on when it talks to a provider (the interface \<open>netcupClient\<close> of
  \<open>internal/controller\<close>): a provider that is up reports the owner, a route that succeeds moves
  the failover IP to the server it names, and one that fails leaves the owner alone.
\<close>

text \<open>Route attempts, one after the other, as long as they fail.\<close>

fun retry_route ::
  "(int \<Rightarrow> int \<Rightarrow> 's \<Rightarrow> go_error option option \<times> 's) \<Rightarrow> int \<Rightarrow> int \<Rightarrow> nat \<Rightarrow> 's \<Rightarrow> bool \<times> 's" where
  "retry_route route fid sid 0 s = (False, s)"
| "retry_route route fid sid (Suc n) s =
     (case route fid sid s of (res, s') \<Rightarrow>
        if res = Some None then (True, s') else retry_route route fid sid n s')"

locale provider_contract =
  fixes find :: "string \<Rightarrow> 's \<Rightarrow> (go_error + int \<times> int) \<times> 's"
    and route :: "int \<Rightarrow> int \<Rightarrow> 's \<Rightarrow> go_error option option \<times> 's"
    and up :: "'s \<Rightarrow> bool"
    and owned_by :: "'s \<Rightarrow> int"
  assumes find_law: "up s \<Longrightarrow>
      \<exists>fid s'. find ip s = (Inr (fid, owned_by s), s') \<and> up s' \<and> owned_by s' = owned_by s"
    and route_law: "up s \<Longrightarrow> is_int64 sid \<Longrightarrow> sid \<noteq> 0 \<Longrightarrow> route fid sid s = (res, s') \<Longrightarrow>
      up s' \<and> owned_by s' = (if res = Some None then sid else owned_by s)"
begin

lemma route_then_find:
  assumes "up s" "is_int64 sid" "sid \<noteq> 0" "route fid sid s = (Some None, s')"
  shows "\<exists>fid'. fst (find ip s') = Inr (fid', sid)"
  using route_law [OF assms] find_law [of s' ip] by auto

lemma retry_route_owner:
  assumes "is_int64 sid" "sid \<noteq> 0"
  shows "up s \<Longrightarrow> retry_route route fid sid n s = (moved, s') \<Longrightarrow>
    up s' \<and> owned_by s' = (if moved then sid else owned_by s)"
proof (induction n arbitrary: s)
  case (Suc n)
  obtain res s1 where r: "route fid sid s = (res, s1)" by fastforce
  then show ?case
    using route_law [OF Suc.prems(1) assms r] Suc.IH [of s1] Suc.prems by (auto split: if_splits)
qed simp

lemma retry_then_find:
  assumes "up s" "is_int64 sid" "sid \<noteq> 0" "retry_route route fid sid n s = (moved, s')"
  shows "\<exists>fid'. fst (find ip s') = Inr (fid', if moved then sid else owned_by s)"
  using retry_route_owner [OF assms(2,3,1,4)] find_law [of s' ip] by auto

end

end
