(* ===== verification/Fake_Provider.thy ===== *)
theory Fake_Provider
  imports Netcup_Client Provider_Contract
begin

text \<open>
  The provider of the end-to-end tests (\<open>cmd/fake-provider/main.go\<close>), and the client of
  \<open>Netcup_Client\<close> talking to it.  The handlers answer requests whose path is clean, which every
  path of the client is; \<open>net/http\<close> redirects any other before a handler sees it.
\<close>

section \<open>The provider\<close>

record provider =
  prov_owner :: int
  next_task :: int
  route_count :: int
  prov_tasks :: "string \<rightharpoonup> time"
  route_delay :: duration
  route_errors :: int

definition envInt :: "string \<Rightarrow> int \<Rightarrow> (int \<Rightarrow> 'a web) \<Rightarrow> 'a web" where
  "envInt name fallback k =
     Getenv name (\<lambda>v. k (case atoi v of None \<Rightarrow> fallback | Some i \<Rightarrow> i))"

definition envString :: "string \<Rightarrow> string \<Rightarrow> (string \<Rightarrow> 'a web) \<Rightarrow> 'a web" where
  "envString name fallback k = Getenv name (\<lambda>v. k (if v \<noteq> '''' then v else fallback))"

text \<open>What \<open>main\<close> sets up: the provider and the address it listens on.\<close>

definition start_provider :: "(provider \<Rightarrow> string \<Rightarrow> 'a web) \<Rightarrow> 'a web" where
  "start_provider k =
     envInt ''FAKE_PROVIDER_INITIAL_OWNER'' 0 (\<lambda>owner.
     envInt ''FAKE_PROVIDER_ROUTE_DELAY_SECONDS'' 0 (\<lambda>delay.
     envInt ''FAKE_PROVIDER_ROUTE_ERRORS'' 0 (\<lambda>errors.
     envString ''PORT'' ''8080'' (\<lambda>port.
       k \<lparr> prov_owner = owner, next_task = 0, route_count = 0, prov_tasks = Map.empty,
           route_delay = seconds delay, route_errors = errors \<rparr> ('':'' @ port)))))"

definition status_only :: "int \<Rightarrow> http_response" where
  "status_only status = \<lparr> resp_status = status, resp_retry_after = [], resp_body = Inr [] \<rparr>"

definition writeJSON :: "int \<Rightarrow> json \<Rightarrow> http_response" where
  "writeJSON status v = \<lparr> resp_status = status, resp_retry_after = [], resp_body = Inr (encode_json v) \<rparr>"

definition serve_token :: http_response where
  "serve_token = writeJSON 200 (JObj [(''access_token'', JStr ''fake-token''), (''expires_in'', JNum ''3600'')])"

definition serve_state :: "provider \<Rightarrow> http_response" where
  "serve_state p = writeJSON 200 (JObj [(''owner'', JNum (itoa (prov_owner p))),
     (''routeCount'', JNum (itoa (route_count p)))])"

definition store_server_id :: "int store" where
  "store_server_id = store_struct [(''serverId'', store_int)]"

definition serve_api :: "string \<Rightarrow> string \<Rightarrow> time \<Rightarrow> provider \<Rightarrow> http_response \<times> provider" where
  "serve_api meth body now p =
     (if meth = ''GET'' then
        (writeJSON 200 (JArr [JObj ((''id'', JNum ''17'') #
           (if prov_owner p \<noteq> 0 then [(''server'', JObj [(''id'', JNum (itoa (prov_owner p)))])] else []))]), p)
      else if meth \<noteq> ''PATCH'' then (status_only 405, p)
      else (case decode store_server_id body 0 of (serverID, ok) \<Rightarrow>
        if \<not> ok \<or> serverID = 0 then (status_only 400, p)
        else if route_errors p > 0 then
          ((status_only 503)\<lparr>resp_retry_after := ''1''\<rparr>, p\<lparr>route_errors := route_errors p - 1\<rparr>)
        else
          let n = wrap64 (next_task p + 1);
              taskID = ''task-'' @ itoa n
          in (writeJSON 202 (JObj [(''uuid'', JStr taskID)]),
              p\<lparr>next_task := n, route_count := wrap64 (route_count p + 1),
                prov_tasks := (prov_tasks p)(taskID \<mapsto> now + route_delay p),
                prov_owner := serverID\<rparr>)))"

definition serve_task :: "string \<Rightarrow> time \<Rightarrow> provider \<Rightarrow> http_response" where
  "serve_task path now p =
     (let tid = (case strip_prefix ''/api/v1/tasks/'' path of None \<Rightarrow> path | Some t \<Rightarrow> t) in
      case prov_tasks p tid of
        None \<Rightarrow> status_only 404
      | Some doneAt \<Rightarrow>
          writeJSON 200 (JObj [(''state'', JStr (if \<not> now < doneAt then ''FINISHED'' else ''RUNNING''))]))"

definition has_prefix :: "string \<Rightarrow> string \<Rightarrow> bool" where
  "has_prefix p s \<longleftrightarrow> take (length p) s = p"

text \<open>The registered patterns: a name, or a subtree.\<close>

definition serve :: "time \<Rightarrow> http_request \<Rightarrow> provider \<Rightarrow> http_response \<times> provider" where
  "serve now q p =
     (case url_parse (req_url q) of
        None \<Rightarrow> (status_only 400, p)
      | Some u \<Rightarrow>
          let path = url_escaped_path u in
          if path = ''/token'' then (serve_token, p)
          else if path = ''/state'' then (serve_state p, p)
          else if has_prefix ''/api/v1/users/'' path then serve_api (req_method q) (req_body q) now p
          else if has_prefix ''/api/v1/tasks/'' path then
            (serve_task (case unescape_path (url_raw_path u) of None \<Rightarrow> path | Some t \<Rightarrow> t) now p, p)
          else ((status_only 404)\<lparr>resp_body := Inr (''404 page not found'' @ [byte 10])\<rparr>, p))"

section \<open>The client and the provider\<close>

definition fake_base :: string where "fake_base = ''http://fake-provider:8080''"

text \<open>The environment of the end-to-end tests, and a world whose context never ends.\<close>

definition e2e_environment :: "string \<Rightarrow> string" where
  "e2e_environment name =
     (if name = ''NETCUP_API_BASE_URL'' then fake_base
      else if name = ''NETCUP_TOKEN_URL'' then fake_base @ ''/token'' else [])"

definition fake_world :: "(provider \<times> time) world" where
  "fake_world =
     \<lparr> world_now = snd,
       world_serve = (\<lambda>q (p, now). case serve now q p of (resp, p') \<Rightarrow> (Inr resp, (p', now))),
       world_after = (\<lambda>d (p, now). (None, (p, now + d))),
       world_sleep = (\<lambda>d (p, now). (p, now + d)),
       world_getenv = e2e_environment \<rparr>"

definition e2e_client :: "int \<Rightarrow> string \<Rightarrow> client" where
  "e2e_client uid tok = (New uid tok)\<lparr>client_scp_base := fake_base, client_token_url := fake_base @ ''/token''\<rparr>"

lemma fake_world_simps [simp]:
  "world_now fake_world (p, t) = t"
  "world_serve fake_world q (p, t) = (case serve t q p of (resp, p') \<Rightarrow> (Inr resp, (p', t)))"
  "world_after fake_world d (p, t) = (None, (p, t + d))"
  "world_getenv fake_world = e2e_environment"
  by (simp_all add: fake_world_def)

lemma client_from_environment:
  "web_run fake_world (NewFromEnvironment uid tok k) w = web_run fake_world (k (e2e_client uid tok)) w"
  by (simp add: NewFromEnvironment_def e2e_environment_def fake_base_def trim_slashes_def
      e2e_client_def Let_def)

section \<open>Addresses of the provider\<close>

definition fake_client :: "client \<Rightarrow> bool" where
  "fake_client c \<longleftrightarrow> client_scp_base c = fake_base \<and> client_token_url c = fake_base @ ''/token''"

lemma fake_client_same: "same_client c c' \<Longrightarrow> fake_client c \<Longrightarrow> fake_client c'"
  by (simp add: fake_client_def same_clientD)

lemma e2e_client_fake: "fake_client (e2e_client uid tok)"
  by (simp add: fake_client_def e2e_client_def)

lemma fake_url:
  assumes "list_all plain_path p" "q = [] \<or> q = CHR ''?'' # qs \<and> list_all plain_query qs"
  obtains u where "url_parse (fake_base @ CHR ''/'' # p @ q) = Some u"
    "url_raw_path u = CHR ''/'' # p" "url_escaped_path u = CHR ''/'' # p"
    "unescape_path (url_raw_path u) = Some (CHR ''/'' # p)"
proof -
  let ?u = "empty_url\<lparr>url_scheme := ''http'', url_host := ''fake-provider'' @ '':'' @ ''8080'',
    url_raw_path := CHR ''/'' # p\<rparr>"
  have h: "list_all name_char ''fake-provider''" "list_all is_digit ''8080''"
    by (simp_all add: name_char_def is_letter_def code_def is_digit_def digit_value_def)
  have "url_parse (''http://'' @ ''fake-provider'' @ '':'' @ ''8080'' @ CHR ''/'' # p @ q) = Some ?u"
    by (rule url_parse_http [OF h assms])
  then have "url_parse (fake_base @ CHR ''/'' # p @ q) = Some ?u"
    by (simp add: fake_base_def)
  moreover have "path_char (CHR ''/'')" by (simp add: path_char_def)
  then have "url_escaped_path ?u = CHR ''/'' # p"
    using assms(1) plain_chars(9) by (auto simp: url_escaped_path_def list_all_iff)
  moreover have "unescape_path (CHR ''/'' # p) = Some (CHR ''/'' # p)"
    unfolding unescape_path_def
    by (rule unescape_plain) (use assms(1) plain_chars(2) in \<open>fastforce simp: list_all_iff\<close>)
  ultimately show thesis by (intro that [of ?u]) simp_all
qed

lemma plain_text: "list_all plain_path s" if "list_all unreserved s"
  using that by (auto simp: list_all_iff plain_path_def)

lemma plain_itoa: "list_all unreserved (itoa i)"
  using nat_text_digits by (auto simp: itoa_def list_all_iff unreserved_def)

lemma plain_escape: "list_all plain_query (query_escape s)"
proof -
  have hex: "plain_query (upper_hex n)" if "n < 16" for n
  proof -
    have "\<forall>c \<in> set ''0123456789ABCDEF''. plain_query c"
      by (simp add: plain_query_def plain_path_def unreserved_def is_letter_def is_digit_def
          digit_value_def code_def)
    moreover have "upper_hex n \<in> set ''0123456789ABCDEF''"
      unfolding upper_hex_def by (rule nth_mem) (use that in simp)
    ultimately show ?thesis by blast
  qed
  have "list_all plain_query (percent c)" for c
  proof -
    have "code c < 256" by (simp add: code_def)
    then have "code c div 16 < 16" by linarith
    then show ?thesis
      using hex [of "code c div 16"] hex [of "code c mod 16"] by (simp add: percent_def plain_query_def)
  qed
  moreover have "plain_query c" if "unreserved c" for c
    using that by (simp add: plain_query_def plain_path_def)
  moreover have "plain_query (CHR ''+'')" by (simp add: plain_query_def)
  ultimately have "list_all plain_query
      (if unreserved c then [c] else if c = CHR '' '' then ''+'' else percent c)" for c
    by simp
  then show ?thesis
    unfolding query_escape_def by (induction s) simp_all
qed

section \<open>Exchanges with the provider\<close>

lemma token_served:
  assumes "fake_client c"
  shows "serve now (token_request c) p = (serve_token, p)"
    "url_parse (req_url (token_request c)) \<noteq> None"
proof -
  have "list_all plain_path ''token''"
    by (simp add: plain_path_def unreserved_def is_letter_def code_def)
  from fake_url [OF this, of "[]" "[]"] obtain u where u:
    "url_parse (fake_base @ ''/token'') = Some u" "url_escaped_path u = ''/token''"
    by auto
  then show "serve now (token_request c) p = (serve_token, p)"
    "url_parse (req_url (token_request c)) \<noteq> None"
    using assms by (simp_all add: serve_def token_request_def fake_client_def)
qed

lemma token_decoded:
  "decoded store_token_response (encode_json (JObj [(''access_token'', JStr ''fake-token''),
      (''expires_in'', JNum ''3600'')])) \<lparr> tr_access_token = [], tr_expires_in = 0 \<rparr>
   = Inr \<lparr> tr_access_token = ''fake-token'', tr_expires_in = 3600 \<rparr>"
proof -
  have "is_number ''3600''" "list_all number_char ''3600''" "parse_int ''3600'' = Some 3600"
    by (simp_all add: is_number_def is_fraction_def is_exponent_def number_char_def is_digit_def
        digit_value_def parse_int_def is_int64_def)
  then show ?thesis
    by (simp add: decoded_def unmarshal_encode_json maxNestingDepth_def store_token_response_def
        store_struct_def store_string_def store_int_def in_field_def field_names)
qed

lemma fake_token:
  assumes "fake_client c"
  obtains c' tok where "same_client c c'" "token_run fake_world ht c (p, t) = ((c', Inr tok), (p, t))"
proof (cases "t < token_expiry c")
  case True
  then show thesis using that [of c "access_token c"] by (simp add: token_def)
next
  case False
  then show thesis
    using that [of "c\<lparr>access_token := ''fake-token'', token_expiry := _\<rparr>" "''fake-token''"]
      token_served [OF assms]
    by (simp add: token_def new_request_def Let_def serve_token_def writeJSON_def token_decoded)
qed

lemma fake_do:
  assumes c: "fake_client c" and u: "url_parse (fake_base @ path) \<noteq> None"
    and serve: "\<And>q. req_method q = meth \<Longrightarrow> req_url q = fake_base @ path \<Longrightarrow>
      req_body q = (case body of None \<Rightarrow> [] | Some b \<Rightarrow> b) \<Longrightarrow> serve t q p = (resp, p')"
    and data: "resp_body resp = Inr data"
  obtains c' where "same_client c c'"
    "do_run fake_world ht c meth path body (p, t) = ((c', Inr (data, resp)), (p', t))"
proof -
  obtain c' tok where c': "same_client c c'"
    and tok: "token_run fake_world ht c (p, t) = ((c', Inr tok), (p, t))"
    using fake_token [OF c] by blast
  have "client_scp_base c' = fake_base"
    using fake_client_same [OF c' c] by (simp add: fake_client_def)
  then show thesis
    using serve [of "api_request c' tok meth path body"] u data that [OF c']
    by (simp add: do_request_def run_token_then [OF tok] new_request_def api_request_def)
qed

section \<open>Finding, routing, polling\<close>

lemma served_path:
  assumes "list_all unreserved rest" "req_url q = fake_base @ ''/api/v1/tasks/'' @ rest"
  shows "serve t q p = (serve_task (''/api/v1/tasks/'' @ rest) t p, p)"
    "url_parse (req_url q) \<noteq> None"
proof -
  have "list_all plain_path (''api/v1/tasks/'' @ rest)"
    using plain_text [OF assms(1)]
    by (simp add: plain_path_def unreserved_def is_letter_def is_digit_def digit_value_def code_def)
  then obtain u where
    "url_parse (fake_base @ ''/api/v1/tasks/'' @ rest) = Some u"
    "url_escaped_path u = ''/api/v1/tasks/'' @ rest"
    "unescape_path (url_raw_path u) = Some (''/api/v1/tasks/'' @ rest)"
    by (rule fake_url [OF _ disjI1 [OF refl]]) simp
  then show "serve t q p = (serve_task (''/api/v1/tasks/'' @ rest) t p, p)"
    "url_parse (req_url q) \<noteq> None"
    unfolding serve_def assms(2) by (simp_all add: has_prefix_def)
qed

lemma served_user_path:
  assumes "list_all plain_path rest" "qs = [] \<or> qs = CHR ''?'' # qs' \<and> list_all plain_query qs'"
    and "req_url q = fake_base @ ''/api/v1/users/'' @ rest @ qs"
  shows "serve t q p = serve_api (req_method q) (req_body q) t p" "url_parse (req_url q) \<noteq> None"
proof -
  have "list_all plain_path (''api/v1/users/'' @ rest)"
    using assms(1)
    by (simp add: plain_path_def unreserved_def is_letter_def is_digit_def digit_value_def code_def)
  then obtain u where
    "url_parse (fake_base @ ''/api/v1/users/'' @ rest @ qs) = Some u"
    "url_escaped_path u = ''/api/v1/users/'' @ rest"
    by (rule fake_url [OF _ assms(2)]) simp
  then show "serve t q p = serve_api (req_method q) (req_body q) t p" "url_parse (req_url q) \<noteq> None"
    unfolding serve_def assms(3) by (simp_all add: has_prefix_def)
qed

lemma find_path_plain:
  "\<exists>rest qs. find_path c ip = ''/api/v1/users/'' @ rest @ CHR ''?'' # qs
     \<and> list_all plain_path rest \<and> list_all plain_query qs"
  using plain_text [OF plain_itoa, of "client_user_id c"] plain_escape [of ip]
  by (intro exI [of _ "itoa (client_user_id c) @ ''/failoverips/v4''"] exI [of _ "''ip='' @ query_escape ip"])
    (simp add: find_path_def plain_path_def plain_query_def unreserved_def is_letter_def is_digit_def
      digit_value_def code_def)

lemma route_path_plain:
  "\<exists>rest. route_path c foipID = ''/api/v1/users/'' @ rest \<and> list_all plain_path rest"
  using plain_text [OF plain_itoa, of "client_user_id c"] plain_text [OF plain_itoa, of foipID]
  by (intro exI [of _ "itoa (client_user_id c) @ ''/failoverips/v4/'' @ itoa foipID"])
    (simp add: route_path_def plain_path_def unreserved_def is_letter_def is_digit_def
      digit_value_def code_def)

lemma number_text: "is_number (itoa i)" "list_all number_char (itoa i)"
  using is_number_itoa by auto

lemma found_served:
  assumes "is_int64 (prov_owner p)"
  shows "\<exists>data. serve_api ''GET'' body t p = (\<lparr> resp_status = 200, resp_retry_after = [],
      resp_body = Inr data \<rparr>, p) \<and> found_ip ip data = Inr (17, prov_owner p)"
proof -
  have n17: "is_number ''17''" "list_all number_char ''17''" "parse_int ''17'' = Some 17"
    by (simp_all add: is_number_def is_fraction_def is_exponent_def number_char_def is_digit_def
        digit_value_def parse_int_def is_int64_def)
  show ?thesis
    using assms n17
    by (auto simp: serve_api_def writeJSON_def found_ip_def decoded_def unmarshal_encode_json
        maxNestingDepth_def number_text store_failover_ips_def store_slice_def
        store_failover_ipv4_def store_struct_def store_int_def in_field_def store_pointer_def
        field_names parse_int_itoa)
qed

lemma fake_find_run:
  assumes c: "fake_client c" and p: "is_int64 (prov_owner p)"
  obtains c' where "same_client c c'"
    "web_run fake_world (client_FindFailoverIP ht c ip k) (p, t)
       = web_run fake_world (k c' (Inr (17, prov_owner p))) (p, t)"
proof -
  obtain rest qs where path: "find_path c ip = ''/api/v1/users/'' @ rest @ CHR ''?'' # qs"
    and plain: "list_all plain_path rest" "list_all plain_query qs"
    using find_path_plain by blast
  obtain data where data: "\<And>body. serve_api ''GET'' body t p = (\<lparr> resp_status = 200, resp_retry_after = [],
      resp_body = Inr data \<rparr>, p)" "found_ip ip data = Inr (17, prov_owner p)"
    using found_served [OF p, of _ t ip] by (auto simp: serve_api_def)
  note at = served_user_path [OF plain(1) disjI2 [OF conjI [OF refl plain(2)]]]
  obtain c' where "same_client c c'" and run: "do_run fake_world ht c ''GET'' (find_path c ip) None (p, t)
      = ((c', Inr (data, \<lparr> resp_status = 200, resp_retry_after = [], resp_body = Inr data \<rparr>)), (p, t))"
    by (rule fake_do [OF c, of "find_path c ip" "''GET''" None])
      (use at at(2) [of "\<lparr> req_method = [], req_url = fake_base @ find_path c ip, req_headers = [], req_body = [] \<rparr>"]
         data in \<open>auto simp: path\<close>)
  then show thesis
    using that data by (simp add: client_FindFailoverIP_def run_do_then [OF run])
qed

lemma route_body_text: "route_body sid = json_text (JObj [(''serverId'', JNum (itoa sid))])"
  by (simp add: route_body_def encode_string_def encode_chars_ascii encode_char_def ascii_def code_def)

lemma route_body_decoded:
  assumes "is_int64 sid"
  shows "decode store_server_id (route_body sid) 0 = (sid, True)"
proof -
  let ?v = "JObj [(''serverId'', JNum (itoa sid))]"
  have v: "plain_json ?v" using number_text [of sid] by (simp add: ascii_def code_def)
  have "parse_json (json_text ?v) = Some ?v"
    using tokenize_json [OF v, of "[]"] parse_value_tokens [OF v, of "[]" "[]"]
    by (simp add: stops_punctuation tokenize_end parse_json_def maxNestingDepth_def)
  moreover obtain s where s: "route_body sid = CHR ''{'' # s @ ''}''"
    and "CHR ''}'' \<notin> set s" "CHR '']'' \<notin> set s"
  proof
    let ?s = "[byte 34] @ ''serverId'' @ [byte 34] @ '':'' @ itoa sid"
    show "route_body sid = CHR ''{'' # ?s @ ''}''" by (simp add: route_body_def)
    have "\<not> unreserved (CHR ''}'')" "\<not> unreserved (CHR '']'')"
      by (simp_all add: unreserved_def is_letter_def is_digit_def digit_value_def code_def)
    then show "CHR ''}'' \<notin> set ?s" "CHR '']'' \<notin> set ?s"
      using plain_itoa [of sid] by (auto simp: list_all_iff byte_chars)
  qed
  ultimately have "first_value (route_body sid) = Some ?v"
    by (metis first_value_object route_body_text)
  then show ?thesis
    using assms by (simp add: decode_def store_server_id_def store_struct_def store_int_def field_names
        parse_int_itoa)
qed

lemma ascii_uuid: "ascii ''uuid''"
  by (simp add: ascii_def code_def)

lemma uuid_decoded:
  "ascii s \<Longrightarrow> decoded store_uuid (encode_json (JObj [(''uuid'', JStr s)])) [] = Inr s"
  using ascii_uuid by (simp add: decoded_def unmarshal_encode_json maxNestingDepth_def store_uuid_def
      store_struct_def store_string_def field_for_def)

lemma state_decoded:
  "s = ''FINISHED'' \<or> s = ''RUNNING'' \<Longrightarrow>
   decoded store_task_state (encode_json (JObj [(''state'', JStr s)]))
     \<lparr> task_state_name = [], task_message = [] \<rparr> = Inr \<lparr> task_state_name = s, task_message = [] \<rparr>"
  by (auto simp: decoded_def unmarshal_encode_json maxNestingDepth_def store_task_state_def
      store_struct_def store_string_def in_field_def field_names)

text \<open>A poll of a task: it has finished once its time has come.\<close>

lemma fake_poll:
  assumes c: "fake_client c" and tid: "list_all unreserved uuid" "prov_tasks p uuid = Some doneAt"
  obtains c' d where "same_client c c'"
    "do_run fake_world ht c ''GET'' (task_path uuid) None (p, t) = ((c', Inr d), (p, t))"
    "judge_task d = (if t < doneAt then None else Some None)"
proof -
  let ?s = "if t < doneAt then ''RUNNING'' else ''FINISHED''"
  let ?data = "encode_json (JObj [(''state'', JStr ?s)])"
  let ?resp = "\<lparr> resp_status = 200, resp_retry_after = [], resp_body = Inr ?data \<rparr>"
  have serve: "serve t q p = (?resp, p)" and u: "url_parse (req_url q) \<noteq> None"
    if "req_url q = fake_base @ task_path uuid" for q
    using served_path [OF tid(1), of q] that tid(2)
    by (auto simp: task_path_def serve_task_def strip_prefix_def writeJSON_def)
  obtain c' where "same_client c c'" and run:
    "do_run fake_world ht c ''GET'' (task_path uuid) None (p, t) = ((c', Inr (?data, ?resp)), (p, t))"
    by (rule fake_do [OF c _ serve])
      (use u [of "\<lparr> req_method = [], req_url = fake_base @ task_path uuid, req_headers = [], req_body = [] \<rparr>"]
       in simp_all)
  moreover have "judge_task (?data, ?resp) = (if t < doneAt then None else Some None)"
    by (simp add: judge_task_def state_decoded failed_states_def)
  ultimately show thesis using that by blast
qed

lemma fake_wait:
  "fake_client c \<Longrightarrow> list_all unreserved uuid \<Longrightarrow> prov_tasks p uuid = Some doneAt \<Longrightarrow>
   doneAt \<le> t + 2 * second * int (Suc n) \<Longrightarrow>
   \<exists>c' t'. same_client c c' \<and> t \<le> t' \<and>
     web_run fake_world (waitForTask ht (Suc n) c uuid k) (p, t) = web_run fake_world (k c' (Some None)) (p, t')"
proof (induction n arbitrary: c t)
  case 0
  obtain c' d where "same_client c c'" and run:
    "do_run fake_world ht c ''GET'' (task_path uuid) None (p, t + 2 * second) = ((c', Inr d), (p, t + 2 * second))"
    "judge_task d = (if t + 2 * second < doneAt then None else Some None)"
    using fake_poll [OF 0(1,2,3), of ht "t + 2 * second"] by blast
  moreover have "\<not> t + 2 * second < doneAt" "t \<le> t + 2 * second"
    using 0(4) by (simp_all add: second_def)
  ultimately show ?case
    by (intro exI [of _ c'] exI [of _ "t + 2 * second"]) (simp add: run_do_then [OF run(1)])
next
  case (Suc n)
  let ?t = "t + 2 * second"
  obtain c' d where c': "same_client c c'" and run:
    "do_run fake_world ht c ''GET'' (task_path uuid) None (p, ?t) = ((c', Inr d), (p, ?t))"
    "judge_task d = (if ?t < doneAt then None else Some None)"
    using fake_poll [OF Suc.prems(1,2,3), of ht ?t] by blast
  have round: "web_run fake_world (waitForTask ht (Suc (Suc n)) c uuid k) (p, t) =
      (if ?t < doneAt then web_run fake_world (waitForTask ht (Suc n) c' uuid k) (p, ?t)
       else web_run fake_world (k c' (Some None)) (p, ?t))"
    by (subst waitForTask.simps) (simp add: run_do_then [OF run(1)] run(2) del: waitForTask.simps)
  show ?case
  proof (cases "?t < doneAt")
    case True
    have "doneAt \<le> ?t + 2 * second * int (Suc n)"
      using Suc.prems(4) by (simp add: algebra_simps)
    from Suc.IH [OF fake_client_same [OF c' Suc.prems(1)] Suc.prems(2,3) this]
    obtain c'' t' where "same_client c' c''" "?t \<le> t'"
      "web_run fake_world (waitForTask ht (Suc n) c' uuid k) (p, ?t) = web_run fake_world (k c'' (Some None)) (p, t')"
      by blast
    then show ?thesis
      unfolding round using True same_client_trans [OF c']
      by (intro exI [of _ c''] exI [of _ t']) (auto simp: second_def simp del: waitForTask.simps)
  next
    case False
    then show ?thesis
      unfolding round using c' by (intro exI [of _ c'] exI [of _ ?t]) (simp add: second_def)
  qed
qed

lemma retry_one: "parseRetryAfter ht ''1'' now = second"
proof -
  have "trim_space ''1'' = ''1''"
    by (rule trim_space_digits) (simp add: is_digit_def digit_value_def)
  moreover have "atoi ''1'' = Some 1" by (simp add: parse_int_def digit_value_def is_int64_def)
  ultimately show ?thesis by (simp add: parseRetryAfter_def seconds_def second_def wrap64_def)
qed

section \<open>What the provider promises\<close>

text \<open>The account as the operator sees it: who owns the failover IP, and how many routes still fail.\<close>

record account =
  acc_owner :: int
  acc_failures :: nat

definition unavailable :: provider_error where
  "unavailable = \<lparr> pe_class = ErrorClassTransient, pe_status_code = 503, pe_retry_after = second,
     pe_message = ''provider request failed with HTTP 503'' \<rparr>"

fun account_find :: "account \<Rightarrow> (go_error + int \<times> int) \<times> account" where
  "account_find a = (Inr (17, acc_owner a), a)"

fun account_route :: "int \<Rightarrow> account \<Rightarrow> go_error option \<times> account" where
  "account_route sid a =
     (if acc_failures a > 0
      then (Some (ProviderError unavailable), a\<lparr>acc_failures := acc_failures a - 1\<rparr>)
      else (None, a\<lparr>acc_owner := sid\<rparr>))"

type_synonym session = "client \<times> provider \<times> time"

definition account_of :: "session \<Rightarrow> account" where
  "account_of s = (case s of (c, p, t) \<Rightarrow>
     \<lparr> acc_owner = prov_owner p, acc_failures = nat (route_errors p) \<rparr>)"

text \<open>The client's operations on a session, and the sessions it can be in.\<close>

definition session_find ::
  "(string \<Rightarrow> time option) \<Rightarrow> string \<Rightarrow> session \<Rightarrow> (go_error + int \<times> int) \<times> session" where
  "session_find ht ip s = (case s of (c, w) \<Rightarrow>
     case web_run fake_world (client_FindFailoverIP ht c ip (\<lambda>c' r. Done (c', r))) w of
       ((c', r), w') \<Rightarrow> (r, c', w'))"

definition session_route ::
  "(string \<Rightarrow> time option) \<Rightarrow> nat \<Rightarrow> int \<Rightarrow> int \<Rightarrow> session \<Rightarrow> go_error option option \<times> session" where
  "session_route ht n foipID sid s = (case s of (c, w) \<Rightarrow>
     case web_run fake_world (client_RouteFailoverIP ht n c foipID sid (\<lambda>c' r. Done (c', r))) w of
       ((c', r), w') \<Rightarrow> (r, c', w'))"

definition session_ok :: "nat \<Rightarrow> session \<Rightarrow> bool" where
  "session_ok n s \<longleftrightarrow> (case s of (c, p, t) \<Rightarrow>
     fake_client c \<and> is_int64 (prov_owner p) \<and> route_delay p \<le> 2 * second * int n)"

lemma session_find_refines:
  assumes "session_ok n s"
  shows "\<exists>s'. session_find ht ip s = (fst (account_find (account_of s)), s')
    \<and> account_of s' = account_of s \<and> session_ok n s'"
proof -
  obtain c p t where s: "s = (c, p, t)" by (cases s)
  then have c: "fake_client c" "is_int64 (prov_owner p)" using assms by (simp_all add: session_ok_def)
  obtain c' where "same_client c c'"
    "web_run fake_world (client_FindFailoverIP ht c ip (\<lambda>c' r. Done (c', r))) (p, t)
      = web_run fake_world (Done (c', Inr (17, prov_owner p))) (p, t)"
    using fake_find_run [OF c] by blast
  then show ?thesis
    using fake_client_same [of c c'] assms
    by (simp add: s session_find_def session_ok_def account_of_def)
qed

lemma fake_route_request:
  assumes c: "fake_client c" and sid: "is_int64 sid" "sid \<noteq> 0"
  obtains c' data resp p' where "same_client c c'"
    "do_run fake_world ht c ''PATCH'' (route_path c foipID) (Some (route_body sid)) (p, t)
       = ((c', Inr (data, resp)), (p', t))"
    "serve_api ''PATCH'' (route_body sid) t p = (resp, p')" "resp_body resp = Inr data"
proof -
  obtain rest where path: "route_path c foipID = ''/api/v1/users/'' @ rest" "list_all plain_path rest"
    using route_path_plain by blast
  obtain resp p' where r: "serve_api ''PATCH'' (route_body sid) t p = (resp, p')" by fastforce
  then obtain data where data: "resp_body resp = Inr data"
    by (auto simp: serve_api_def status_only_def writeJSON_def Let_def split: if_splits prod.splits)
  have serve: "serve t q p = (resp, p')" and u: "url_parse (req_url q) \<noteq> None"
    if "req_method q = ''PATCH''" "req_url q = fake_base @ route_path c foipID"
      "req_body q = (case Some (route_body sid) of None \<Rightarrow> [] | Some b \<Rightarrow> b)" for q
    using served_user_path [OF path(2) disjI1 [OF refl], of q] that r by (simp_all add: path(1))
  show thesis
    by (rule fake_do [where meth = "''PATCH''" and path = "route_path c foipID"
          and body = "Some (route_body sid)" and ht = ht, OF c _ serve data])
      (use u [of "\<lparr> req_method = ''PATCH'', req_url = fake_base @ route_path c foipID, req_headers = [],
          req_body = route_body sid \<rparr>"] that r data in simp_all)
qed

lemma fake_route_run:
  assumes c: "fake_client c" and p: "is_int64 (prov_owner p)" "route_delay p \<le> 2 * second * int (Suc n)"
    and sid: "is_int64 sid" "sid \<noteq> 0"
  obtains c' p' t' where "same_client c c'" "is_int64 (prov_owner p')" "route_delay p' = route_delay p"
    "web_run fake_world (client_RouteFailoverIP ht (Suc n) c foipID sid k) (p, t)
       = web_run fake_world (k c' (Some (fst (account_route sid (account_of (c, p, t)))))) (p', t')"
    "account_of (c', p', t') = snd (account_route sid (account_of (c, p, t)))"
proof -
  obtain c1 data resp p' where c1: "same_client c c1"
    and run: "do_run fake_world ht c ''PATCH'' (route_path c foipID) (Some (route_body sid)) (p, t)
       = ((c1, Inr (data, resp)), (p', t))"
    and r: "serve_api ''PATCH'' (route_body sid) t p = (resp, p')" "resp_body resp = Inr data"
    using fake_route_request [OF c sid] by blast
  note served = r [unfolded serve_api_def route_body_decoded [OF sid(1)]]
  show thesis
  proof (cases "route_errors p > 0")
    case True
    then have "resp = (status_only 503)\<lparr>resp_retry_after := ''1''\<rparr>"
      and p': "p' = p\<lparr>route_errors := route_errors p - 1\<rparr>"
      using served sid by simp_all
    then have "web_run fake_world (client_RouteFailoverIP ht (Suc n) c foipID sid k) (p, t)
        = web_run fake_world (k c1 (Some (Some (ProviderError unavailable)))) (p', t)"
      by (simp add: client_RouteFailoverIP_def run_do_then [OF run] status_only_def status_error_def
          classifyHTTPError_def retry_one unavailable_def itoa_def nat_text.simps digits_def
          del: waitForTask.simps)
    then show thesis
      using True p p' by (intro that [OF c1, of p' t]) (auto simp: account_of_def)
  next
    case False
    let ?m = "wrap64 (next_task p + 1)"
    let ?uuid = "''task-'' @ itoa ?m"
    have resp: "resp = writeJSON 202 (JObj [(''uuid'', JStr ?uuid)])"
      and p': "p' = p\<lparr>next_task := ?m, route_count := wrap64 (route_count p + 1),
        prov_tasks := (prov_tasks p)(?uuid \<mapsto> t + route_delay p), prov_owner := sid\<rparr>"
      using served sid False by (simp_all add: Let_def)
    have uuid: "list_all unreserved ?uuid"
      using plain_itoa [of ?m] by (simp add: unreserved_def is_letter_def code_def)
    then have "ascii ?uuid"
      by (auto simp: ascii_def list_all_iff unreserved_def is_letter_def is_digit_def digit_value_def
          code_def Let_def split: if_splits)
    then have accepted: "web_run fake_world (client_RouteFailoverIP ht (Suc n) c foipID sid k) (p, t)
        = web_run fake_world (waitForTask ht (Suc n) c1 ?uuid k) (p', t)"
      using r(2) uuid_decoded [of ?uuid]
      by (simp add: client_RouteFailoverIP_def run_do_then [OF run] resp writeJSON_def
          del: waitForTask.simps append.simps)
    have "prov_tasks p' ?uuid = Some (t + route_delay p)" unfolding p' by simp
    moreover have "t + route_delay p \<le> t + 2 * second * int (Suc n)" using p(2) by simp
    ultimately obtain c2 t' where c2: "same_client c1 c2"
      and "web_run fake_world (waitForTask ht (Suc n) c1 ?uuid k) (p', t)
         = web_run fake_world (k c2 (Some None)) (p', t')"
      using fake_wait [OF fake_client_same [OF c1 c] uuid] by blast
    then show thesis
      using False p sid accepted p' by (intro that [OF same_client_trans [OF c1 c2], of p' t'])
        (auto simp: account_of_def simp del: waitForTask.simps)
  qed
qed

lemma session_route_refines:
  assumes ok: "session_ok (Suc n) s" and sid: "is_int64 sid" "sid \<noteq> 0"
  shows "\<exists>s'. session_route ht (Suc n) foipID sid s = (Some (fst (account_route sid (account_of s))), s')
    \<and> account_of s' = snd (account_route sid (account_of s)) \<and> session_ok (Suc n) s'"
proof -
  obtain c p t where s: "s = (c, p, t)" by (cases s)
  then have c: "fake_client c" and p: "is_int64 (prov_owner p)" "route_delay p \<le> 2 * second * int (Suc n)"
    using ok by (simp_all add: session_ok_def)
  show ?thesis
    by (rule fake_route_run [OF c p sid, of ht foipID "\<lambda>c' r. Done (c', r)" t])
      (use fake_client_same c p s in \<open>auto simp: session_route_def session_ok_def simp del: account_route.simps\<close>)
qed

text \<open>The provider of the tests, through the client, is a provider in the sense of the contract.\<close>

interpretation fake_service: provider_contract "session_find ht" "session_route ht (Suc n)"
    "session_ok (Suc n)" "\<lambda>s. acc_owner (account_of s)" for ht n
proof
  fix s ip
  assume "session_ok (Suc n) s"
  from session_find_refines [OF this, of ht ip]
  show "\<exists>fid s'. session_find ht ip s = (Inr (fid, acc_owner (account_of s)), s') \<and> session_ok (Suc n) s'
      \<and> acc_owner (account_of s') = acc_owner (account_of s)"
    by auto
next
  fix s s' sid fid res
  assume "session_ok (Suc n) s" "is_int64 sid" "sid \<noteq> 0" "session_route ht (Suc n) fid sid s = (res, s')"
  with session_route_refines [OF this(1-3), of ht fid]
  show "session_ok (Suc n) s' \<and>
      acc_owner (account_of s') = (if res = Some None then sid else acc_owner (account_of s))"
    by (auto split: if_splits)
qed

section \<open>Properties\<close>

text \<open>
  C12: The client talking to the provider of the tests, requests, tokens, JSON texts and polls
  included, is the abstract account: finding reports its owner, routing fails with a transient
  error while failures are left and moves the owner afterwards.
\<close>

theorem client_and_provider_refine_account:
  assumes "session_ok (Suc n) s" and "is_int64 sid" and "sid \<noteq> 0"
  shows "\<exists>s1 s2.
    session_find ht ip s = (fst (account_find (account_of s)), s1)
      \<and> account_of s1 = snd (account_find (account_of s)) \<and> session_ok (Suc n) s1
    \<and> session_route ht (Suc n) foipID sid s = (Some (fst (account_route sid (account_of s))), s2)
      \<and> account_of s2 = snd (account_route sid (account_of s)) \<and> session_ok (Suc n) s2"
  using session_find_refines [OF assms(1), of ht ip] session_route_refines [OF assms, of ht foipID]
  by auto

text \<open>
  After any number of route attempts the provider reports the requested server if one of them
  succeeded, and otherwise the server it reported before.
\<close>

theorem retried_route_is_reported:
  assumes "session_ok (Suc n) s" and "is_int64 sid" and "sid \<noteq> 0"
    and "retry_route (session_route ht (Suc n)) foipID sid k s = (moved, s')"
  shows "\<exists>fid. fst (session_find ht ip s')
    = Inr (fid, if moved then sid else acc_owner (account_of s))"
  by (rule fake_service.retry_then_find [OF assms])

text \<open>A session of the end-to-end tests: tasks take five seconds, and one route fails first.\<close>

definition test_environment :: "string \<Rightarrow> string" where
  "test_environment name =
     (if name = ''FAKE_PROVIDER_ROUTE_DELAY_SECONDS'' then ''5''
      else if name = ''FAKE_PROVIDER_ROUTE_ERRORS'' then ''1'' else [])"

definition test_provider :: "int \<Rightarrow> provider" where
  "test_provider errors = \<lparr> prov_owner = 0, next_task = 0, route_count = 0, prov_tasks = Map.empty,
     route_delay = 5 * second, route_errors = errors \<rparr>"

definition test_session :: session where
  "test_session = (e2e_client 7 ''token'', test_provider 1, 0)"

lemma test_provider_started:
  "web_run (fake_world\<lparr>world_getenv := test_environment\<rparr>) (start_provider (\<lambda>p addr. Done (p, addr))) w
     = ((test_provider 1, '':8080''), w)"
  by (simp add: start_provider_def envInt_def envString_def test_environment_def test_provider_def
      parse_int_def digit_value_def is_int64_def seconds_def second_def wrap64_def)

lemma test_session_ok: "session_ok (Suc 2) test_session"
  by (simp add: session_ok_def test_session_def e2e_client_fake test_provider_def is_int64_def second_def)

theorem client_and_provider_refine_account_witness:
  "\<exists>s1 s2. session_find (\<lambda>v. None) ''192.0.2.1'' test_session = (Inr (17, 0), s1)
     \<and> session_route (\<lambda>v. None) (Suc 2) 17 42 test_session = (Some (Some (ProviderError unavailable)), s2)"
  using client_and_provider_refine_account [OF test_session_ok, of 42 "\<lambda>v. None" "''192.0.2.1''" 17]
  by (auto simp: is_int64_def test_session_def account_of_def test_provider_def)

lemma test_session_retries:
  "\<exists>s'. retry_route (session_route (\<lambda>v. None) (Suc 2)) 17 42 2 test_session = (True, s')"
proof -
  have sid: "is_int64 42" "(42 :: int) \<noteq> 0" by (simp_all add: is_int64_def)
  obtain s1 where s1: "session_route (\<lambda>v. None) (Suc 2) 17 42 test_session = (Some (Some (ProviderError unavailable)), s1)"
    "acc_failures (account_of s1) = 0" "session_ok (Suc 2) s1"
    using session_route_refines [OF test_session_ok sid, of "\<lambda>v. None" 17]
    by (auto simp: test_session_def account_of_def test_provider_def)
  obtain s2 where "session_route (\<lambda>v. None) (Suc 2) 17 42 s1 = (Some None, s2)"
    using session_route_refines [OF s1(3) sid, of "\<lambda>v. None" 17] s1(2) by auto
  with s1(1) show ?thesis by (intro exI [of _ s2]) (simp add: numeral_2_eq_2)
qed

theorem retried_route_is_reported_witness:
  "\<exists>s' fid. retry_route (session_route (\<lambda>v. None) (Suc 2)) 17 42 2 test_session = (True, s')
     \<and> fst (session_find (\<lambda>v. None) ''192.0.2.1'' s') = Inr (fid, 42)"
proof -
  obtain s' where s': "retry_route (session_route (\<lambda>v. None) (Suc 2)) 17 42 2 test_session = (True, s')"
    using test_session_retries by blast
  with retried_route_is_reported [OF test_session_ok _ _ s'] show ?thesis
    by (fastforce simp: is_int64_def)
qed

text \<open>Complete executions of the client.\<close>

theorem route_success_means_finished_witness:
  "\<exists>es. wsteps (client_RouteFailoverIP (\<lambda>v. None) 3 (e2e_client 7 ''token'') 17 42 (\<lambda>c' res. Done res))
      es (Done (Some None)) \<and> sent ''PATCH'' es = 1"
proof -
  let ?p = "client_RouteFailoverIP (\<lambda>v. None) (Suc 2) (e2e_client 7 ''token'') 17 42 (\<lambda>c' res. Done res)"
  have "fst (web_run fake_world ?p (test_provider 0, 0)) = Some None"
    by (rule fake_route_run [OF e2e_client_fake, of "test_provider 0" 2 42 7 "''token''" "\<lambda>v. None" 17
          "\<lambda>c' res. Done res" 0])
      (simp_all add: test_provider_def is_int64_def second_def account_of_def del: waitForTask.simps)
  then have "wsteps ?p (web_log fake_world ?p (test_provider 0, 0)) (Done (Some None))"
    using web_run_steps [of ?p fake_world "(test_provider 0, 0)"] by simp
  with route_success_means_finished [OF this] show ?thesis by (auto simp: eval_nat_numeral)
qed

theorem found_owner_was_reported_witness:
  "\<exists>es. wsteps (client_FindFailoverIP (\<lambda>v. None) (e2e_client 7 ''token'') ''192.0.2.1'' (\<lambda>c' r. Done r))
      es (Done (Inr (17, 0))) \<and> sent ''PATCH'' es = 0"
proof -
  let ?p = "client_FindFailoverIP (\<lambda>v. None) (e2e_client 7 ''token'') ''192.0.2.1'' (\<lambda>c' r. Done r)"
  have "fst (web_run fake_world ?p (test_provider 0, 0)) = Inr (17, 0)"
    by (rule fake_find_run [OF e2e_client_fake, of "test_provider 0" 7 "''token''" "\<lambda>v. None"
          "''192.0.2.1''" "\<lambda>c' r. Done r" 0])
      (simp_all add: test_provider_def is_int64_def)
  then have "wsteps ?p (web_log fake_world ?p (test_provider 0, 0)) (Done (Inr (17, 0)))"
    using web_run_steps [of ?p fake_world "(test_provider 0, 0)"] by simp
  with found_owner_was_reported [OF this] show ?thesis by blast
qed

theorem token_is_cached_until_expiry_witness:
  "\<exists>es c' tok. wsteps (token (\<lambda>v. None) (e2e_client 7 ''token'') (\<lambda>c' r. Done (c', r))) es
      (Done (c', Inr tok)) \<and> token_outcome (e2e_client 7 ''token'') es (c', Inr tok)"
proof -
  let ?p = "token (\<lambda>v. None) (e2e_client 7 ''token'') (\<lambda>c' r. Done (c', r))"
  obtain c' tok where "fst (web_run fake_world ?p (test_provider 0, 0)) = (c', Inr tok)"
    using fake_token [OF e2e_client_fake, of 7 "''token''" "\<lambda>v. None" "test_provider 0" 0]
    by (metis fst_conv)
  then have "wsteps ?p (web_log fake_world ?p (test_provider 0, 0)) (Done (c', Inr tok))"
    using web_run_steps [of ?p fake_world "(test_provider 0, 0)"] by simp
  with token_is_cached_until_expiry [OF this] show ?thesis by blast
qed

end
