(* ===== verification/Flags.thy ===== *)
theory Flags
  imports Url
begin

text \<open>
  What the binaries use of package \<open>flag\<close>: the flags they declare, \<open>flag.Parse\<close> on the arguments,
  and the values the flags have afterwards.
\<close>

section \<open>Parsing\<close>

text \<open>A flag takes a text or is boolean; the flags of others come with a test of their values.\<close>

datatype flag_kind = TextFlag | BoolFlag | OtherFlag bool "string \<Rightarrow> bool"

definition parse_bool :: "string \<Rightarrow> bool option" where
  "parse_bool s =
     (if s \<in> set [''1'', ''t'', ''T'', ''TRUE'', ''true'', ''True''] then Some True
      else if s \<in> set [''0'', ''f'', ''F'', ''FALSE'', ''false'', ''False''] then Some False
      else None)"

fun takes_value :: "flag_kind \<Rightarrow> bool" where
  "takes_value TextFlag = True"
| "takes_value BoolFlag = False"
| "takes_value (OtherFlag isBool ok) = (\<not> isBool)"

fun value_ok :: "flag_kind \<Rightarrow> string \<Rightarrow> bool" where
  "value_ok TextFlag v = True"
| "value_ok BoolFlag v = (parse_bool v \<noteq> None)"
| "value_ok (OtherFlag isBool ok) v = ok v"

text \<open>
  \<open>flag.Parse\<close> with the error handling of the command line: a value set per flag, the last one
  winning, or the exit code (0 when help is asked for, 2 on an error).
\<close>

type_synonym flag_values = "string \<rightharpoonup> string"

definition flag_name :: "string \<Rightarrow> string option" where
  "flag_name arg =
     (if length arg < 2 \<or> take 1 arg \<noteq> ''-'' then None
      else Some (if take 2 arg = ''--'' then drop 2 arg else drop 1 arg))"

fun parse_flags ::
  "(string \<rightharpoonup> flag_kind) \<Rightarrow> flag_values \<Rightarrow> string list \<Rightarrow> nat + flag_values" where
  "parse_flags known vals [] = Inr vals"
| "parse_flags known vals (arg # args) =
     (case flag_name arg of
        None \<Rightarrow> Inr vals
      | Some nameValue \<Rightarrow>
          if arg = ''--'' then Inr vals
          else if nameValue = [] \<or> take 1 nameValue = ''-'' \<or> take 1 nameValue = ''='' then Inl 2
          else
            (case cut (CHR ''='') nameValue of (name, val, hasValue) \<Rightarrow>
              (case known name of
                 None \<Rightarrow> Inl (if name = ''help'' \<or> name = ''h'' then 0 else 2)
               | Some kind \<Rightarrow>
                   if hasValue then
                     (if value_ok kind val then parse_flags known (vals(name \<mapsto> val)) args else Inl 2)
                   else if \<not> takes_value kind then
                     (if value_ok kind ''true'' then parse_flags known (vals(name \<mapsto> ''true'')) args
                      else Inl 2)
                   else (case args of
                           [] \<Rightarrow> Inl 2
                         | v # args' \<Rightarrow>
                             if value_ok kind v then parse_flags known (vals(name \<mapsto> v)) args'
                             else Inl 2))))"

definition text_flag :: "flag_values \<Rightarrow> string \<Rightarrow> string \<Rightarrow> string" where
  "text_flag vals name preset = (case vals name of None \<Rightarrow> preset | Some v \<Rightarrow> v)"

definition bool_flag :: "flag_values \<Rightarrow> string \<Rightarrow> bool \<Rightarrow> bool" where
  "bool_flag vals name preset =
     (case vals name of None \<Rightarrow> preset
      | Some v \<Rightarrow> (case parse_bool v of None \<Rightarrow> preset | Some b \<Rightarrow> b))"

section \<open>Where a value comes from\<close>

lemma cut_found: "cut sep s = (before, after, True) \<Longrightarrow> s = before @ sep # after"
proof -
  assume "cut sep s = (before, after, True)"
  then have *: "before = takeWhile (\<lambda>c. c \<noteq> sep) s" "after = drop (Suc (length before)) s"
    "sep \<in> set s" by (auto simp: cut_def Let_def)
  then have "s = before @ dropWhile (\<lambda>c. c \<noteq> sep) s" by simp
  moreover have "hd (dropWhile (\<lambda>c. c \<noteq> sep) s) = sep" "dropWhile (\<lambda>c. c \<noteq> sep) s \<noteq> []"
    using *(3) hd_dropWhile [of "\<lambda>c. c \<noteq> sep" s] by (auto simp: dropWhile_eq_Nil_conv)
  ultimately show ?thesis using *(2) by (metis append_eq_conv_conj drop_Suc_Cons drop0 list.collapse
      drop_append append_Nil diff_Suc_1 length_Cons drop_Suc tl_drop)
qed

lemma parse_flags_exit: "parse_flags known vals args = Inl exit \<Longrightarrow> exit = 0 \<or> exit = 2"
  by (induction known vals args rule: parse_flags.induct)
    (auto split: option.splits prod.splits list.splits if_splits)

text \<open>The value of a boolean flag was given with it after an equals sign, or is "true".\<close>

lemma parse_flags_bool:
  assumes "parse_flags known vals args = Inr vals'" "known name = Some BoolFlag"
  shows "vals' name = vals name \<or> vals' name = Some ''true''
    \<or> (\<exists>a \<in> set args. \<exists>v. vals' name = Some v \<and> flag_name a = Some (name @ ''='' @ v))"
  using assms
proof (induction known vals args rule: parse_flags.induct)
  case (2 known vals arg args)
  show ?case
  proof (cases "flag_name arg")
    case None
    then show ?thesis using 2 by simp
  next
    case arg: (Some nv)
    obtain n val hasValue where cut: "cut (CHR ''='') nv = (n, val, hasValue)"
      by (cases "cut (CHR ''='') nv")
    show ?thesis
    proof (cases "known n")
      case None
      then show ?thesis using 2 arg cut by (auto split: if_splits)
    next
      case kind: (Some kind)
      consider "vals' = vals"
        | "arg \<noteq> ''--''" "\<not> (nv = [] \<or> take 1 nv = ''-'' \<or> take 1 nv = ''='')" "hasValue"
            "value_ok kind val" "parse_flags known (vals(n \<mapsto> val)) args = Inr vals'"
        | "arg \<noteq> ''--''" "\<not> (nv = [] \<or> take 1 nv = ''-'' \<or> take 1 nv = ''='')" "\<not> hasValue"
            "\<not> takes_value kind" "value_ok kind ''true''"
            "parse_flags known (vals(n \<mapsto> ''true'')) args = Inr vals'"
        | v args' where "arg \<noteq> ''--''" "\<not> (nv = [] \<or> take 1 nv = ''-'' \<or> take 1 nv = ''='')"
            "\<not> hasValue" "args = v # args'" "takes_value kind" "value_ok kind v"
            "parse_flags known (vals(n \<mapsto> v)) args' = Inr vals'"
        using "2.prems"(1) arg cut kind by (auto split: if_splits list.splits)
      then show ?thesis
      proof cases
        case 2
        have "nv = n @ ''='' @ val" using cut_found [of "CHR ''=''" nv n val] cut 2(3) by simp
        then have "flag_name arg = Some (n @ ''='' @ val)" using arg by simp
        moreover have "vals' name = (vals(n \<mapsto> val)) name \<or> vals' name = Some ''true''
            \<or> (\<exists>a \<in> set args. \<exists>v. vals' name = Some v \<and> flag_name a = Some (name @ ''='' @ v))"
          using "2.IH"(1) [OF arg 2(1,2) cut [symmetric] refl kind 2(3-5)] "2.prems"(2) by simp
        ultimately show ?thesis by (auto split: if_splits)
      next
        case 3
        then have "vals' name = (vals(n \<mapsto> ''true'')) name \<or> vals' name = Some ''true''
            \<or> (\<exists>a \<in> set args. \<exists>v. vals' name = Some v \<and> flag_name a = Some (name @ ''='' @ v))"
          using "2.IH"(2) [OF arg 3(1,2) cut [symmetric] refl kind 3(3-6)] "2.prems"(2) by simp
        then show ?thesis by (auto split: if_splits)
      next
        case 4
        then have "n \<noteq> name" using kind "2.prems"(2) by auto
        moreover have "vals' name = (vals(n \<mapsto> v)) name \<or> vals' name = Some ''true''
            \<or> (\<exists>a \<in> set args'. \<exists>v. vals' name = Some v \<and> flag_name a = Some (name @ ''='' @ v))"
          using "2.IH"(3) [OF arg 4(1,2) cut [symmetric] refl kind 4(3) _ 4(4) 4(6,7)] 4(5) "2.prems"(2)
          by simp
        ultimately show ?thesis using 4(4) by auto
      qed simp
    qed
  qed
qed simp

end
