(* ===== verification/Netcup_Auth.thy ===== *)
theory Netcup_Auth
  imports Netcup_Client Flags
begin

text \<open>
  The token helper (\<open>cmd/netcup-auth/main.go\<close>): the OAuth 2.0 device flow that yields the refresh
  token and the user ID of the operator's secret.  A body whose read fails is used as far as it
  was read, which is the argument \<open>partial\<close>.
\<close>

definition deviceAuthURL :: string where
  "deviceAuthURL = ''https://www.servercontrolpanel.de/realms/scp/protocol/openid-connect/auth/device''"

definition auth_tokenURL :: string where
  "auth_tokenURL = ''https://www.servercontrolpanel.de/realms/scp/protocol/openid-connect/token''"

definition userInfoURL :: string where
  "userInfoURL = ''https://www.servercontrolpanel.de/realms/scp/protocol/openid-connect/userinfo''"

definition auth_clientID :: string where "auth_clientID = ''scp''"

definition post_form :: "string \<Rightarrow> (string \<times> string) list \<Rightarrow> http_request" where
  "post_form u values =
     \<lparr> req_method = ''POST'', req_url = u,
       req_headers = [(''Content-Type'', ''application/x-www-form-urlencoded'')],
       req_body = encode_values values \<rparr>"

definition read_body :: "(http_response \<Rightarrow> string) \<Rightarrow> http_response \<Rightarrow> string" where
  "read_body partial resp = (case resp_body resp of Inl e \<Rightarrow> partial resp | Inr data \<Rightarrow> data)"

section \<open>Starting the flow\<close>

record device_response =
  dev_code :: string
  dev_user_code :: string
  dev_verification_uri :: string
  dev_expires_in :: int
  dev_interval :: int

definition store_device_response :: "device_response store" where
  "store_device_response = store_struct
     [(''device_code'', in_field dev_code (\<lambda>x r. r\<lparr>dev_code := x\<rparr>) store_string),
      (''user_code'', in_field dev_user_code (\<lambda>x r. r\<lparr>dev_user_code := x\<rparr>) store_string),
      (''verification_uri_complete'',
         in_field dev_verification_uri (\<lambda>x r. r\<lparr>dev_verification_uri := x\<rparr>) store_string),
      (''expires_in'', in_field dev_expires_in (\<lambda>x r. r\<lparr>dev_expires_in := x\<rparr>) store_int),
      (''interval'', in_field dev_interval (\<lambda>x r. r\<lparr>dev_interval := x\<rparr>) store_int)]"

definition no_device :: device_response where
  "no_device = \<lparr> dev_code = [], dev_user_code = [], dev_verification_uri = [], dev_expires_in = 0,
     dev_interval = 0 \<rparr>"

definition device_request :: http_request where
  "device_request = post_form deviceAuthURL
     [(''client_id'', auth_clientID), (''scope'', ''offline_access openid'')]"

definition startDeviceFlow ::
  "(http_response \<Rightarrow> string) \<Rightarrow> (go_error + device_response \<Rightarrow> 'a web) \<Rightarrow> 'a web" where
  "startDeviceFlow partial k =
     Send device_request (\<lambda>r. case r of
       Inl e \<Rightarrow> k (Inl e)
     | Inr resp \<Rightarrow>
         let data = read_body partial resp in
         if resp_status resp div 100 \<noteq> 2 then
           k (Inl (GoError (''HTTP '' @ itoa (resp_status resp) @ '': '' @ data)))
         else case decoded store_device_response data no_device of
                Inl e \<Rightarrow> k (Inl (Wrapped ''parsing device response: '' e))
              | Inr d \<Rightarrow> k (Inr d))"

section \<open>Polling for the token\<close>

record auth_token =
  auth_access :: string
  auth_refresh :: string

definition store_auth_token :: "auth_token store" where
  "store_auth_token = store_struct
     [(''access_token'', in_field auth_access (\<lambda>x r. r\<lparr>auth_access := x\<rparr>) store_string),
      (''refresh_token'', in_field auth_refresh (\<lambda>x r. r\<lparr>auth_refresh := x\<rparr>) store_string)]"

definition store_error :: "string store" where
  "store_error = store_struct [(''error'', store_string)]"

text \<open>The result of one poll; \<open>Pending\<close> is the error \<open>errAuthPending\<close>.\<close>

datatype poll_result = Granted auth_token | Pending | PollError go_error

definition poll_request :: "string \<Rightarrow> http_request" where
  "poll_request deviceCode = post_form auth_tokenURL
     [(''grant_type'', ''urn:ietf:params:oauth:grant-type:device_code''),
      (''device_code'', deviceCode), (''client_id'', auth_clientID)]"

definition judge_poll :: "int \<Rightarrow> string \<Rightarrow> poll_result" where
  "judge_poll status data =
     (if status div 100 = 2 then
        (case decoded store_auth_token data \<lparr> auth_access = [], auth_refresh = [] \<rparr> of
           Inl e \<Rightarrow> PollError (Wrapped ''parsing token: '' e)
         | Inr t \<Rightarrow> Granted t)
      else
        let err = fst (unmarshal store_error data []) in
        if err = ''authorization_pending'' \<or> err = ''slow_down'' then Pending
        else if err = ''access_denied'' then PollError (GoError ''access denied by user'')
        else if err = ''expired_token'' then
          PollError (GoError (''device code expired '' @ map byte [226, 128, 148] @ '' please run again''))
        else PollError (GoError (''token error '' @ quote err @ '': '' @ data)))"

definition pollOnce ::
  "(http_response \<Rightarrow> string) \<Rightarrow> string \<Rightarrow> (poll_result \<Rightarrow> 'a web) \<Rightarrow> 'a web" where
  "pollOnce partial deviceCode k =
     Send (poll_request deviceCode) (\<lambda>r. case r of
       Inl e \<Rightarrow> k (PollError e)
     | Inr resp \<Rightarrow> k (judge_poll (resp_status resp) (read_body partial resp)))"

text \<open>The loop of \<open>pollForToken\<close>; \<open>None\<close> says that it is still polling after \<open>n\<close> rounds.\<close>

fun poll_loop ::
  "(http_response \<Rightarrow> string) \<Rightarrow> nat \<Rightarrow> string \<Rightarrow> duration \<Rightarrow> time
     \<Rightarrow> ((go_error + auth_token) option \<Rightarrow> 'a web) \<Rightarrow> 'a web" where
  "poll_loop partial 0 deviceCode interval deadline k = k None"
| "poll_loop partial (Suc n) deviceCode interval deadline k =
     Clock (\<lambda>now.
       if now < deadline then
         SleepFor interval (pollOnce partial deviceCode (\<lambda>r. case r of
           Granted t \<Rightarrow> k (Some (Inr t))
         | PollError e \<Rightarrow> k (Some (Inl e))
         | Pending \<Rightarrow> poll_loop partial n deviceCode interval deadline k))
       else k (Some (Inl (GoError ''timed out waiting for authorization''))))"

definition pollForToken ::
  "(http_response \<Rightarrow> string) \<Rightarrow> nat \<Rightarrow> string \<Rightarrow> int \<Rightarrow> int
     \<Rightarrow> ((go_error + auth_token) option \<Rightarrow> 'a web) \<Rightarrow> 'a web" where
  "pollForToken partial n deviceCode intervalSec expiresSec k =
     Clock (\<lambda>now. poll_loop partial n deviceCode (seconds intervalSec) (now + seconds expiresSec) k)"

section \<open>The user\<close>

text \<open>A map of raw values: of equal keys the last one counts.\<close>

definition raw_map :: "json \<Rightarrow> (string \<rightharpoonup> json) option" where
  "raw_map v =
     (case v of JNull \<Rightarrow> Some Map.empty | JObj ms \<Rightarrow> Some (map_of (rev ms)) | _ \<Rightarrow> None)"

definition user_request :: "string \<Rightarrow> http_request" where
  "user_request accessToken =
     \<lparr> req_method = ''GET'', req_url = userInfoURL,
       req_headers = [(''Authorization'', ''Bearer '' @ accessToken)], req_body = [] \<rparr>"

definition user_id :: "string \<Rightarrow> go_error + string" where
  "user_id data =
     (case Option.bind (parse_json data) raw_map of
        None \<Rightarrow> Inl (Wrapped ''parsing userinfo: '' json_error)
      | Some info \<Rightarrow>
          (case (case info ''id'' of Some raw \<Rightarrow> Some raw | None \<Rightarrow> info ''sub'') of
             None \<Rightarrow> Inl (GoError (''userinfo response has no '' @ quote ''id'' @ '' or '' @ quote ''sub'' @ '' field''))
           | Some raw \<Rightarrow>
               (case store_string raw [] of (i, ok) \<Rightarrow>
                  if ok then Inr i else Inl (Wrapped ''parsing user ID: '' json_error))))"

definition fetchUserID ::
  "(http_response \<Rightarrow> string) \<Rightarrow> string \<Rightarrow> (go_error + string \<Rightarrow> 'a web) \<Rightarrow> 'a web" where
  "fetchUserID partial accessToken k =
     Send (user_request accessToken) (\<lambda>r. case r of
       Inl e \<Rightarrow> k (Inl e)
     | Inr resp \<Rightarrow>
         let data = read_body partial resp in
         if resp_status resp div 100 \<noteq> 2 then
           k (Inl (GoError (''userinfo HTTP '' @ itoa (resp_status resp) @ '': '' @ data)))
         else k (user_id data))"

section \<open>The program\<close>

text \<open>The command that is printed for the operator.\<close>

definition kubectl_lines :: "string \<Rightarrow> string \<Rightarrow> string \<Rightarrow> string \<Rightarrow> string list" where
  "kubectl_lines namespace secretName userID refreshToken =
     [''  kubectl create secret generic '' @ secretName @ '' '' @ [byte 92]]
     @ (if namespace \<noteq> '''' then [''    --namespace='' @ namespace @ '' '' @ [byte 92]] else [])
     @ [''    --from-literal=userId='' @ userID @ '' '' @ [byte 92],
        ''    --from-literal=refreshToken='' @ [byte 39] @ refreshToken @ [byte 39]]"

definition success_lines :: "string \<Rightarrow> string \<Rightarrow> string \<Rightarrow> string \<Rightarrow> string list" where
  "success_lines namespace secretName userID refreshToken =
     ['''', ''Success!'', '''', ''User ID:       '' @ userID, ''Create the Kubernetes secret with:'', '''']
     @ kubectl_lines namespace secretName userID refreshToken @ ['''']"

text \<open>The command that opens a browser, by operating system, and what is printed if it starts.\<close>

definition browser_command :: "string \<Rightarrow> string option" where
  "browser_command goos =
     (if goos = ''linux'' then Some ''xdg-open'' else if goos = ''darwin'' then Some ''open'' else None)"

definition openBrowser ::
  "string \<Rightarrow> (string \<times> string \<Rightarrow> bool) \<Rightarrow> string \<Rightarrow> (string \<times> string) list \<times> string list" where
  "openBrowser goos starts u =
     (case browser_command goos of
        None \<Rightarrow> ([], [])
      | Some cmd \<Rightarrow> ([(cmd, u)], if starts (cmd, u) then [''(opened in browser)''] else []))"

text \<open>
  How the process ends: the commands it tried to start, the lines of its output, the message of
  \<open>fatal\<close>, and the exit code.  What package \<open>flag\<close> prints about wrong arguments is left out.
\<close>

record auth_outcome =
  out_started :: "(string \<times> string) list"
  out_shown :: "string list"
  out_error :: "string option"
  out_exit :: nat

definition fatal :: "(string \<times> string) list \<Rightarrow> string list \<Rightarrow> string \<Rightarrow> go_error \<Rightarrow> auth_outcome" where
  "fatal started shown what e =
     \<lparr> out_started = started, out_shown = shown,
       out_error = Some (''error: '' @ what @ '': '' @ error_text e), out_exit = 1 \<rparr>"

definition auth_flags :: "string \<rightharpoonup> flag_kind" where
  "auth_flags = [''namespace'' \<mapsto> TextFlag, ''secret-name'' \<mapsto> TextFlag]"

definition auth_report :: "flag_values \<Rightarrow> (string \<times> string) list \<Rightarrow> string list \<Rightarrow> auth_token
    \<Rightarrow> go_error + string \<Rightarrow> auth_outcome" where
  "auth_report vals started shown tok r =
     (case r of
        Inl e \<Rightarrow> fatal started shown ''fetching user ID'' e
      | Inr userID \<Rightarrow>
          \<lparr> out_started = started,
            out_shown = shown @ success_lines (text_flag vals ''namespace'' '''')
              (text_flag vals ''secret-name'' ''netcup-scp-credentials'') userID (auth_refresh tok),
            out_error = None, out_exit = 0 \<rparr>)"

text \<open>What is printed before the polls.\<close>

definition login_lines :: "string \<Rightarrow> (string \<times> string \<Rightarrow> bool) \<Rightarrow> string \<Rightarrow> string list" where
  "login_lines goos starts u =
     [''Open this URL in your browser and log in:'', '''', ''  '' @ u, '''']
     @ snd (openBrowser goos starts u)
     @ [''Waiting for you to complete authorization in the browser...'']"

text \<open>\<open>main\<close>; \<open>None\<close> as in the loop.\<close>

definition auth_main ::
  "(http_response \<Rightarrow> string) \<Rightarrow> nat \<Rightarrow> string \<Rightarrow> (string \<times> string \<Rightarrow> bool) \<Rightarrow> string list
     \<Rightarrow> (auth_outcome option \<Rightarrow> 'a web) \<Rightarrow> 'a web" where
  "auth_main partial n goos starts args k =
     (case parse_flags auth_flags Map.empty args of
        Inl exit \<Rightarrow>
          k (Some \<lparr> out_started = [], out_shown = [], out_error = None, out_exit = exit \<rparr>)
      | Inr vals \<Rightarrow>
          startDeviceFlow partial (\<lambda>r. case r of
            Inl e \<Rightarrow> k (Some (fatal [] [] ''starting device flow'' e))
          | Inr device \<Rightarrow>
              let uri = dev_verification_uri device;
                  started = fst (openBrowser goos starts uri);
                  shown = login_lines goos starts uri in
              pollForToken partial n (dev_code device) (dev_interval device) (dev_expires_in device) (\<lambda>r. case r of
                None \<Rightarrow> k None
              | Some (Inl e) \<Rightarrow> k (Some (fatal started shown ''polling for token'' e))
              | Some (Inr tok) \<Rightarrow>
                  fetchUserID partial (auth_access tok)
                    (\<lambda>r. k (Some (auth_report vals started shown tok r))))))"

section \<open>Executions\<close>

text \<open>The last poll before the end was answered with this token.\<close>

definition granted_by :: "(http_response \<Rightarrow> string) \<Rightarrow> string \<Rightarrow> web_event list \<Rightarrow> auth_token \<Rightarrow> bool" where
  "granted_by partial deviceCode es t \<longleftrightarrow>
     (\<exists>resp. WSend (poll_request deviceCode) (Inr resp) \<in> set es
        \<and> judge_poll (resp_status resp) (read_body partial resp) = Granted t)"

definition polled ::
  "(http_response \<Rightarrow> string) \<Rightarrow> string \<Rightarrow> duration \<Rightarrow> web_event list \<Rightarrow> (go_error + auth_token) option \<Rightarrow> bool"
where
  "polled partial deviceCode interval es r \<longleftrightarrow>
     (\<forall>d. WSleep d \<in> set es \<longrightarrow> d = interval)
     \<and> (\<forall>q a. WSend q a \<in> set es \<longrightarrow> q = poll_request deviceCode)
     \<and> (\<forall>t. r = Some (Inr t) \<longrightarrow> granted_by partial deviceCode es t)"

lemma polled_later:
  "polled partial deviceCode interval es r \<Longrightarrow>
   polled partial deviceCode interval (WClock now # WSleep interval # WSend (poll_request deviceCode) a # es) r"
  unfolding polled_def granted_by_def by auto

lemma wpost_poll_loop:
  assumes "\<And>es r. polled partial deviceCode interval es r \<Longrightarrow> wpost Q (tr @ es) (k r)"
  shows "wpost Q tr (poll_loop partial n deviceCode interval deadline k)"
  using assms
proof (induction n arbitrary: tr)
  case 0
  then show ?case using 0 [of "[]" None] by (simp add: polled_def)
next
  case (Suc n)
  have again: "wpost Q (tr @ [WClock now, WSleep interval, WSend (poll_request deviceCode) a])
      (poll_loop partial n deviceCode interval deadline k)" for now a
  proof (rule Suc.IH)
    fix es r
    assume "polled partial deviceCode interval es r"
    from Suc.prems [OF polled_later [OF this, of now a]]
    show "wpost Q ((tr @ [WClock now, WSleep interval, WSend (poll_request deviceCode) a]) @ es) (k r)"
      by simp
  qed
  have stop: "wpost Q (tr @ [WClock now, WSleep interval, WSend (poll_request deviceCode) a]) (k r)"
    if "\<And>t. r = Some (Inr t) \<Longrightarrow>
        granted_by partial deviceCode [WClock now, WSleep interval, WSend (poll_request deviceCode) a] t"
    for now a r
    by (rule Suc.prems) (use that in \<open>auto simp: polled_def\<close>)
  have over: "wpost Q (tr @ [WClock now]) (k (Some (Inl e)))" for now e
    using Suc.prems [of "[WClock now]" "Some (Inl e)"] by (simp add: polled_def)
  show ?case
    using over
    by (auto simp: pollOnce_def split: sum.split poll_result.split intro!: stop again)
      (auto simp: granted_by_def)
qed

text \<open>The clock does not run backwards, and a sleep takes its time.\<close>

definition ticks :: "'w world \<Rightarrow> bool" where
  "ticks W \<longleftrightarrow>
     (\<forall>d w. world_now W w + max 0 d \<le> world_now W (world_sleep W d w))
     \<and> (\<forall>q w. world_now W w \<le> world_now W (snd (world_serve W q w)))"

lemma poll_loop_ends:
  assumes W: "ticks W" and pos: "0 < interval"
  shows "deadline \<le> world_now W w + interval * int n \<Longrightarrow>
    fst (web_run W (poll_loop partial (Suc n) deviceCode interval deadline Done) w) \<noteq> None"
proof (induction n arbitrary: w)
  case (Suc n)
  obtain r w' where send: "world_serve W (poll_request deviceCode) (world_sleep W interval w) = (r, w')"
    by fastforce
  have "world_now W w + interval \<le> world_now W (world_sleep W interval w)"
    using W pos unfolding ticks_def by (metis max.absorb2 less_imp_le)
  moreover have "world_now W (world_sleep W interval w) \<le> world_now W w'"
    using W send unfolding ticks_def by (metis snd_conv)
  ultimately have "deadline \<le> world_now W w' + interval * int n"
    using Suc.prems by (simp add: algebra_simps)
  then have "fst (web_run W (poll_loop partial (Suc n) deviceCode interval deadline Done) w') \<noteq> None"
    by (rule Suc.IH)
  then show ?case
    by (subst poll_loop.simps)
      (auto simp: pollOnce_def send simp del: poll_loop.simps split: sum.split poll_result.split)
qed simp

section \<open>Properties\<close>

text \<open>
  Polling for the token ends: with a positive interval, as many rounds as intervals fit
  before the code expires, and one more, give a token or an error.
\<close>

theorem polling_ends_with_the_code:
  assumes "ticks W" and "0 < seconds intervalSec"
    and "seconds expiresSec \<le> seconds intervalSec * int n"
  shows "fst (web_run W (pollForToken partial (Suc n) deviceCode intervalSec expiresSec Done) w) \<noteq> None"
  using poll_loop_ends [OF assms(1,2), of "world_now W w + seconds expiresSec" w n partial deviceCode] assms(3)
  by (simp add: pollForToken_def del: poll_loop.simps)

definition pending_world :: "time world" where
  "pending_world =
     \<lparr> world_now = (\<lambda>t. t),
       world_serve = (\<lambda>q t. (Inr \<lparr> resp_status = 400, resp_retry_after = [],
         resp_body = Inr (encode_json (JObj [(''error'', JStr ''slow_down'')])) \<rparr>, t)),
       world_after = (\<lambda>d t. (None, t + d)), world_sleep = (\<lambda>d t. t + max 0 d), world_getenv = (\<lambda>n. []) \<rparr>"

theorem polling_ends_with_the_code_witness:
  "fst (web_run pending_world (pollForToken (\<lambda>r. []) (Suc 120) ''code'' 5 600 Done) 0) \<noteq> None"
  by (rule polling_ends_with_the_code)
    (simp_all add: ticks_def pending_world_def seconds_def second_def wrap64_def)

text \<open>
  Every poll waits exactly the interval the server gave, after a \<open>slow_down\<close> answer as after
  any other; a token that is returned was granted to one of the polls.
\<close>

theorem polls_keep_their_interval:
  assumes "wsteps (pollForToken partial n deviceCode intervalSec expiresSec Done) es (Done r)"
  shows "polled partial deviceCode (seconds intervalSec) es r"
proof (rule wpost_result [OF _ assms])
  have first: "polled partial deviceCode interval es r \<Longrightarrow>
      polled partial deviceCode interval (WClock now # es) r" for interval es r now
    by (auto simp: polled_def granted_by_def)
  show "wpost (polled partial deviceCode (seconds intervalSec)) []
      (pollForToken partial n deviceCode intervalSec expiresSec Done)"
    by (auto simp: pollForToken_def intro!: wpost_poll_loop dest: first)
qed

theorem polls_keep_their_interval_witness:
  "\<exists>es r. wsteps (pollForToken (\<lambda>r. []) 3 ''code'' 5 600 Done) es (Done r)
     \<and> polled (\<lambda>r. []) ''code'' (5 * second) es r"
proof -
  let ?p = "pollForToken (\<lambda>r. []) 3 ''code'' 5 600 Done"
  have "seconds 5 = 5 * second" by (simp add: seconds_def second_def wrap64_def)
  with polls_keep_their_interval [OF web_run_steps [of ?p pending_world 0]] web_run_steps [of ?p pending_world 0]
  show ?thesis by metis
qed

text \<open>
  In the calls \<open>es\<close> the server started the flow with \<open>d\<close>, granted \<open>t\<close> to a poll for the device code
  of \<open>d\<close>, and named the user to a request with the access token of \<open>t\<close>.
\<close>

definition flow_started :: "(http_response \<Rightarrow> string) \<Rightarrow> web_event list \<Rightarrow> device_response \<Rightarrow> bool" where
  "flow_started partial es d \<longleftrightarrow>
     (\<exists>resp. WSend device_request (Inr resp) \<in> set es \<and> resp_status resp div 100 = 2
        \<and> decoded store_device_response (read_body partial resp) no_device = Inr d)"

definition authorized ::
  "(http_response \<Rightarrow> string) \<Rightarrow> web_event list \<Rightarrow> device_response \<Rightarrow> auth_token \<Rightarrow> string \<Rightarrow> bool" where
  "authorized partial es d t userID \<longleftrightarrow>
     flow_started partial es d \<and> granted_by partial (dev_code d) es t
     \<and> (\<exists>resp. WSend (user_request (auth_access t)) (Inr resp) \<in> set es
          \<and> resp_status resp div 100 = 2 \<and> user_id (read_body partial resp) = Inr userID)"

definition outcome_ok :: "(http_response \<Rightarrow> string) \<Rightarrow> string \<Rightarrow> (string \<times> string \<Rightarrow> bool) \<Rightarrow> flag_values
    \<Rightarrow> web_event list \<Rightarrow> auth_outcome \<Rightarrow> bool" where
  "outcome_ok partial goos starts vals es out \<longleftrightarrow>
     (if out_exit out = 0 then
        out_error out = None \<and>
        (\<exists>d t userID. authorized partial es d t userID
           \<and> out_started out = fst (openBrowser goos starts (dev_verification_uri d))
           \<and> out_shown out = login_lines goos starts (dev_verification_uri d)
               @ success_lines (text_flag vals ''namespace'' '''')
                   (text_flag vals ''secret-name'' ''netcup-scp-credentials'') userID (auth_refresh t))
      else
        out_exit out = 1 \<and> out_error out \<noteq> None \<and>
        (out_started out = [] \<and> out_shown out = []
         \<or> (\<exists>d. flow_started partial es d
              \<and> out_started out = fst (openBrowser goos starts (dev_verification_uri d))
              \<and> out_shown out = login_lines goos starts (dev_verification_uri d))))"

definition result_ok :: "(http_response \<Rightarrow> string) \<Rightarrow> string \<Rightarrow> (string \<times> string \<Rightarrow> bool) \<Rightarrow> flag_values
    \<Rightarrow> web_event list \<Rightarrow> auth_outcome option \<Rightarrow> bool" where
  "result_ok partial goos starts vals es r \<longleftrightarrow>
     (\<forall>out. r = Some out \<longrightarrow> outcome_ok partial goos starts vals es out)"

lemma result_ok_fatal:
  "result_ok partial goos starts vals es None"
  "result_ok partial goos starts vals es (Some (fatal [] [] what e))"
  "flow_started partial es d \<Longrightarrow> result_ok partial goos starts vals es (Some (fatal
     (fst (openBrowser goos starts (dev_verification_uri d)))
     (login_lines goos starts (dev_verification_uri d)) what e))"
  by (auto simp: result_ok_def outcome_ok_def fatal_def)

lemma granted_append: "granted_by partial dc es t \<Longrightarrow> granted_by partial dc (es0 @ es @ es') t"
  by (auto simp: granted_by_def)

lemma flow_append: "flow_started partial es d \<Longrightarrow> flow_started partial (es @ es') d"
  by (auto simp: flow_started_def)

lemma wpost_fetchUserID:
  assumes flow: "flow_started partial tr d" and granted: "granted_by partial (dev_code d) tr t"
  shows "wpost (result_ok partial goos starts vals) tr
    (fetchUserID partial (auth_access t) (\<lambda>r. Done (Some (auth_report vals
       (fst (openBrowser goos starts (dev_verification_uri d)))
       (login_lines goos starts (dev_verification_uri d)) t r))))"
proof -
  have "flow_started partial (tr @ [e]) d" "granted_by partial (dev_code d) (tr @ [e]) t" for e
    using flow_append [OF flow] granted_append [OF granted, of "[]"] by simp_all
  moreover from this have "authorized partial (tr @ [WSend (user_request (auth_access t)) (Inr resp)]) d t userID"
    if "resp_status resp div 100 = 2" "user_id (read_body partial resp) = Inr userID" for resp userID
    using that by (auto simp: authorized_def)
  ultimately show ?thesis
    by (auto simp: fetchUserID_def auth_report_def Let_def result_ok_fatal split: sum.split)
      (simp add: result_ok_def outcome_ok_def, blast)
qed

lemma flow_outcome:
  assumes "parse_flags auth_flags Map.empty args = Inr vals"
    and "wsteps (auth_main partial n goos starts args Done) es (Done (Some out))"
  shows "outcome_ok partial goos starts vals es out"
proof -
  let ?Q = "result_ok partial goos starts vals"
  have poll: "wpost ?Q tr (pollForToken partial n (dev_code d) i x (\<lambda>r. case r of
        None \<Rightarrow> Done None
      | Some (Inl e) \<Rightarrow> Done (Some (fatal (fst (openBrowser goos starts (dev_verification_uri d)))
          (login_lines goos starts (dev_verification_uri d)) ''polling for token'' e))
      | Some (Inr tok) \<Rightarrow> fetchUserID partial (auth_access tok) (\<lambda>r. Done (Some (auth_report vals
          (fst (openBrowser goos starts (dev_verification_uri d)))
          (login_lines goos starts (dev_verification_uri d)) tok r)))))"
    if flow: "flow_started partial tr d" for tr d i x
  proof -
    have later: "granted_by partial (dev_code d) (tr @ WClock t # es) tok"
      if "granted_by partial (dev_code d) es tok" for es t tok
      using that by (auto simp: granted_by_def)
    show ?thesis
      unfolding pollForToken_def wpost.simps
    proof (intro allI wpost_poll_loop)
      fix t es r assume r: "polled partial (dev_code d) (seconds i) es r"
      have flow': "flow_started partial ((tr @ [WClock t]) @ es) d"
        using flow_append [OF flow] by simp
      show "wpost ?Q ((tr @ [WClock t]) @ es) (case r of None \<Rightarrow> Done None
        | Some (Inl e) \<Rightarrow> Done (Some (fatal (fst (openBrowser goos starts (dev_verification_uri d)))
            (login_lines goos starts (dev_verification_uri d)) ''polling for token'' e))
        | Some (Inr tok) \<Rightarrow> fetchUserID partial (auth_access tok) (\<lambda>r. Done (Some (auth_report vals
            (fst (openBrowser goos starts (dev_verification_uri d)))
            (login_lines goos starts (dev_verification_uri d)) tok r))))"
        using r later wpost_fetchUserID [OF flow'] result_ok_fatal(3) [OF flow']
        by (auto simp: polled_def result_ok_fatal(1) split: option.split sum.split)
    qed
  qed
  have "wpost ?Q [] (auth_main partial n goos starts args Done)"
    by (auto simp: auth_main_def assms(1) startDeviceFlow_def Let_def flow_started_def
        result_ok_fatal simp del: parse_flags.simps intro!: poll split: sum.split)
  from wpost_result [OF this assms(2)] show ?thesis by (simp add: result_ok_def)
qed

text \<open>
  C15: The token helper prints credentials that belong together, or none.  Arguments that package
  flag does not accept end it at once, with exit code 2 (0 for -h and -help): it asks no server and
  prints nothing of its own.  Otherwise it exits with 0 only after the server started the flow,
  granted a token to a poll for the device code of this run, and named the user to a request with
  the access token granted; what it prints then ends in the command for exactly this user and
  refresh token.  Else it exits with 1 and a message, having printed no more than the request to log
  in.  A browser is started only on the address the server gave.
\<close>

theorem printed_credentials_belong_together:
  assumes "wsteps (auth_main partial n goos starts args Done) es (Done (Some out))"
  shows "case parse_flags auth_flags Map.empty args of
      Inl exit \<Rightarrow> (exit = 0 \<or> exit = 2) \<and> es = []
        \<and> out = \<lparr> out_started = [], out_shown = [], out_error = None, out_exit = exit \<rparr>
    | Inr vals \<Rightarrow> outcome_ok partial goos starts vals es out"
proof (cases "parse_flags auth_flags Map.empty args")
  case (Inl exit)
  have "wpost (\<lambda>es r. es = [] \<and> r = Some \<lparr> out_started = [], out_shown = [], out_error = None, out_exit = exit \<rparr>)
      [] (auth_main partial n goos starts args Done)"
    by (simp add: auth_main_def Inl del: parse_flags.simps)
  from wpost_result [OF this assms] parse_flags_exit [OF Inl] Inl show ?thesis by simp
next
  case (Inr vals)
  with flow_outcome [OF Inr assms] show ?thesis by simp
qed

text \<open>A server that answers every request with one object that has all the members.\<close>

definition session_value :: json where
  "session_value = JObj [(''device_code'', JStr ''d''), (''interval'', JNum ''5''),
     (''expires_in'', JNum ''600''), (''access_token'', JStr ''a''), (''refresh_token'', JStr ''r''),
     (''id'', JStr ''7'')]"

definition session_world :: "time world" where
  "session_world = pending_world\<lparr>world_serve := \<lambda>q t.
     (Inr \<lparr> resp_status = 200, resp_retry_after = [], resp_body = Inr (encode_json session_value) \<rparr>, t)\<rparr>"

lemma session_numbers:
  "is_number ''5''" "is_number ''600''" "number_char (CHR ''5'')" "number_char (CHR ''6'')"
  "number_char (CHR ''0'')" "parse_int ''5'' = Some 5" "parse_int ''600'' = Some 600"
  by (simp_all add: is_number_def is_fraction_def is_exponent_def number_char_def is_digit_def
      digit_value_def parse_int_def is_int64_def)

lemma session_plain: "plain_json session_value" "json_depth session_value \<le> maxNestingDepth"
  by (simp_all add: session_value_def session_numbers ascii_def code_def maxNestingDepth_def)

lemma session_decoded:
  "decoded store_device_response (encode_json session_value) no_device
     = Inr \<lparr> dev_code = ''d'', dev_user_code = [], dev_verification_uri = [], dev_expires_in = 600,
         dev_interval = 5 \<rparr>"
  "judge_poll 200 (encode_json session_value) = Granted \<lparr> auth_access = ''a'', auth_refresh = ''r'' \<rparr>"
  "user_id (encode_json session_value) = Inr ''7''"
  using session_plain
  by (simp_all add: decoded_def judge_poll_def user_id_def raw_map_def unmarshal_encode_json
      parse_encode_json)
    (simp_all add: session_value_def no_device_def store_device_response_def store_auth_token_def
      store_struct_def store_string_def store_int_def in_field_def field_names session_numbers)

text \<open>On Linux, where the browser starts.\<close>

definition session_outcome :: auth_outcome where
  "session_outcome = \<lparr> out_started = [(''xdg-open'', '''')],
     out_shown = login_lines ''linux'' (\<lambda>c. True) '''' @ success_lines ''ns'' ''netcup-scp-credentials'' ''7'' ''r'',
     out_error = None, out_exit = 0 \<rparr>"

theorem printed_credentials_belong_together_witness:
  "\<exists>es vals. wsteps (auth_main (\<lambda>r. []) 3 ''linux'' (\<lambda>c. True) [''-namespace'', ''ns''] Done) es
       (Done (Some session_outcome))
     \<and> outcome_ok (\<lambda>r. []) ''linux'' (\<lambda>c. True) vals es session_outcome"
proof -
  let ?p = "auth_main (\<lambda>r. []) 3 ''linux'' (\<lambda>c. True) [''-namespace'', ''ns''] Done"
  have flags: "parse_flags auth_flags Map.empty [''-namespace'', ''ns''] = Inr [''namespace'' \<mapsto> ''ns'']"
    by (simp add: flag_name_def auth_flags_def cut_def Let_def)
  have "fst (web_run session_world ?p 0) = Some session_outcome"
    by (simp add: auth_main_def flags startDeviceFlow_def session_world_def read_body_def session_decoded
        pollForToken_def pollOnce_def fetchUserID_def auth_report_def pending_world_def text_flag_def
        numeral_3_eq_3 seconds_def second_def wrap64_def session_outcome_def openBrowser_def
        browser_command_def Let_def del: parse_flags.simps)
  with web_run_steps [of ?p session_world 0]
  obtain es where es: "wsteps ?p es (Done (Some session_outcome))" by metis
  from printed_credentials_belong_together [OF es] es show ?thesis
    unfolding flags sum.case by blast
qed

text \<open>
  The interval is optional in the device flow, and a client is to take five seconds then; here it
  is zero, and the polls follow each other without a pause.
\<close>

lemma missing_interval_is_no_pause:
  "decoded store_device_response (encode_json (JObj [(''device_code'', JStr ''d''), (''expires_in'', JNum ''600'')]))
     no_device = Inr d \<Longrightarrow> seconds (dev_interval d) = 0"
  using session_numbers
  by (auto simp: decoded_def unmarshal_encode_json maxNestingDepth_def no_device_def
      store_device_response_def store_struct_def store_string_def store_int_def in_field_def field_names
      seconds_def wrap64_def)

end
