(* ===== verification/Api_Types.thy ===== *)
theory Api_Types
  imports Prelude
begin

text \<open>
  The data model of \<open>api/v1/failoverip_types.go\<close> and the parts of the Kubernetes objects
  (nodes, conditions) the operator reads.  Enumerations are datatypes: a Go string type can
  hold any text, so each has an \<open>\<dots>Other\<close> constructor for text outside its constants, and
  the phases and compositions an \<open>\<dots>Empty\<close> one for the unset field.
\<close>

section \<open>Annotations\<close>

definition MACAnnotation :: string where
  "MACAnnotation = ''foip.noshoes.xyz/primary-mac''"

definition ServerIDAnnotation :: string where
  "ServerIDAnnotation = ''foip.noshoes.xyz/server-id''"

definition ManualReconcileAnnotation :: string where
  "ManualReconcileAnnotation = ''foip.noshoes.xyz/reconcile''"

lemma annotations_distinct [simp]:
  "MACAnnotation \<noteq> ServerIDAnnotation" "ServerIDAnnotation \<noteq> MACAnnotation"
  by (simp_all add: MACAnnotation_def ServerIDAnnotation_def)

section \<open>Phases and policies\<close>

datatype failover_phase =
  FailoverPhaseEmpty
| FailoverPhaseIdle
| FailoverPhaseSelecting
| FailoverPhaseStabilizing
| FailoverPhasePreparingTarget
| FailoverPhaseTargetPrepared
| FailoverPhaseRoutingProvider
| FailoverPhaseVerifyingProvider
| FailoverPhaseVerifyingTraffic
| FailoverPhaseCommitting
| FailoverPhaseCleaningStaleOwners
| FailoverPhaseSucceeded
| FailoverPhaseDegraded
| FailoverPhaseBlocked
| FailoverPhaseOther string

fun phase_string :: "failover_phase \<Rightarrow> string" where
  "phase_string FailoverPhaseEmpty = ''''"
| "phase_string FailoverPhaseIdle = ''Idle''"
| "phase_string FailoverPhaseSelecting = ''Selecting''"
| "phase_string FailoverPhaseStabilizing = ''Stabilizing''"
| "phase_string FailoverPhasePreparingTarget = ''PreparingTarget''"
| "phase_string FailoverPhaseTargetPrepared = ''TargetPrepared''"
| "phase_string FailoverPhaseRoutingProvider = ''RoutingProvider''"
| "phase_string FailoverPhaseVerifyingProvider = ''VerifyingProvider''"
| "phase_string FailoverPhaseVerifyingTraffic = ''VerifyingTraffic''"
| "phase_string FailoverPhaseCommitting = ''Committing''"
| "phase_string FailoverPhaseCleaningStaleOwners = ''CleaningStaleOwners''"
| "phase_string FailoverPhaseSucceeded = ''Succeeded''"
| "phase_string FailoverPhaseDegraded = ''Degraded''"
| "phase_string FailoverPhaseBlocked = ''Blocked''"
| "phase_string (FailoverPhaseOther s) = s"

datatype recovery_policy =
  RecoveryPolicyEmpty
| RecoveryPolicyHoldDualOwnership
| RecoveryPolicyRollbackProvider
| RecoveryPolicyCommitDegraded
| RecoveryPolicyManualIntervention
| RecoveryPolicyOther string

fun recovery_policy_string :: "recovery_policy \<Rightarrow> string" where
  "recovery_policy_string RecoveryPolicyEmpty = ''''"
| "recovery_policy_string RecoveryPolicyHoldDualOwnership = ''HoldDualOwnership''"
| "recovery_policy_string RecoveryPolicyRollbackProvider = ''RollbackProvider''"
| "recovery_policy_string RecoveryPolicyCommitDegraded = ''CommitDegraded''"
| "recovery_policy_string RecoveryPolicyManualIntervention = ''ManualIntervention''"
| "recovery_policy_string (RecoveryPolicyOther s) = s"

datatype probe_phase =
  ProbePhaseEmpty | ProbePhasePreRoute | ProbePhasePostRoute | ProbePhaseContinuous
| ProbePhaseOther string

fun probe_phase_string :: "probe_phase \<Rightarrow> string" where
  "probe_phase_string ProbePhaseEmpty = ''''"
| "probe_phase_string ProbePhasePreRoute = ''PreRoute''"
| "probe_phase_string ProbePhasePostRoute = ''PostRoute''"
| "probe_phase_string ProbePhaseContinuous = ''Continuous''"
| "probe_phase_string (ProbePhaseOther s) = s"

datatype probe_composition =
  ProbeCompositionEmpty | ProbeCompositionAll | ProbeCompositionAny | ProbeCompositionQuorum
| ProbeCompositionOther string

fun probe_composition_string :: "probe_composition \<Rightarrow> string" where
  "probe_composition_string ProbeCompositionEmpty = ''''"
| "probe_composition_string ProbeCompositionAll = ''All''"
| "probe_composition_string ProbeCompositionAny = ''Any''"
| "probe_composition_string ProbeCompositionQuorum = ''Quorum''"
| "probe_composition_string (ProbeCompositionOther s) = s"

datatype probe_type =
  ProbeTypeEmpty | ProbeTypeTCP | ProbeTypeTLS | ProbeTypeHTTP | ProbeTypeHTTPS
| ProbeTypeKubernetes | ProbeTypeOther string

fun probe_type_string :: "probe_type \<Rightarrow> string" where
  "probe_type_string ProbeTypeEmpty = ''''"
| "probe_type_string ProbeTypeTCP = ''TCP''"
| "probe_type_string ProbeTypeTLS = ''TLS''"
| "probe_type_string ProbeTypeHTTP = ''HTTP''"
| "probe_type_string ProbeTypeHTTPS = ''HTTPS''"
| "probe_type_string ProbeTypeKubernetes = ''Kubernetes''"
| "probe_type_string (ProbeTypeOther s) = s"

section \<open>Conditions\<close>

datatype condition_status =
  ConditionTrue | ConditionFalse | ConditionUnknown | ConditionStatusOther string

record condition =
  cond_type :: string
  cond_status :: condition_status
  cond_reason :: string
  cond_message :: string
  cond_last_transition :: time
  cond_observed_generation :: int

section \<open>Failover IPs\<close>

record failover_ip_spec =
  spec_ip :: string
  secret_name :: string
  provider_cooldown_seconds :: int
  retry_base_seconds :: int
  retry_max_seconds :: int
  spec_failure_threshold :: int
  spec_recovery_threshold :: int
  cleanup_max_attempts_field :: int
  cleanup_retry_seconds :: int
  stabilization_seconds :: int
  min_healthy_seconds :: int
  prefer_current_owner :: bool
  spec_recovery_policy :: recovery_policy
  spec_probe_composition :: probe_composition
  spec_probe_quorum :: int
  spec_probes :: "string list"

record failover_ip_status =
  transition_id :: string
  phase :: failover_phase
  source_node :: string
  target_node :: string
  provider_observed_owner :: string
  local_owners :: "string list"
  phase_started_at :: "time option"
  last_successful_phase :: failover_phase
  retry_count :: int
  last_error :: string
  last_attempted_mutation_at :: "time option"
  last_confirmed_mutation_at :: "time option"
  next_eligible_mutation_at :: "time option"
  last_transition_at :: "time option"
  candidate_since :: "time option"
  candidate_reason :: string
  candidate_failure_count :: int
  candidate_recovery_count :: int
  recovery_action :: recovery_policy
  recovery_attempts :: int
  cleanup_attempts :: int
  next_cleanup_at :: "time option"
  manual_reconcile_token :: string
  conditions :: "condition list"

record failover_ip =
  foip_name :: string
  foip_namespace :: string
  foip_uid :: string
  foip_annotations :: string_map
  foip_spec :: failover_ip_spec
  foip_status :: failover_ip_status

text \<open>The zero values of the two structs, from which the examples are built.\<close>

definition empty_spec :: failover_ip_spec where
  "empty_spec = \<lparr> spec_ip = '''', secret_name = '''', provider_cooldown_seconds = 0,
     retry_base_seconds = 0, retry_max_seconds = 0, spec_failure_threshold = 0,
     spec_recovery_threshold = 0, cleanup_max_attempts_field = 0, cleanup_retry_seconds = 0,
     stabilization_seconds = 0, min_healthy_seconds = 0, prefer_current_owner = False,
     spec_recovery_policy = RecoveryPolicyEmpty, spec_probe_composition = ProbeCompositionEmpty,
     spec_probe_quorum = 0, spec_probes = [] \<rparr>"

definition empty_status :: failover_ip_status where
  "empty_status = \<lparr> transition_id = '''', phase = FailoverPhaseEmpty, source_node = '''',
     target_node = '''', provider_observed_owner = '''', local_owners = [],
     phase_started_at = None, last_successful_phase = FailoverPhaseEmpty, retry_count = 0,
     last_error = '''', last_attempted_mutation_at = None, last_confirmed_mutation_at = None,
     next_eligible_mutation_at = None, last_transition_at = None, candidate_since = None,
     candidate_reason = '''', candidate_failure_count = 0, candidate_recovery_count = 0,
     recovery_action = RecoveryPolicyEmpty, recovery_attempts = 0, cleanup_attempts = 0,
     next_cleanup_at = None, manual_reconcile_token = '''', conditions = [] \<rparr>"

section \<open>Probes\<close>

record probe_target =
  target_address :: string
  target_port :: int
  target_path :: string
  target_host :: string
  target_sni :: string

record probe_network_policy =
  allow_private_networks :: bool
  allowed_cidrs :: "string list"
  denied_cidrs :: "string list"

record probe_header =
  header_name :: string
  header_value :: string

record kubernetes_readiness_target =
  kube_api_version :: string
  kube_kind :: string
  kube_name :: string
  kube_namespace :: string
  kube_json_path :: string
  kube_expected :: string

record secret_key_selector =
  selector_name :: string
  selector_key :: string
  selector_optional :: "bool option"

record failover_probe_spec =
  probe_spec_phase :: probe_phase
  composition :: probe_composition
  quorum :: int
  probe_kind :: probe_type
  target :: probe_target
  network_policy :: probe_network_policy
  kubernetes :: "kubernetes_readiness_target option"
  timeout_seconds :: int
  interval_seconds :: int
  success_threshold :: int
  probe_failure_threshold :: int
  initial_delay_seconds :: int
  follow_redirects :: bool
  insecure_skip_verify :: bool
  credential_secret_ref :: "secret_key_selector option"
  credential_header :: string
  ca_bundle_secret_ref :: "secret_key_selector option"
  http_method :: string
  expected_status_min :: int
  expected_status_max :: int
  body_match :: string
  headers :: "probe_header list"

record probe_observation =
  obs_name :: string
  obs_success :: bool
  obs_reason :: string
  obs_observed_at :: time
  obs_consecutive_successes :: int
  obs_consecutive_failures :: int

record failover_probe_status =
  probe_conditions :: "condition list"
  observations :: "probe_observation list"

record failover_probe =
  probe_name :: string
  probe_namespace :: string
  probe_spec :: failover_probe_spec
  probe_status :: failover_probe_status

section \<open>Nodes\<close>

text \<open>
  The fields of a Kubernetes node the operator reads: name, annotations, \<open>spec.unschedulable\<close>,
  the conditions (type and status) and the addresses (type and address) of its status.
\<close>

record node =
  node_name :: string
  node_annotations :: string_map
  unschedulable :: bool
  node_conditions :: "(string \<times> condition_status) list"
  node_addresses :: "(string \<times> string) list"

end
