(* ===== verification/Observability.thy ===== *)
theory Observability
  imports Api_Types
begin

text \<open>
  The stateful parts of \<open>internal/observability\<close> the controllers call: the event deduper of
  \<open>observability.go\<close> and the label-bounding metric calls of \<open>metrics.go\<close>.  A histogram is
  modelled by the number of its samples; the durations themselves are left out.  The collectors and
  their registration are in \<open>Metrics\<close>, tracing in \<open>Telemetry\<close>.
\<close>

section \<open>The event deduper\<close>

record event_deduper =
  seen :: "string \<rightharpoonup> time"
  interval :: duration

definition NewEventDeduper :: "duration \<Rightarrow> event_deduper" where
  "NewEventDeduper d = \<lparr> seen = Map.empty, interval = (if d \<le> 0 then minute else d) \<rparr>"

definition forget_old :: "event_deduper \<Rightarrow> time \<Rightarrow> (string \<rightharpoonup> time)" where
  "forget_old d now =
     (\<lambda>k. case seen d k of None \<Rightarrow> None
          | Some prev \<Rightarrow> if time_sub now prev \<ge> interval d then None else Some prev)"

definition Allow :: "event_deduper \<Rightarrow> string \<Rightarrow> time \<Rightarrow> bool \<times> event_deduper" where
  "Allow d key now =
     (let kept = forget_old d now in
      case kept key of
        Some prev \<Rightarrow>
          if time_sub now prev < interval d then (False, d\<lparr>seen := kept\<rparr>)
          else (True, d\<lparr>seen := kept(key \<mapsto> now)\<rparr>)
      | None \<Rightarrow> (True, d\<lparr>seen := kept(key \<mapsto> now)\<rparr>))"

section \<open>Metric calls\<close>

text \<open>Counter, histogram and gauge series, by their label values.\<close>

datatype metric =
  ReconcileTotal string string
| ReconcileDuration string string
| ProviderTotal string string string
| ProviderDuration string string
| InterfaceTotal string string string
| InterfaceDuration string string
| HandoffDuration
| PhaseDuration string
| PhaseTransitions string string
| CooldownBlocks
| RecoveryActions string
| OwnerCount string
| PhaseState string

text \<open>A metric call adds one to a counter or to the samples of a histogram, or sets a gauge.\<close>

datatype metric_call =
  Inc metric
| SetGauge metric int

definition boundedLabel :: "string \<Rightarrow> string list \<Rightarrow> string" where
  "boundedLabel value allowed = (if value \<in> set allowed then value else ''other'')"

definition phase_labels :: "string list" where
  "phase_labels = [''Idle'', ''Selecting'', ''Stabilizing'', ''PreparingTarget'',
     ''TargetPrepared'', ''RoutingProvider'', ''VerifyingProvider'', ''VerifyingTraffic'',
     ''Committing'', ''CleaningStaleOwners'', ''Succeeded'', ''Degraded'', ''Blocked'']"

definition boundedPhase :: "string \<Rightarrow> string" where
  "boundedPhase value = boundedLabel value phase_labels"

definition result_label :: "bool \<Rightarrow> string" where
  "result_label failed = (if failed then ''error'' else ''success'')"

definition ObserveReconcile :: "string \<Rightarrow> string \<Rightarrow> metric_call list" where
  "ObserveReconcile controller result =
     (let controller' = boundedLabel controller [''failoverip'', ''nodeinterface''];
          result' = boundedLabel result [''success'', ''error'', ''requeue_after''] in
      [Inc (ReconcileTotal controller' result'), Inc (ReconcileDuration controller' result')])"

definition ObserveProviderCall :: "string \<Rightarrow> string \<Rightarrow> bool \<Rightarrow> metric_call list" where
  "ObserveProviderCall provider operation failed =
     (let provider' = boundedLabel provider [''netcup'', ''kubernetes''];
          operation' = boundedLabel operation
            [''find_failover_ip'', ''route_failover_ip'', ''verify_failover_ip'', ''get_secret''] in
      [Inc (ProviderTotal provider' operation' (result_label failed)),
       Inc (ProviderDuration provider' operation')])"

definition ObserveInterfaceOperation :: "string \<Rightarrow> string \<Rightarrow> bool \<Rightarrow> metric_call list" where
  "ObserveInterfaceOperation controller operation failed =
     (let controller' = boundedLabel controller [''nodeinterface''];
          operation' = boundedLabel operation [''assign'', ''remove''] in
      [Inc (InterfaceTotal controller' operation' (result_label failed)),
       Inc (InterfaceDuration controller' operation')])"

definition ObserveHandoffDuration :: "metric_call list" where
  "ObserveHandoffDuration = [Inc HandoffDuration]"

definition ObservePhase :: "string \<Rightarrow> metric_call list" where
  "ObservePhase ph = (if ph \<noteq> '''' then [Inc (PhaseDuration (boundedPhase ph))] else [])"

definition ObservePhaseTransition :: "string \<Rightarrow> string \<Rightarrow> metric_call list" where
  "ObservePhaseTransition from to =
     (if from \<noteq> '''' \<and> to \<noteq> ''''
      then [Inc (PhaseTransitions (boundedPhase from) (boundedPhase to))] else [])"

definition ObserveCooldownBlock :: "metric_call list" where
  "ObserveCooldownBlock = [Inc CooldownBlocks]"

definition ObserveRecoveryAction :: "string \<Rightarrow> metric_call list" where
  "ObserveRecoveryAction policy =
     (if policy \<noteq> ''''
      then [Inc (RecoveryActions (boundedLabel policy
              [''HoldDualOwnership'', ''RollbackProvider'', ''CommitDegraded'',
               ''ManualIntervention'']))]
      else [])"

definition ObserveOwnerCount :: "string \<Rightarrow> int \<Rightarrow> metric_call list" where
  "ObserveOwnerCount ph count =
     (if ph \<noteq> '''' then [SetGauge (OwnerCount (boundedPhase ph)) count] else [])"

definition ObservePhaseState :: "string \<Rightarrow> metric_call list" where
  "ObservePhaseState ph =
     map (\<lambda>candidate. SetGauge (PhaseState candidate) 0) (phase_labels @ [''other''])
     @ [SetGauge (PhaseState (boundedPhase ph)) 1]"

text \<open>The registry: a value per series, and the effect of a sequence of calls on it.\<close>

type_synonym registry = "metric \<Rightarrow> int"

fun apply_metric :: "metric_call \<Rightarrow> registry \<Rightarrow> registry" where
  "apply_metric (Inc m) reg = reg(m := reg m + 1)"
| "apply_metric (SetGauge m v) reg = reg(m := v)"

definition apply_metrics :: "metric_call list \<Rightarrow> registry \<Rightarrow> registry" where
  "apply_metrics calls reg = fold apply_metric calls reg"

section \<open>Properties\<close>

text \<open>The calls that \<open>Allow\<close> lets through, in a sequence of calls.\<close>

fun emitted :: "event_deduper \<Rightarrow> (string \<times> time) list \<Rightarrow> (string \<times> time) list" where
  "emitted d [] = []"
| "emitted d ((key, now) # calls) =
     (case Allow d key now of
        (ok, d') \<Rightarrow> (if ok then [(key, now)] else []) @ emitted d' calls)"

lemma time_sub_less:
  "0 < d \<Longrightarrow> is_int64 d \<Longrightarrow> time_sub now prev < d \<longleftrightarrow> now - prev < d"
  by (auto simp: time_sub_def is_int64_def)

lemma Allow_interval [simp]: "interval (snd (Allow d k t)) = interval d"
  by (auto simp: Allow_def Let_def split: option.split)

lemma emitted_mem: "c \<in> set (emitted d calls) \<Longrightarrow> c \<in> set calls"
  by (induction d calls rule: emitted.induct) (auto split: prod.splits if_splits)

text \<open>A key seen at \<open>t\<close> is not let through again before the interval has passed.\<close>

lemma emitted_after:
  assumes "seen d k = Some t" "0 < interval d" "is_int64 (interval d)" "(k, u) \<in> set (emitted d calls)"
    and "sorted (t # map snd calls)"
  shows "t + interval d \<le> u"
  using assms
proof (induction d calls rule: emitted.induct)
  case (2 d key now calls)
  obtain ok d' where allow: "Allow d key now = (ok, d')" by (cases "Allow d key now")
  have ivl: "interval d' = interval d" using Allow_interval [of d key now] by (simp add: allow)
  show ?case
  proof (cases "now - t < interval d")
    case True
    then have "forget_old d now k = Some t"
      using 2 by (simp add: forget_old_def time_sub_less [symmetric] not_le)
    then have "seen d' k = Some t" "key = k \<Longrightarrow> \<not> ok"
      using allow True 2
      by (auto simp: Allow_def Let_def time_sub_less split: option.splits if_splits)
    then show ?thesis
      using 2 by (auto simp: allow ivl split: if_splits)
  next
    case False
    have "u \<in> set (map snd ((key, now) # calls))"
      using emitted_mem [OF "2.prems"(4)] by force
    then show ?thesis using False "2.prems"(5) by auto
  qed
qed simp

lemma emitted_gap:
  assumes "0 < interval d" "is_int64 (interval d)" "sorted (map snd calls)"
    and "emitted d calls = xs @ (k, t) # ys @ (k, u) # zs"
  shows "t + interval d \<le> u"
  using assms
proof (induction d calls arbitrary: xs rule: emitted.induct)
  case (2 d key now calls)
  obtain ok d' where allow: "Allow d key now = (ok, d')" by (cases "Allow d key now")
  have ivl: "interval d' = interval d" using Allow_interval [of d key now] by (simp add: allow)
  show ?case
  proof (cases "ok \<and> xs = []")
    case True
    then have eq: "key = k" "now = t" "emitted d' calls = ys @ (k, u) # zs"
      using 2 by (auto simp: allow)
    then have "seen d' k = Some t"
      using allow True by (auto simp: Allow_def Let_def split: option.splits if_splits)
    then show ?thesis
      using emitted_after [of d' k t u calls] 2 eq by (simp add: ivl)
  next
    case False
    then obtain xs' where "emitted d' calls = xs' @ (k, t) # ys @ (k, u) # zs"
      using 2 by (cases xs) (auto simp: allow split: if_splits)
    then show ?thesis
      using "2.IH" [OF allow [symmetric], of xs'] 2 by (simp add: ivl)
  qed
qed simp

text \<open>
  Two equal events that the deduper lets through lie at least its interval apart, in every
  sequence of calls made as the clock advances; an interval that is not positive counts as one
  minute.
\<close>

theorem events_are_spaced:
  assumes "is_int64 d" "sorted (map snd calls)"
    and "emitted (NewEventDeduper d) calls = xs @ (k, t) # ys @ (k, u) # zs"
  shows "t + (if d \<le> 0 then minute else d) \<le> u"
  using emitted_gap [OF _ _ assms(2,3)] assms(1)
  by (auto simp: NewEventDeduper_def minute_def is_int64_def)

theorem events_are_spaced_witness:
  "emitted (NewEventDeduper 10) [(''k'', 0), (''j'', 3), (''k'', 9), (''k'', 12), (''k'', 21)]
     = [] @ (''k'', 0) # [(''j'', 3)] @ (''k'', 12) # [] \<and> (0::int) + 10 \<le> 12"
proof -
  have *: "emitted (NewEventDeduper 10) [(''k'', 0), (''j'', 3), (''k'', 9), (''k'', 12), (''k'', 21)]
     = [] @ (''k'', 0) # [(''j'', 3)] @ (''k'', 12) # []"
    by (simp add: NewEventDeduper_def Allow_def forget_old_def Let_def time_sub_def)
  from events_are_spaced [OF _ _ this] * show ?thesis by (simp add: is_int64_def)
qed

lemma apply_metrics_append: "apply_metrics (xs @ ys) reg = apply_metrics ys (apply_metrics xs reg)"
  by (simp add: apply_metrics_def)

lemma apply_zeroes:
  "apply_metrics (map (\<lambda>c. SetGauge (f c) 0) xs) reg = (\<lambda>m. if m \<in> f ` set xs then 0 else reg m)"
  by (induction xs arbitrary: reg) (auto simp: apply_metrics_def fun_eq_iff)

lemma boundedPhase_label: "boundedPhase ph \<in> set (phase_labels @ [''other''])"
  by (simp add: boundedPhase_def boundedLabel_def)

text \<open>
  The phase-state gauge is one-hot: after ObservePhaseState exactly the series of the
  observed phase (of "other" for an unknown one) is 1 and every other phase series is 0, and no
  other metric has moved.
\<close>

theorem phase_state_one_hot:
  "apply_metrics (ObservePhaseState ph) reg =
     (\<lambda>m. case m of
        PhaseState l \<Rightarrow> (if l = boundedPhase ph then 1
                         else if l \<in> set (phase_labels @ [''other'']) then 0 else reg m)
      | _ \<Rightarrow> reg m)"
proof -
  have "apply_metrics (ObservePhaseState ph) reg =
      (\<lambda>m. if m \<in> PhaseState ` set (phase_labels @ [''other'']) then 0 else reg m)
        (PhaseState (boundedPhase ph) := 1)"
    by (simp only: ObservePhaseState_def apply_metrics_append apply_zeroes)
      (simp add: apply_metrics_def)
  then show ?thesis
    by (auto simp: fun_eq_iff split: metric.split)
qed

end
