(* ===== verification/Metrics.thy ===== *)
theory Metrics
  imports Observability
begin

text \<open>
  The Prometheus collectors of \<open>internal/observability/metrics.go\<close> and their registration, and
  that every call of the observing functions fits them: the series it touches belongs to a registered
  collector, has a value for each label, and is one of a fixed list.
\<close>

section \<open>Collectors\<close>

definition metricNamespace :: string where "metricNamespace = ''foip''"
definition subsystemController :: string where "subsystemController = ''controller''"
definition subsystemProvider :: string where "subsystemProvider = ''provider''"
definition subsystemInterface :: string where "subsystemInterface = ''interface''"
definition subsystemFailover :: string where "subsystemFailover = ''failover''"
definition labelController :: string where "labelController = ''controller''"
definition labelProvider :: string where "labelProvider = ''provider''"
definition labelOperation :: string where "labelOperation = ''operation''"
definition labelResult :: string where "labelResult = ''result''"
definition labelPhase :: string where "labelPhase = ''phase''"

lemmas metric_names = metricNamespace_def subsystemController_def subsystemProvider_def
  subsystemInterface_def subsystemFailover_def labelController_def labelProvider_def
  labelOperation_def labelResult_def labelPhase_def

text \<open>The start of exponential buckets is in milliseconds.\<close>

datatype collector_kind =
  Counter
| Gauge
| Histogram (bucket_start: nat) (bucket_factor: nat) (bucket_count: nat)

record collector =
  collector_subsystem :: string
  collector_name :: string
  collector_kind :: collector_kind
  collector_labels :: "string list"

definition collector_of :: "string \<Rightarrow> string \<Rightarrow> collector_kind \<Rightarrow> string list \<Rightarrow> collector" where
  "collector_of subsystem name kind labels =
     \<lparr> collector_subsystem = subsystem, collector_name = name, collector_kind = kind,
       collector_labels = labels \<rparr>"

definition reconcileTotal :: collector where
  "reconcileTotal = collector_of subsystemController ''reconcile_total'' Counter
     [labelController, labelResult]"

definition reconcileDuration :: collector where
  "reconcileDuration = collector_of subsystemController ''reconcile_duration_seconds''
     (Histogram 5 2 14) [labelController, labelResult]"

definition providerTotal :: collector where
  "providerTotal = collector_of subsystemProvider ''request_total'' Counter
     [labelProvider, labelOperation, labelResult]"

definition providerDuration :: collector where
  "providerDuration = collector_of subsystemProvider ''request_duration_seconds''
     (Histogram 5 2 14) [labelProvider, labelOperation]"

definition interfaceTotal :: collector where
  "interfaceTotal = collector_of subsystemInterface ''operation_total'' Counter
     [labelController, labelOperation, labelResult]"

definition interfaceDuration :: collector where
  "interfaceDuration = collector_of subsystemInterface ''operation_duration_seconds''
     (Histogram 5 2 14) [labelController, labelOperation]"

definition handoffDuration :: collector where
  "handoffDuration = collector_of subsystemFailover ''handoff_duration_seconds''
     (Histogram 10 2 16) []"

definition phaseDuration :: collector where
  "phaseDuration = collector_of subsystemFailover ''phase_duration_seconds''
     (Histogram 10 2 16) [labelPhase]"

definition phaseTransitions :: collector where
  "phaseTransitions = collector_of subsystemFailover ''phase_transition_total'' Counter
     [''from'', ''to'']"

definition cooldownBlocks :: collector where
  "cooldownBlocks = collector_of subsystemProvider ''cooldown_block_total'' Counter []"

definition recoveryActions :: collector where
  "recoveryActions = collector_of subsystemFailover ''recovery_action_total'' Counter [''policy'']"

definition ownerCount :: collector where
  "ownerCount = collector_of subsystemFailover ''local_owner_count'' Gauge [labelPhase]"

definition phaseState :: collector where
  "phaseState = collector_of subsystemFailover ''phase'' Gauge [labelPhase]"

lemmas collector_defs = reconcileTotal_def reconcileDuration_def providerTotal_def
  providerDuration_def interfaceTotal_def interfaceDuration_def handoffDuration_def
  phaseDuration_def phaseTransitions_def cooldownBlocks_def recoveryActions_def ownerCount_def
  phaseState_def collector_of_def

section \<open>Registration\<close>

text \<open>The name a collector is exported under.\<close>

definition full_name :: "collector \<Rightarrow> string" where
  "full_name c = metricNamespace @ ''_'' @ collector_subsystem c @ ''_'' @ collector_name c"

text \<open>
  \<open>Registry.MustRegister\<close> panics (\<open>None\<close>) on a second collector of the same name; \<open>init\<close> runs
  once, on a registry that may hold the collectors of others.
\<close>

fun MustRegister :: "collector list \<Rightarrow> collector list \<Rightarrow> collector list option" where
  "MustRegister [] reg = Some reg"
| "MustRegister (c # cs) reg =
     (if full_name c \<in> set (map full_name reg) then None else MustRegister cs (reg @ [c]))"

definition collectors :: "collector list" where
  "collectors = [reconcileTotal, reconcileDuration, providerTotal, providerDuration,
     interfaceTotal, interfaceDuration, handoffDuration, phaseDuration, phaseTransitions,
     cooldownBlocks, recoveryActions, ownerCount, phaseState]"

definition metrics_init :: "collector list \<Rightarrow> collector list option" where
  "metrics_init reg = MustRegister collectors reg"

section \<open>Series\<close>

text \<open>The collector of a series and the values \<open>WithLabelValues\<close> is called with.\<close>

fun series :: "metric \<Rightarrow> collector \<times> string list" where
  "series (ReconcileTotal c r) = (reconcileTotal, [c, r])"
| "series (ReconcileDuration c r) = (reconcileDuration, [c, r])"
| "series (ProviderTotal p op r) = (providerTotal, [p, op, r])"
| "series (ProviderDuration p op) = (providerDuration, [p, op])"
| "series (InterfaceTotal c op r) = (interfaceTotal, [c, op, r])"
| "series (InterfaceDuration c op) = (interfaceDuration, [c, op])"
| "series HandoffDuration = (handoffDuration, [])"
| "series (PhaseDuration p) = (phaseDuration, [p])"
| "series (PhaseTransitions from to) = (phaseTransitions, [from, to])"
| "series CooldownBlocks = (cooldownBlocks, [])"
| "series (RecoveryActions p) = (recoveryActions, [p])"
| "series (OwnerCount p) = (ownerCount, [p])"
| "series (PhaseState p) = (phaseState, [p])"

primrec touched :: "metric_call \<Rightarrow> metric" where
  "touched (Inc m) = m"
| "touched (SetGauge m v) = m"

text \<open>A counter is only ever added to, a histogram only observed, a gauge only set.\<close>

primrec fits_kind :: "metric_call \<Rightarrow> collector_kind \<Rightarrow> bool" where
  "fits_kind (Inc m) k \<longleftrightarrow> k \<noteq> Gauge"
| "fits_kind (SetGauge m v) k \<longleftrightarrow> k = Gauge"

text \<open>The calls of the observing functions.\<close>

inductive observation :: "metric_call list \<Rightarrow> bool" where
  "observation (ObserveReconcile c r)"
| "observation (ObserveProviderCall p op failed)"
| "observation (ObserveInterfaceOperation c op failed)"
| "observation ObserveHandoffDuration"
| "observation (ObservePhase ph)"
| "observation (ObservePhaseTransition from to)"
| "observation ObserveCooldownBlock"
| "observation (ObserveRecoveryAction policy)"
| "observation (ObserveOwnerCount ph n)"
| "observation (ObservePhaseState ph)"

text \<open>The values a label can take, whatever the callers pass.\<close>

definition label_values :: "string list" where
  "label_values = [''failoverip'', ''nodeinterface'', ''success'', ''error'', ''requeue_after'',
     ''netcup'', ''kubernetes'', ''find_failover_ip'', ''route_failover_ip'', ''verify_failover_ip'',
     ''get_secret'', ''assign'', ''remove'', ''HoldDualOwnership'', ''RollbackProvider'',
     ''CommitDegraded'', ''ManualIntervention'', ''other''] @ phase_labels"

lemma collector_names:
  "distinct (map full_name collectors)"
  by (simp add: collectors_def full_name_def collector_defs metric_names)

lemma MustRegister_distinct:
  "distinct (map full_name cs) \<Longrightarrow> full_name ` set cs \<inter> full_name ` set reg = {} \<Longrightarrow>
     MustRegister cs reg = Some (reg @ cs)"
proof (induction cs arbitrary: reg)
  case (Cons c cs)
  then have "MustRegister cs (reg @ [c]) = Some ((reg @ [c]) @ cs)" by (intro Cons.IH) auto
  with Cons.prems show ?case by auto
qed simp

lemma boundedLabel_mem: "boundedLabel v allowed \<in> insert ''other'' (set allowed)"
  by (simp add: boundedLabel_def)

lemma fixed_labels [simp]:
  "''failoverip'' \<in> set label_values" "''nodeinterface'' \<in> set label_values"
  "''success'' \<in> set label_values" "''error'' \<in> set label_values"
  "''requeue_after'' \<in> set label_values" "''netcup'' \<in> set label_values"
  "''kubernetes'' \<in> set label_values" "''find_failover_ip'' \<in> set label_values"
  "''route_failover_ip'' \<in> set label_values" "''verify_failover_ip'' \<in> set label_values"
  "''get_secret'' \<in> set label_values" "''assign'' \<in> set label_values"
  "''remove'' \<in> set label_values" "''HoldDualOwnership'' \<in> set label_values"
  "''RollbackProvider'' \<in> set label_values" "''CommitDegraded'' \<in> set label_values"
  "''ManualIntervention'' \<in> set label_values" "''other'' \<in> set label_values"
  by (simp_all add: label_values_def)

lemma phase_labels_mem: "p \<in> set phase_labels \<Longrightarrow> p \<in> set label_values"
  by (simp add: label_values_def)

lemma label_mem:
  "set allowed \<subseteq> set label_values \<Longrightarrow> boundedLabel v allowed \<in> set label_values"
  using boundedLabel_mem [of v allowed] by auto

lemma phase_label_mem [simp]: "boundedPhase ph \<in> set label_values"
  unfolding boundedPhase_def by (rule label_mem) (blast intro: phase_labels_mem)

lemma result_label_mem [simp]: "result_label failed \<in> set label_values"
  by (simp add: result_label_def)

text \<open>What is to be shown of one call: the properties of its series.\<close>

definition call_ok :: "metric_call \<Rightarrow> bool" where
  "call_ok call \<longleftrightarrow>
     (case series (touched call) of (c, values) \<Rightarrow>
        c \<in> set collectors \<and> fits_kind call (collector_kind c)
        \<and> length values = length (collector_labels c) \<and> set values \<subseteq> set label_values)"

lemma call_ok_series:
  "call_ok (Inc (ReconcileTotal c r)) \<longleftrightarrow> {c, r} \<subseteq> set label_values"
  "call_ok (Inc (ReconcileDuration c r)) \<longleftrightarrow> {c, r} \<subseteq> set label_values"
  "call_ok (Inc (ProviderTotal p op r)) \<longleftrightarrow> {p, op, r} \<subseteq> set label_values"
  "call_ok (Inc (ProviderDuration p op)) \<longleftrightarrow> {p, op} \<subseteq> set label_values"
  "call_ok (Inc (InterfaceTotal c op r)) \<longleftrightarrow> {c, op, r} \<subseteq> set label_values"
  "call_ok (Inc (InterfaceDuration c op)) \<longleftrightarrow> {c, op} \<subseteq> set label_values"
  "call_ok (Inc HandoffDuration)"
  "call_ok (Inc (PhaseDuration p)) \<longleftrightarrow> p \<in> set label_values"
  "call_ok (Inc (PhaseTransitions from to)) \<longleftrightarrow> {from, to} \<subseteq> set label_values"
  "call_ok (Inc CooldownBlocks)"
  "call_ok (Inc (RecoveryActions p)) \<longleftrightarrow> p \<in> set label_values"
  "call_ok (SetGauge (OwnerCount p) n) \<longleftrightarrow> p \<in> set label_values"
  "call_ok (SetGauge (PhaseState p) n) \<longleftrightarrow> p \<in> set label_values"
  by (simp_all add: call_ok_def collectors_def) (simp_all add: collector_defs)

lemma observation_ok: "observation calls \<Longrightarrow> call \<in> set calls \<Longrightarrow> call_ok call"
proof (induction rule: observation.induct)
  case (10 ph)
  then consider p where "p \<in> set (phase_labels @ [''other''])" "call = SetGauge (PhaseState p) 0"
    | "call = SetGauge (PhaseState (boundedPhase ph)) 1" by (auto simp: ObservePhaseState_def)
  then show ?case
    by cases (auto simp: call_ok_series phase_labels_mem)
qed (auto simp: ObserveReconcile_def ObserveProviderCall_def ObserveInterfaceOperation_def
    ObserveHandoffDuration_def ObservePhase_def ObservePhaseTransition_def ObserveCooldownBlock_def
    ObserveRecoveryAction_def ObserveOwnerCount_def Let_def call_ok_series label_mem
    split: if_splits)

text \<open>
  C35: Once \<open>init\<close> has run beside the collectors of other packages, no observing call can panic, and
  none can grow the set of series without bound: every series it touches belongs to a registered
  collector of the right kind, has one value per label, and each value is one of 31 fixed words,
  whatever names the callers pass.
\<close>

theorem observations_fit_the_registry:
  assumes "full_name ` set collectors \<inter> full_name ` set reg = {}"
    and "observation calls" "call \<in> set calls"
  shows "\<exists>c values reg'. metrics_init reg = Some reg' \<and> series (touched call) = (c, values)
    \<and> c \<in> set reg' \<and> fits_kind call (collector_kind c)
    \<and> length values = length (collector_labels c) \<and> set values \<subseteq> set label_values
    \<and> length label_values = 31"
proof -
  have "metrics_init reg = Some (reg @ collectors)"
    unfolding metrics_init_def using collector_names assms(1) by (rule MustRegister_distinct)
  moreover have "call_ok call" using observation_ok assms(2,3) .
  moreover have "length label_values = 31" by (simp add: label_values_def phase_labels_def)
  ultimately show ?thesis
    by (cases "series (touched call)") (auto simp: call_ok_def)
qed

theorem observations_fit_the_registry_witness:
  "\<exists>c values reg'. metrics_init [] = Some reg'
    \<and> series (touched (Inc (RecoveryActions (boundedLabel ''policy-123''
        [''HoldDualOwnership'', ''RollbackProvider'', ''CommitDegraded'', ''ManualIntervention'']))))
      = (c, values)
    \<and> c \<in> set reg' \<and> fits_kind (Inc (RecoveryActions ''other'')) (collector_kind c)
    \<and> length values = length (collector_labels c) \<and> set values \<subseteq> set label_values
    \<and> length label_values = 31"
proof -
  have "Inc (RecoveryActions ''other'') \<in> set (ObserveRecoveryAction ''policy-123'')"
    by (simp add: ObserveRecoveryAction_def boundedLabel_def)
  from observations_fit_the_registry [OF _ observation.intros(8) this, of "[]"]
  show ?thesis by (simp add: boundedLabel_def)
qed

end
