(* ===== verification/Regex.thy ===== *)
theory Regex
  imports Prelude "HOL-Library.Sublist"
begin

text \<open>
  The part of Go's package \<open>regexp\<close> that the redaction of \<open>internal/observability\<close> relies on.
  A match is the leftmost one and, among those, the one a backtracking search finds first: an
  alternative prefers its left branch and a repetition prefers one more round.  The matcher lists
  the ends of all matches in that order.  The expressions are over bytes: a letter outside ASCII is
  the sequence of its bytes.
\<close>

section \<open>Expressions and their matches\<close>

text \<open>
  A repetition \<open>Many\<close> is the greedy star of a byte class, \<open>Boundary\<close> is the ASCII word boundary
  \<open>\b\<close>; the other operators of the package unfold to these, as its own simplifier does.
\<close>

datatype regex =
  Empty
| Class "char \<Rightarrow> bool"
| Many "char \<Rightarrow> bool"
| Boundary
| Cat regex regex
| Alt regex regex

definition regex_optional :: "regex \<Rightarrow> regex" where
  "regex_optional r = Alt r Empty"

definition regex_plus :: "(char \<Rightarrow> bool) \<Rightarrow> regex" where
  "regex_plus p = Cat (Class p) (Many p)"

fun regex_times :: "nat \<Rightarrow> regex \<Rightarrow> regex" where
  "regex_times 0 r = Empty"
| "regex_times (Suc n) r = Cat r (regex_times n r)"

text \<open>At least one and at most \<open>n\<close> rounds, for positive \<open>n\<close>.\<close>

fun regex_upto :: "nat \<Rightarrow> regex \<Rightarrow> regex" where
  "regex_upto 0 r = Empty"
| "regex_upto (Suc n) r = Cat r (if n = 0 then Empty else regex_optional (regex_upto n r))"

text \<open>A text position: the byte before it, if any, and the text that follows.\<close>

type_synonym place = "char option \<times> string"

definition word_char :: "char \<Rightarrow> bool" where
  "word_char c \<longleftrightarrow> (let n = of_char c :: nat in
     48 \<le> n \<and> n \<le> 57 \<or> 65 \<le> n \<and> n \<le> 90 \<or> 97 \<le> n \<and> n \<le> 122 \<or> n = 95)"

definition before_word :: "place \<Rightarrow> bool" where
  "before_word x \<longleftrightarrow> (case snd x of [] \<Rightarrow> False | c # cs \<Rightarrow> word_char c)"

definition after_word :: "place \<Rightarrow> bool" where
  "after_word x \<longleftrightarrow> (case fst x of None \<Rightarrow> False | Some c \<Rightarrow> word_char c)"

fun many_ends :: "(char \<Rightarrow> bool) \<Rightarrow> char option \<Rightarrow> string \<Rightarrow> place list" where
  "many_ends p b [] = [(b, [])]"
| "many_ends p b (c # cs) = (if p c then many_ends p (Some c) cs else []) @ [(b, c # cs)]"

primrec ends :: "regex \<Rightarrow> place \<Rightarrow> place list" where
  "ends Empty x = [x]"
| "ends (Class p) x = (case snd x of [] \<Rightarrow> [] | c # cs \<Rightarrow> if p c then [(Some c, cs)] else [])"
| "ends (Many p) x = many_ends p (fst x) (snd x)"
| "ends Boundary x = (if before_word x \<noteq> after_word x then [x] else [])"
| "ends (Cat r q) x = concat (map (ends q) (ends r x))"
| "ends (Alt r q) x = ends r x @ ends q x"

text \<open>
  \<open>ReplaceAllString\<close> with a replacement without \<open>$\<close>.  Matches of the empty text do not occur
  with the expressions of the program and are passed over.
\<close>

function replace_matches :: "regex \<Rightarrow> string \<Rightarrow> char option \<Rightarrow> string \<Rightarrow> string" where
  "replace_matches r rep b s =
     (case filter (\<lambda>y. length (snd y) < length s) (take 1 (ends r (b, s))) of
        (b', rest) # _ \<Rightarrow> rep @ replace_matches r rep b' rest
      | [] \<Rightarrow> (case s of [] \<Rightarrow> [] | c # cs \<Rightarrow> c # replace_matches r rep (Some c) cs))"
  by pat_completeness auto
termination
  by (relation "measure (\<lambda>(r, rep, b, s). length s)")
    (auto simp: take_Suc split: list.splits if_splits dest: filter_eq_ConsD)

declare replace_matches.simps [simp del]

definition ReplaceAllString :: "regex \<Rightarrow> string \<Rightarrow> string \<Rightarrow> string" where
  "ReplaceAllString r s rep = replace_matches r rep None s"

section \<open>Letters in either case\<close>

text \<open>
  Under the flag \<open>i\<close> a letter stands for every letter of its folding orbit: both cases, the
  long s (bytes 197, 191) for \<open>s\<close> and the Kelvin sign (bytes 226, 132, 170) for \<open>k\<close>.
\<close>

definition letter_code :: "char \<Rightarrow> nat" where
  "letter_code c = (let n = of_char c in if 65 \<le> n \<and> n \<le> 90 then n + 32 else n)"

definition either_case :: "char \<Rightarrow> char \<Rightarrow> bool" where
  "either_case c d \<longleftrightarrow> letter_code c = letter_code d"

fun bytes :: "nat list \<Rightarrow> regex" where
  "bytes [] = Empty"
| "bytes (n # ns) = Cat (Class (\<lambda>c. of_char c = n)) (bytes ns)"

definition fold_char :: "char \<Rightarrow> regex" where
  "fold_char c =
     (if letter_code c = 115 then Alt (Class (either_case c)) (bytes [197, 191])
      else if letter_code c = 107 then Alt (Class (either_case c)) (bytes [226, 132, 170])
      else Class (either_case c))"

fun fold_text :: "string \<Rightarrow> regex" where
  "fold_text [] = Empty"
| "fold_text (c # cs) = Cat (fold_char c) (fold_text cs)"

lemma fold_char_ascii:
  "(of_char c :: nat) < 128 \<Longrightarrow>
     ends (fold_char w) (b, c # cs) = (if either_case w c then [(Some c, cs)] else [])"
  by (simp add: fold_char_def)

lemma fold_char_nil: "ends (fold_char w) (b, []) = []"
  by (simp add: fold_char_def)

lemma fold_text_cons [simp]:
  "ends (fold_text (w # ws)) x = concat (map (ends (fold_text ws)) (ends (fold_char w) x))"
  by simp

text \<open>A text that differs from the word in case only is matched by it.\<close>

lemma fold_text_match:
  assumes "map letter_code w = map letter_code s"
  shows "\<exists>b'. (b', rest) \<in> set (ends (fold_text w) (b, s @ rest))"
  using assms
proof (induction w arbitrary: s b)
  case (Cons c w)
  then obtain d s' where s: "s = d # s'" "letter_code c = letter_code d"
    "map letter_code w = map letter_code s'" by (cases s) auto
  have "(Some d, s' @ rest) \<in> set (ends (fold_char c) (b, s @ rest))"
    using s by (simp add: fold_char_def either_case_def)
  with Cons.IH [OF s(3), of "Some d"] show ?case by (auto intro!: bexI)
qed simp

text \<open>The alternatives of a list, the first preferred.\<close>

fun fold_words :: "string list \<Rightarrow> regex" where
  "fold_words [] = Class (\<lambda>c. False)"
| "fold_words [w] = fold_text w"
| "fold_words (w # ws) = Alt (fold_text w) (fold_words ws)"

section \<open>Matches read an initial part of the text\<close>

text \<open>Whether some class of the expression takes the byte, and whether it looks behind.\<close>

primrec takes :: "regex \<Rightarrow> char \<Rightarrow> bool" where
  "takes Empty c \<longleftrightarrow> False"
| "takes (Class p) c \<longleftrightarrow> p c"
| "takes (Many p) c \<longleftrightarrow> p c"
| "takes Boundary c \<longleftrightarrow> False"
| "takes (Cat r q) c \<longleftrightarrow> takes r c \<or> takes q c"
| "takes (Alt r q) c \<longleftrightarrow> takes r c \<or> takes q c"

primrec plain :: "regex \<Rightarrow> bool" where
  "plain Empty \<longleftrightarrow> True"
| "plain (Class p) \<longleftrightarrow> True"
| "plain (Many p) \<longleftrightarrow> True"
| "plain Boundary \<longleftrightarrow> False"
| "plain (Cat r q) \<longleftrightarrow> plain r \<and> plain q"
| "plain (Alt r q) \<longleftrightarrow> plain r \<and> plain q"

lemma many_ends_stop:
  assumes "(b', y) \<in> set (many_ends p b (u @ x # v))" "\<not> p x"
  shows "\<exists>q. y = q @ x # v \<and> (\<forall>w. (b', q @ w) \<in> set (many_ends p b (u @ w)))"
  using assms(1)
proof (induction u arbitrary: b)
  case Nil
  then have "b' = b" "y = x # v" using assms(2) by auto
  moreover have "(b, w) \<in> set (many_ends p b w)" for w by (cases w) auto
  ultimately show ?case by (intro exI [of _ "[]"]) auto
next
  case (Cons c u)
  then consider "p c" "(b', y) \<in> set (many_ends p (Some c) (u @ x # v))"
    | "b' = b" "y = c # u @ x # v" by (auto split: if_splits)
  then show ?case
  proof cases
    case 1
    with Cons.IH [OF 1(2)] show ?thesis by auto
  next
    case 2
    then show ?thesis by (intro exI [of _ "c # u"]) auto
  qed
qed

text \<open>
  A match of a text with a byte that the expression never takes ends before that byte, and what
  follows its end could be anything.
\<close>

lemma ends_stop:
  assumes "(b', y) \<in> set (ends r (b, u @ x # v))" "\<not> takes r x" "plain r"
  shows "\<exists>q. y = q @ x # v \<and> (\<forall>w. (b', q @ w) \<in> set (ends r (b, u @ w)))"
  using assms
proof (induction r arbitrary: b u b' y)
  case (Class p)
  then show ?case by (cases u) (auto split: if_splits)
next
  case (Many p)
  then show ?case using many_ends_stop by simp
next
  case (Cat r s)
  from Cat.prems(1) obtain b1 y1 where "(b1, y1) \<in> set (ends r (b, u @ x # v))"
    and 2: "(b', y) \<in> set (ends s (b1, y1))" by auto
  moreover have "\<not> takes r x" "\<not> takes s x" "plain r" "plain s" using Cat.prems by simp_all
  ultimately obtain q where q: "y1 = q @ x # v"
    and r: "\<And>w. (b1, q @ w) \<in> set (ends r (b, u @ w))" using Cat.IH(1) by blast
  from 2 q Cat.IH(2) \<open>\<not> takes s x\<close> \<open>plain s\<close> obtain q' where "y = q' @ x # v"
    and "\<And>w. (b', q' @ w) \<in> set (ends s (b1, q @ w))" by blast
  with r show ?case by (intro exI [of _ q']) (auto intro!: bexI)
next
  case (Alt r s)
  from Alt.prems consider "(b', y) \<in> set (ends r (b, u @ x # v))"
    | "(b', y) \<in> set (ends s (b, u @ x # v))" by auto
  then show ?case
  proof cases
    case 1
    then obtain q where "y = q @ x # v" "\<And>w. (b', q @ w) \<in> set (ends r (b, u @ w))"
      using Alt.IH(1) Alt.prems(2,3) by (metis plain.simps(6) takes.simps(6))
    then show ?thesis by (intro exI [of _ q]) simp
  next
    case 2
    then obtain q where "y = q @ x # v" "\<And>w. (b', q @ w) \<in> set (ends s (b, u @ w))"
      using Alt.IH(2) Alt.prems(2,3) by (metis plain.simps(6) takes.simps(6))
    then show ?thesis by (intro exI [of _ q]) simp
  qed
qed auto

lemma many_ends_last: "(b, s) \<in> set (many_ends p b s)"
  by (cases s) auto

lemma ends_many_nonempty [simp]: "many_ends p b s \<noteq> []"
  by (cases s) auto

lemma many_ends_snd: "map snd (many_ends p b s) = map snd (many_ends p b' s)"
  by (cases s) auto

text \<open>An expression without boundaries does not look at the byte before its match.\<close>

lemma plain_ends: "plain r \<Longrightarrow> map snd (ends r (b, s)) = map snd (ends r (b', s))"
proof (induction r arbitrary: b b' s)
  case (Class p)
  then show ?case by (simp split: list.split)
next
  case (Many p)
  show ?case by (simp add: many_ends_snd [of p b s b'])
next
  case (Cat r q)
  have step: "map snd xs = map snd ys \<Longrightarrow>
      concat (map (\<lambda>x. map snd (ends q x)) xs) = concat (map (\<lambda>x. map snd (ends q x)) ys)" for xs ys
  proof (induction xs arbitrary: ys)
    case (Cons x xs)
    then obtain y zs where "ys = y # zs" "snd x = snd y" "map snd xs = map snd zs"
      by (cases ys) auto
    moreover have "map snd (ends q x) = map snd (ends q y)"
      using Cat.IH(2) [of "fst x" "snd x" "fst y"] Cat.prems \<open>snd x = snd y\<close>
      by (cases x; cases y) simp
    ultimately show ?case using Cons.IH by simp
  qed simp
  have "map snd (ends r (b, s)) = map snd (ends r (b', s))" using Cat.IH(1) Cat.prems by simp
  from step [OF this] show ?case by (simp add: map_concat comp_def)
next
  case (Alt r q)
  then show ?case by (metis ends.simps(6) map_append plain.simps(6))
qed simp_all

lemma plain_nothing: "plain r \<Longrightarrow> ends r (b, s) = [] \<longleftrightarrow> ends r (b', s) = []"
  by (metis map_is_Nil_conv plain_ends)

lemma many_ends_suffix: "(b', y) \<in> set (many_ends p b s) \<Longrightarrow> suffix y s"
  by (induction p b s rule: many_ends.induct) (auto intro: suffix_ConsI split: if_splits)

lemma ends_suffix: "(b', y) \<in> set (ends r (b, s)) \<Longrightarrow> suffix y s"
proof (induction r arbitrary: b s b' y)
  case (Class p)
  then show ?case by (cases s) (auto intro: suffix_ConsI split: if_splits)
next
  case (Cat r q)
  from Cat.prems obtain b1 y1 where "(b1, y1) \<in> set (ends r (b, s))"
    "(b', y) \<in> set (ends q (b1, y1))" by auto
  with Cat.IH show ?case by (blast intro: suffix_order.trans)
qed (auto dest: many_ends_suffix split: if_splits)

section \<open>Replacement\<close>

text \<open>The end of the replaced match at a position, if one is replaced there.\<close>

definition replaced :: "regex \<Rightarrow> char option \<Rightarrow> string \<Rightarrow> place option" where
  "replaced r b s =
     (case filter (\<lambda>y. length (snd y) < length s) (take 1 (ends r (b, s))) of
        [] \<Rightarrow> None | y # _ \<Rightarrow> Some y)"

lemma replace_unfold:
  "replace_matches r rep b s =
     (case replaced r b s of
        Some (b', rest) \<Rightarrow> rep @ replace_matches r rep b' rest
      | None \<Rightarrow> (case s of [] \<Rightarrow> [] | c # cs \<Rightarrow> c # replace_matches r rep (Some c) cs))"
  by (subst replace_matches.simps) (auto simp: replaced_def split: list.split)

lemma replaced_ends:
  assumes "replaced r b s = Some (b', rest)"
  shows "(b', rest) \<in> set (ends r (b, s))" and "length rest < length s"
proof -
  let ?ys = "filter (\<lambda>y. length (snd y) < length s) (take 1 (ends r (b, s)))"
  obtain ys where "?ys = (b', rest) # ys"
    using assms by (auto simp: replaced_def split: list.splits)
  then have "(b', rest) \<in> set ?ys" by (metis list.set_intros(1))
  then show "(b', rest) \<in> set (ends r (b, s))" "length rest < length s"
    by (auto dest: in_set_takeD)
qed

lemma replaced_nil [simp]: "replaced r b [] = None"
  by (simp add: replaced_def split: list.split)

lemma replace_induct [case_names match keep finish]:
  assumes "\<And>b s b' rest. replaced r b s = Some (b', rest) \<Longrightarrow> P b' rest \<Longrightarrow> P b s"
    and "\<And>b c cs. replaced r b (c # cs) = None \<Longrightarrow> P (Some c) cs \<Longrightarrow> P b (c # cs)"
    and "\<And>b. P b []"
  shows "P b s"
proof (induction "length s" arbitrary: b s rule: less_induct)
  case less
  show ?case
  proof (cases "replaced r b s")
    case None
    with assms less show ?thesis by (cases s) auto
  next
    case (Some y)
    with assms(1) less replaced_ends(2) show ?thesis by (cases y) blast
  qed
qed

text \<open>
  Up to the first replacement the result is the text, and the replaced part starts with a byte
  the expression can start with.
\<close>

lemma replace_shape:
  assumes "\<And>b d v. replaced r b (d # v) \<noteq> None \<Longrightarrow> cls d"
  shows "replace_matches r rep b s = s \<or>
    (\<exists>p d v u. s = p @ d # v \<and> replace_matches r rep b s = p @ rep @ u \<and> cls d)"
proof (induction b s rule: replace_induct [of r])
  case (match b s b' rest)
  then obtain d v where s: "s = d # v" by (cases s) auto
  moreover have "cls d" using assms [of b d v] match(1) s by simp
  moreover have "replace_matches r rep b s = [] @ rep @ replace_matches r rep b' rest"
    using match(1) by (subst replace_unfold) simp
  ultimately show ?case by (intro disjI2 exI [of _ "[]"]) auto
next
  case (keep b c cs)
  have eq: "replace_matches r rep b (c # cs) = c # replace_matches r rep (Some c) cs"
    using keep(1) by (subst replace_unfold) simp
  from keep(2) show ?case
  proof
    assume "\<exists>p d v u. cs = p @ d # v \<and> replace_matches r rep (Some c) cs = p @ rep @ u \<and> cls d"
    then obtain p d v u
      where "cs = p @ d # v" "replace_matches r rep (Some c) cs = p @ rep @ u" "cls d" by blast
    with eq show ?thesis by (intro disjI2 exI [of _ "c # p"]) auto
  qed (simp add: eq)
next
  case (finish b)
  then show ?case by (subst replace_unfold) simp
qed

text \<open>An expression whose last part is a nonempty run of a class, and the texts it matches.\<close>

definition starts :: "regex \<Rightarrow> (char \<Rightarrow> bool) \<Rightarrow> string \<Rightarrow> bool" where
  "starts r cls s \<longleftrightarrow> ends (Cat r (regex_plus cls)) (None, s) \<noteq> []"

lemma starts_iff:
  assumes "plain r"
  shows "starts r cls s \<longleftrightarrow> (\<exists>b' c cs. (b', c # cs) \<in> set (ends r (b, s)) \<and> cls c)"
proof -
  have "starts r cls s \<longleftrightarrow> ends (Cat r (regex_plus cls)) (b, s) \<noteq> []"
    using plain_nothing [of "Cat r (regex_plus cls)" None s b] assms
    by (simp add: starts_def regex_plus_def)
  also have "\<dots> \<longleftrightarrow> (\<exists>y \<in> set (ends r (b, s)). ends (regex_plus cls) y \<noteq> [])" by auto
  also have "\<dots> \<longleftrightarrow> (\<exists>b' c cs. (b', c # cs) \<in> set (ends r (b, s)) \<and> cls c)"
    by (force simp: regex_plus_def split: list.splits if_splits)
  finally show ?thesis .
qed

text \<open>
  Replacing the matches of an expression \<open>q\<close> gives no new place where \<open>r\<close> followed by a run
  of \<open>cls\<close> matches: such a place is one of the text where nothing was replaced.
\<close>

lemma replace_starts:
  assumes r: "plain r" "\<not> takes r (hd rep)" "rep \<noteq> []"
    and q: "\<And>b d v. replaced q b (d # v) \<noteq> None \<Longrightarrow> cls d"
    and rep: "\<And>t v. suffix t rep \<Longrightarrow> t \<noteq> [] \<Longrightarrow> \<not> starts r cls (t @ v)"
    and t: "suffix t (replace_matches q rep b s)" "starts r cls t"
  shows "\<exists>b' u. suffix u s \<and> starts r cls u \<and> replaced q b' u = None"
  using t(1)
proof (induction b s rule: replace_induct [of q])
  case (match b s b' rest)
  then have "suffix t (rep @ replace_matches q rep b' rest)"
    by (subst (asm) replace_unfold) simp
  then consider "suffix t (replace_matches q rep b' rest)"
    | t' where "t' \<noteq> []" "suffix t' rep" "t = t' @ replace_matches q rep b' rest"
    unfolding suffix_append by (metis append_Nil suffix_order.order_refl)
  then show ?case
  proof cases
    case 1
    moreover have "suffix rest s" using ends_suffix replaced_ends(1) match(1) by blast
    ultimately show ?thesis using match(2) by (blast intro: suffix_order.trans)
  next
    case 2
    then show ?thesis using rep t(2) by blast
  qed
next
  case (keep b c cs)
  have eq: "replace_matches q rep b (c # cs) = c # replace_matches q rep (Some c) cs"
    using keep(1) by (subst replace_unfold) simp
  from keep(3) eq consider "t = c # replace_matches q rep (Some c) cs"
    | "suffix t (replace_matches q rep (Some c) cs)" by (auto simp: suffix_Cons)
  then show ?case
  proof cases
    case 1
    have "replace_matches q rep (Some c) cs = cs \<or>
        (\<exists>p d v u. cs = p @ d # v \<and> replace_matches q rep (Some c) cs = p @ rep @ u \<and> cls d)"
      by (rule replace_shape) (rule q)
    then consider "t = c # cs"
      | p d v u where "cs = p @ d # v" "t = (c # p) @ hd rep # tl rep @ u" "cls d"
      using 1 list.collapse [OF r(3)] by (metis append_Cons)
    then have "starts r cls (c # cs)"
    proof cases
      case 2
      from t(2) obtain b' x xs where x: "(b', x # xs) \<in> set (ends r (None, t))" "cls x"
        using starts_iff [OF r(1)] by blast
      then obtain y where y: "x # xs = y @ hd rep # tl rep @ u"
        "\<And>w. (b', y @ w) \<in> set (ends r (None, (c # p) @ w))"
        using ends_stop [of b' "x # xs" r None "c # p" "hd rep" "tl rep @ u"] 2 r by auto
      from y(2) [of "d # v"] have "(b', y @ d # v) \<in> set (ends r (None, c # cs))" using 2 by simp
      moreover have "cls (hd (y @ d # v))" using y(1) x(2) 2(3) by (cases y) auto
      ultimately show ?thesis using starts_iff [OF r(1)]
        by (metis append_is_Nil_conv list.collapse list.distinct(1))
    qed (use t(2) in simp)
    with keep(1) show ?thesis by blast
  next
    case 2
    then show ?thesis using keep(2) by (blast intro: suffix_ConsI)
  qed
next
  case (finish b)
  have "replace_matches q rep b [] = []" by (subst replace_unfold) simp
  with finish t(2) show ?case by (auto intro!: exI [of _ b])
qed

text \<open>Where such an expression matches, the match is replaced.\<close>

lemma starts_replaced:
  assumes "plain r" "starts r cls s"
  shows "replaced (Cat r (regex_plus cls)) b s \<noteq> None"
proof -
  let ?e = "Cat r (regex_plus cls)"
  have short: "length (snd y) < length s" if y: "y \<in> set (ends ?e (b, s))" for y
  proof -
    obtain b1 c cs where 1: "(b1, c # cs) \<in> set (ends r (b, s))"
      and 2: "y \<in> set (many_ends cls (Some c) cs)"
      using y by (auto simp: regex_plus_def split: list.splits if_splits)
    have "suffix (snd y) cs" using many_ends_suffix [of "fst y" "snd y"] 2 by simp
    moreover have "suffix (c # cs) s" using ends_suffix 1 by blast
    ultimately show ?thesis by (auto dest!: suffix_length_le)
  qed
  have "ends ?e (b, s) \<noteq> []"
    using assms plain_nothing [of ?e None s b] unfolding starts_def regex_plus_def
    by (metis plain.simps(2,3,5))
  then obtain y ys where "ends ?e (b, s) = y # ys" by (cases "ends ?e (b, s)") auto
  moreover from this have "length (snd y) < length s" using short by (metis list.set_intros(1))
  ultimately show ?thesis by (simp add: replaced_def)
qed

end
