(* ===== verification/Redaction.thy ===== *)
theory Redaction
  imports Regex
begin

text \<open>
  \<open>RedactText\<close> of \<open>internal/observability/observability.go\<close>: what is taken out of an error text
  before it is put into telemetry, which places of the text are certain to be gone afterwards, and
  two kinds of values that stay.
\<close>

section \<open>The patterns\<close>

definition redaction :: string where
  "redaction = ''[REDACTED]''"

text \<open>\<open>\s\<close>: tab, newline, form feed, carriage return and space.\<close>

definition regex_space :: "char \<Rightarrow> bool" where
  "regex_space c \<longleftrightarrow> (let n = of_char c :: nat in n \<in> {9, 10, 12, 13, 32})"

definition not_space :: "char \<Rightarrow> bool" where
  "not_space c \<longleftrightarrow> \<not> regex_space c"

definition secret_value_char :: "char \<Rightarrow> bool" where
  "secret_value_char c \<longleftrightarrow> \<not> regex_space c \<and> c \<noteq> CHR '','' \<and> c \<noteq> CHR '';''"

definition separator :: "char \<Rightarrow> bool" where
  "separator c \<longleftrightarrow> c = CHR '':'' \<or> c = CHR ''=''"

definition url_head :: regex where
  "url_head = Cat (fold_text ''http'') (Cat (regex_optional (fold_char (CHR ''s''))) (fold_text ''://''))"

definition url_pattern :: regex where
  "url_pattern = Cat url_head (regex_plus not_space)"

definition address_pattern :: regex where
  "address_pattern =
     Cat Boundary
       (Cat (regex_times 3 (Cat (regex_upto 3 (Class is_digit)) (Class (\<lambda>c. c = CHR ''.''))))
         (Cat (regex_upto 3 (Class is_digit))
           (Cat (regex_optional (Cat (Class (\<lambda>c. c = CHR ''/'')) (regex_upto 2 (Class is_digit))))
             Boundary)))"

definition secret_keys :: "string list" where
  "secret_keys = [''authorization'', ''cookie'', ''refreshToken'', ''password'', ''secret'']"

definition secret_head :: regex where
  "secret_head =
     Cat (fold_words secret_keys)
       (Cat (Many regex_space) (Cat (Class separator) (Many regex_space)))"

definition secret_pattern :: regex where
  "secret_pattern = Cat secret_head (regex_plus secret_value_char)"

definition sensitiveTextPatterns :: "regex list" where
  "sensitiveTextPatterns = [url_pattern, address_pattern, secret_pattern]"

definition RedactText :: "string \<Rightarrow> string" where
  "RedactText text_value =
     fold (\<lambda>pattern v. ReplaceAllString pattern v redaction) sensitiveTextPatterns text_value"

section \<open>Where the patterns start\<close>

lemmas pattern_defs = url_head_def url_pattern_def address_pattern_def secret_keys_def
  secret_head_def secret_pattern_def fold_char_def regex_optional_def

lemma regex_space_iff [simp]: "regex_space c \<longleftrightarrow> (of_char c :: nat) \<in> {9, 10, 12, 13, 32}"
  by (simp add: regex_space_def Let_def)

text \<open>The byte a match starts with.\<close>

primrec begins :: "regex \<Rightarrow> char \<Rightarrow> bool" where
  "begins Empty c \<longleftrightarrow> True"
| "begins (Class p) c \<longleftrightarrow> p c"
| "begins (Many p) c \<longleftrightarrow> True"
| "begins Boundary c \<longleftrightarrow> True"
| "begins (Cat r q) c \<longleftrightarrow> begins r c"
| "begins (Alt r q) c \<longleftrightarrow> begins r c \<or> begins q c"

lemma ends_begins: "ends r (b, d # v) \<noteq> [] \<Longrightarrow> begins r d"
proof (induction r arbitrary: b d v)
  case (Cat r q)
  then have "ends r (b, d # v) \<noteq> []" by auto
  with Cat.IH(1) show ?case by simp
qed (auto split: if_splits)

lemma replaced_begins: "replaced r b (d # v) \<noteq> None \<Longrightarrow> begins r d"
  by (rule ends_begins [of r b d v]) (auto simp: replaced_def)

lemma address_pattern_begins:
  assumes "replaced address_pattern b (d # v) \<noteq> None" shows "is_digit d"
proof -
  obtain y where "y \<in> set (ends address_pattern (b, d # v))"
    using assms by (cases "replaced address_pattern b (d # v)") (auto dest: replaced_ends(1))
  then have "ends (regex_upto 3 (Class is_digit)) (b, d # v) \<noteq> []"
    by (auto simp: address_pattern_def numeral_3_eq_3 split: if_splits)
  then show ?thesis by (auto simp: numeral_3_eq_3 dest: ends_begins)
qed

lemma is_digit_code: "is_digit c \<longleftrightarrow> 48 \<le> (of_char c :: nat) \<and> (of_char c :: nat) \<le> 57"
  by (simp add: is_digit_def digit_value_def Let_def)

lemma url_pattern_begins: "begins url_pattern d \<Longrightarrow> letter_code d = 104"
  by (simp add: pattern_defs either_case_def letter_code_def [of "CHR ''h''"])

lemma secret_pattern_begins:
  "begins secret_pattern d \<Longrightarrow> letter_code d \<in> {97, 99, 114, 112, 115} \<or> of_char d = (197 :: nat)"
  by (simp add: pattern_defs either_case_def letter_code_def Let_def split: if_splits)

lemma pattern_begins:
  assumes "pattern \<in> set sensitiveTextPatterns" "replaced pattern b (d # v) \<noteq> None"
  shows "not_space d" and "secret_value_char d"
proof -
  have "is_digit d \<or> letter_code d \<in> {104, 97, 99, 114, 112, 115} \<or> of_char d = (197 :: nat)"
    using assms url_pattern_begins [of d] secret_pattern_begins [of d] address_pattern_begins [of b d v]
      replaced_begins [of pattern b d v] by (auto simp: sensitiveTextPatterns_def)
  then show "secret_value_char d"
    by (auto simp: secret_value_char_def is_digit_code letter_code_def Let_def split: if_splits)
  then show "not_space d" by (simp add: secret_value_char_def not_space_def)
qed

section \<open>Nothing sensitive starts in the replacement\<close>

lemma heads_plain: "plain url_head" "plain secret_head"
  by (simp_all add: pattern_defs)

lemma heads_stop: "\<not> takes url_head (hd redaction)" "\<not> takes secret_head (hd redaction)"
  by (simp_all add: pattern_defs redaction_def either_case_def letter_code_def separator_def)

lemma redaction_suffixes:
  "suffix t redaction \<Longrightarrow> t \<noteq> [] \<Longrightarrow> t \<in> set (map (\<lambda>n. drop n redaction) [0..<10])"
  by (auto simp: suffix_def redaction_def Cons_eq_append_conv upt_rec)

lemma url_not_in_redaction:
  assumes "suffix t redaction" "t \<noteq> []"
  shows "\<not> starts url_head cls (t @ v)"
proof -
  have "ends (fold_text ''http'') (None, t @ v) = []"
    using redaction_suffixes [OF assms]
    by (auto simp: redaction_def upt_rec fold_char_ascii either_case_def letter_code_def)
  then show ?thesis by (simp add: starts_def url_head_def del: fold_text.simps fold_text_cons)
qed

lemma fold_words_nothing:
  "list_all (\<lambda>w. ends (fold_text w) x = []) ws \<Longrightarrow> ends (fold_words ws) x = []"
  by (induction ws rule: fold_words.induct) (simp_all split: list.split)

lemma secret_not_in_redaction:
  assumes "suffix t redaction" "t \<noteq> []"
  shows "\<not> starts secret_head cls (t @ v)"
proof -
  have "list_all (\<lambda>w. ends (fold_text w) (None, t @ v) = []) secret_keys"
    using redaction_suffixes [OF assms]
    by (auto simp: redaction_def secret_keys_def upt_rec fold_char_ascii either_case_def letter_code_def)
  then show ?thesis by (simp add: starts_def secret_head_def fold_words_nothing)
qed

section \<open>What cannot be left\<close>

text \<open>One replacement keeps a text free of a head, and the pattern of the head makes it so.\<close>

definition free_of :: "regex \<Rightarrow> (char \<Rightarrow> bool) \<Rightarrow> string \<Rightarrow> bool" where
  "free_of r cls s \<longleftrightarrow> (\<forall>t. suffix t s \<longrightarrow> \<not> starts r cls t)"

lemma redaction_nonempty: "redaction \<noteq> []"
  by (simp add: redaction_def)

lemma url_place:
  assumes "pattern \<in> set sensitiveTextPatterns" "suffix t (replace_matches pattern redaction b s)"
    and "starts url_head not_space t"
  shows "\<exists>b' u. suffix u s \<and> starts url_head not_space u \<and> replaced pattern b' u = None"
  by (rule replace_starts [OF heads_plain(1) heads_stop(1) redaction_nonempty _ _ assms(2,3)])
    (use pattern_begins(1) [OF assms(1)] url_not_in_redaction in blast)+

lemma secret_place:
  assumes "pattern \<in> set sensitiveTextPatterns" "suffix t (replace_matches pattern redaction b s)"
    and "starts secret_head secret_value_char t"
  shows "\<exists>b' u. suffix u s \<and> starts secret_head secret_value_char u \<and> replaced pattern b' u = None"
  by (rule replace_starts [OF heads_plain(2) heads_stop(2) redaction_nonempty _ _ assms(2,3)])
    (use pattern_begins(2) [OF assms(1)] secret_not_in_redaction in blast)+

lemma free_kept:
  assumes "pattern \<in> set sensitiveTextPatterns" "free_of url_head not_space s"
  shows "free_of url_head not_space (ReplaceAllString pattern s redaction)"
  using url_place [OF assms(1)] assms(2) unfolding free_of_def ReplaceAllString_def by blast

lemma free_after_url: "free_of url_head not_space (ReplaceAllString url_pattern s redaction)"
  using url_place [of url_pattern] starts_replaced [OF heads_plain(1)]
  unfolding free_of_def ReplaceAllString_def url_pattern_def
  by (metis list.set_intros(1) sensitiveTextPatterns_def url_pattern_def)

lemma free_after_secret:
  "free_of secret_head secret_value_char (ReplaceAllString secret_pattern s redaction)"
  using secret_place [of secret_pattern] starts_replaced [OF heads_plain(2)]
  unfolding free_of_def ReplaceAllString_def secret_pattern_def
  by (metis list.set_intros sensitiveTextPatterns_def secret_pattern_def)

lemma RedactText_free:
  "free_of url_head not_space (RedactText s)"
  "free_of secret_head secret_value_char (RedactText s)"
  by (simp_all add: RedactText_def sensitiveTextPatterns_def free_after_url free_after_secret free_kept)

section \<open>In terms of the text\<close>

definition same_letters :: "string \<Rightarrow> string \<Rightarrow> bool" where
  "same_letters w s \<longleftrightarrow> map letter_code w = map letter_code s"

lemma fold_text_same:
  "same_letters w s \<Longrightarrow> \<exists>b'. (b', rest) \<in> set (ends (fold_text w) (b, s @ rest))"
  unfolding same_letters_def by (rule fold_text_match)

lemma many_ends_run:
  "list_all p s \<Longrightarrow> \<exists>b'. (b', rest) \<in> set (many_ends p b (s @ rest))"
  by (induction s arbitrary: b) (auto intro: many_ends_last)

lemma fold_words_mem:
  "w \<in> set ws \<Longrightarrow> y \<in> set (ends (fold_text w) x) \<Longrightarrow> y \<in> set (ends (fold_words ws) x)"
proof (induction ws)
  case (Cons u us)
  have first: "fold_words [u] = fold_text u" by simp
  have rest: "us \<noteq> [] \<Longrightarrow> ends (fold_words (u # us)) x = ends (fold_text u) x @ ends (fold_words us) x"
    by (cases us) simp_all
  show ?case
  proof (cases "us = []")
    case True
    with Cons.prems first show ?thesis by (metis empty_iff list.set(1) set_ConsD)
  next
    case False
    with Cons rest show ?thesis by (metis UnI1 UnI2 set_ConsD set_append)
  qed
qed (simp del: ends.simps)

lemma url_starts:
  assumes "same_letters ''http'' scheme \<or> same_letters ''https'' scheme" "not_space c"
  shows "starts url_head not_space (scheme @ ''://'' @ c # rest)"
proof -
  let ?t = "''://'' @ c # rest"
  have tail: "\<exists>b'. (b', c # rest) \<in> set (ends (fold_text ''://'') (b, ?t))" for b
    by (rule fold_text_same) (simp add: same_letters_def)
  have "\<exists>b1 s1. (b1, s1 @ ?t) \<in> set (ends (fold_text ''http'') (None, scheme @ ?t))
      \<and> (s1 = [] \<or> same_letters ''s'' s1)"
    using assms(1)
  proof
    assume "same_letters ''http'' scheme"
    then show ?thesis using fold_text_same [of "''http''" scheme ?t None] by (metis append_Nil)
  next
    assume "same_letters ''https'' scheme"
    then have "same_letters (take 4 ''https'') (take 4 scheme)"
      "same_letters (drop 4 ''https'') (drop 4 scheme)"
      unfolding same_letters_def by (simp_all only: take_map [symmetric] drop_map [symmetric])
    then have "same_letters ''http'' (take 4 scheme)" "same_letters ''s'' (drop 4 scheme)"
      by simp_all
    then show ?thesis using fold_text_same [of "''http''" "take 4 scheme" "drop 4 scheme @ ?t" None]
      by (metis append.assoc append_take_drop_id)
  qed
  then obtain b1 s1 where 1: "(b1, s1 @ ?t) \<in> set (ends (fold_text ''http'') (None, scheme @ ?t))"
    and s1: "s1 = [] \<or> same_letters ''s'' s1" by blast
  have "\<exists>b2. (b2, ?t) \<in> set (ends (regex_optional (fold_char (CHR ''s''))) (b1, s1 @ ?t))"
    using s1 fold_text_same [of "''s''" s1 ?t b1] by (auto simp: regex_optional_def)
  with 1 tail have "\<exists>b'. (b', c # rest) \<in> set (ends url_head (None, scheme @ ?t))"
    unfolding url_head_def by fastforce
  with assms(2) show ?thesis by (auto simp: starts_iff [OF heads_plain(1), of _ _ None])
qed

lemma secret_starts:
  assumes "key \<in> set secret_keys" "same_letters key k" "list_all regex_space sp1"
    "separator sep" "list_all regex_space sp2" "secret_value_char c"
  shows "starts secret_head secret_value_char (k @ sp1 @ sep # sp2 @ c # rest)"
proof -
  let ?t1 = "sp1 @ sep # sp2 @ c # rest" and ?t2 = "sep # sp2 @ c # rest"
  obtain b1 where 1: "(b1, ?t1) \<in> set (ends (fold_words secret_keys) (None, k @ ?t1))"
    using fold_text_same [OF assms(2), of ?t1 None] fold_words_mem [OF assms(1)] by blast
  obtain b2 where 2: "(b2, ?t2) \<in> set (many_ends regex_space b1 ?t1)"
    using many_ends_run [OF assms(3)] by blast
  obtain b3 where 3: "(b3, c # rest) \<in> set (many_ends regex_space (Some sep) (sp2 @ c # rest))"
    using many_ends_run [OF assms(5)] by blast
  have "(b3, c # rest) \<in> set (ends secret_head (None, k @ ?t1))"
    unfolding secret_head_def using 1 2 3 assms(4) by (auto 0 4 intro!: bexI)
  with assms(6) show ?thesis by (auto simp: starts_iff [OF heads_plain(2), of _ _ None])
qed

text \<open>
  C34: A redacted text holds no URL and no assignment of a secret any more: wherever it says "http"
  or "https" (in either case) followed by "://", a space or the end follows; wherever one of the
  five secret keys (in either case) is followed by ":" or "=", with white space around it or not,
  no value follows.
\<close>

theorem redacted_text_hides_urls_and_secrets:
  "(RedactText v = pre @ scheme @ ''://'' @ c # rest
      \<and> (same_letters ''http'' scheme \<or> same_letters ''https'' scheme) \<longrightarrow> regex_space c)
   \<and> (RedactText v = pre @ k @ sp1 @ sep # sp2 @ c # rest \<and> key \<in> set secret_keys
      \<and> same_letters key k \<and> list_all regex_space sp1 \<and> separator sep \<and> list_all regex_space sp2
      \<longrightarrow> \<not> secret_value_char c)"
proof -
  have suffix: "suffix t (RedactText v)" if "RedactText v = pre @ t" for t
    using that by (simp add: suffix_def)
  show ?thesis
    using RedactText_free [of v] suffix url_starts [of scheme c rest]
      secret_starts [of key k sp1 sep sp2 c rest]
    unfolding free_of_def not_space_def by blast
qed

theorem redacted_text_hides_urls_and_secrets_witness:
  "RedactText ''see http:// https://u/p'' = ''see '' @ ''http'' @ ''://'' @ CHR '' '' # redaction
     \<and> regex_space (CHR '' '')
   \<and> RedactText ''x cookie=;a'' = ''x '' @ ''cookie'' @ [] @ CHR ''='' # [] @ CHR '';'' # ''a''
     \<and> \<not> secret_value_char (CHR '';'')"
proof -
  have url: "RedactText ''see http:// https://u/p''
      = ''see '' @ ''http'' @ ''://'' @ CHR '' '' # redaction"
    by code_simp
  have secret: "RedactText ''x cookie=;a'' = ''x '' @ ''cookie'' @ [] @ CHR ''='' # [] @ CHR '';'' # ''a''"
    by code_simp
  have "same_letters ''http'' ''http''" "same_letters ''cookie'' ''cookie''"
    "''cookie'' \<in> set secret_keys" "separator (CHR ''='')" "list_all regex_space []"
    by (simp_all add: same_letters_def secret_keys_def separator_def)
  then show ?thesis
    using redacted_text_hides_urls_and_secrets [of _ "''see ''" "''http''" "CHR '' ''" redaction]
      redacted_text_hides_urls_and_secrets [of _ "''x ''" _ "CHR '';''" "''a''" "''cookie''" "[]"
        "CHR ''=''" "[]" "''cookie''"] url secret by blast
qed

text \<open>Two kinds of values stay: the credentials after the name of the scheme, and some addresses.\<close>

theorem bearer_token_survives_redaction:
  "RedactText (''Authorization: Bearer '' @ ''eyJhbGci'') = redaction @ '' eyJhbGci''"
  by code_simp

theorem address_before_secret_survives_redaction:
  "RedactText ''1.2.3.4secret=x'' = ''1.2.3.4'' @ redaction
   \<and> RedactText (''1.2.3.4'' @ redaction) = redaction @ redaction"
  by code_simp

end
