(* ===== verification/Telemetry.thy ===== *)
theory Telemetry
  imports Redaction Url
begin

text \<open>
  Tracing of \<open>internal/observability/observability.go\<close>: the identity a process reports under,
  the choice of the trace exporter from the environment, the start-up of tracing, the trace fields
  of a logger and what a span records of an error.  The SDK's constructors (\<open>resource.New\<close>,
  \<open>otlptracegrpc.New\<close>) and the host name are arguments.
\<close>

section \<open>Identity\<close>

text \<open>\<open>os.Getenv\<close>: an unset variable reads as the empty string.\<close>

type_synonym environ = "string \<Rightarrow> string"

record telemetry_config =
  config_service_name :: string
  config_component :: string

definition service_name :: "environ \<Rightarrow> telemetry_config \<Rightarrow> string" where
  "service_name env cfg =
     (let fromEnv = trim_space (env ''OTEL_SERVICE_NAME'');
          serviceName = (if fromEnv = [] then trim_space (config_service_name cfg) else fromEnv) in
      if serviceName = [] then ''foip-operator'' else serviceName)"

text \<open>An attribute that is left out when its value is empty.\<close>

definition optional_attr :: "string \<Rightarrow> string \<Rightarrow> (string \<times> string) list" where
  "optional_attr key v = (if v \<noteq> [] then [(key, v)] else [])"

definition resource_attributes ::
  "environ \<Rightarrow> string option \<Rightarrow> telemetry_config \<Rightarrow> (string \<times> string) list" where
  "resource_attributes env hostname cfg =
     [(''service.name'', service_name env cfg)]
     @ optional_attr ''foip.component'' (config_component cfg)
     @ (case hostname of None \<Rightarrow> [] | Some host \<Rightarrow> optional_attr ''service.instance.id'' host)
     @ optional_attr ''k8s.pod.name'' (trim_space (env ''POD_NAME''))
     @ optional_attr ''k8s.namespace.name'' (trim_space (env ''POD_NAMESPACE''))
     @ optional_attr ''k8s.node.name'' (trim_space (env ''NODE_NAME''))"

section \<open>The exporter\<close>

text \<open>\<open>strings.EqualFold(v, "true")\<close>; no letter of "true" has a third case.\<close>

definition is_true :: "string \<Rightarrow> bool" where
  "is_true v \<longleftrightarrow> same_letters v ''true''"

definition raw_endpoint :: "environ \<Rightarrow> string" where
  "raw_endpoint env =
     (let endpoint = trim_space (env ''OTEL_EXPORTER_OTLP_TRACES_ENDPOINT'') in
      if endpoint = [] then trim_space (env ''OTEL_EXPORTER_OTLP_ENDPOINT'') else endpoint)"

definition insecure_override :: "environ \<Rightarrow> bool \<Rightarrow> bool" where
  "insecure_override env insecure =
     (let v = trim_space (env ''OTEL_EXPORTER_OTLP_INSECURE'') in
      if v \<noteq> [] then is_true v else insecure)"

text \<open>The endpoint and whether it is spoken to without TLS; \<open>None\<close> if nothing is exported.\<close>

definition trace_endpoint :: "environ \<Rightarrow> go_error + (string \<times> bool) option" where
  "trace_endpoint env =
     (let endpoint = raw_endpoint env;
          judged = (\<lambda>endpoint insecure.
            if endpoint = [] then Inl (GoError ''OTEL_EXPORTER_OTLP endpoint is empty'')
            else Inr (Some (endpoint, insecure_override env insecure))) in
      if endpoint = [] then Inr None
      else case url_parse endpoint of
             None \<Rightarrow> judged endpoint False
           | Some u \<Rightarrow>
               if url_scheme u = [] then judged endpoint False
               else if url_scheme u = ''http'' then judged (url_host u) True
               else if url_scheme u = ''https'' then judged (url_host u) False
               else Inl (GoError (''unsupported OTLP endpoint scheme '' @ quote (url_scheme u))))"

definition newTraceExporter ::
  "(string \<Rightarrow> bool \<Rightarrow> go_error + 'exporter) \<Rightarrow> environ \<Rightarrow> go_error + 'exporter option" where
  "newTraceExporter new env =
     (case trace_endpoint env of
        Inl e \<Rightarrow> Inl e
      | Inr None \<Rightarrow> Inr None
      | Inr (Some (endpoint, insecure)) \<Rightarrow>
          (case new endpoint insecure of Inl e \<Rightarrow> Inl e | Inr x \<Rightarrow> Inr (Some x)))"

section \<open>Start-up\<close>

text \<open>The process-wide state of package \<open>otel\<close> that \<open>Setup\<close> writes.\<close>

record ('resource, 'exporter) tracer_provider =
  provider_resource :: 'resource
  provider_batcher :: "'exporter option"

record ('resource, 'exporter) otel_globals =
  text_map_propagators :: "string list"
  global_provider :: "('resource, 'exporter) tracer_provider option"

text \<open>On success the value is the provider whose \<open>Shutdown\<close> the caller is to run.\<close>

definition Setup ::
  "((string \<times> string) list \<Rightarrow> go_error + 'resource) \<Rightarrow> (string \<Rightarrow> bool \<Rightarrow> go_error + 'exporter)
     \<Rightarrow> environ \<Rightarrow> string option \<Rightarrow> telemetry_config \<Rightarrow> ('resource, 'exporter) otel_globals
     \<Rightarrow> (go_error + ('resource, 'exporter) tracer_provider) \<times> ('resource, 'exporter) otel_globals" where
  "Setup new_resource new_exporter env hostname cfg g =
     (case new_resource (resource_attributes env hostname cfg) of
        Inl e \<Rightarrow> (Inl (Wrapped ''building otel resource: '' e), g)
      | Inr res \<Rightarrow>
          let g1 = g\<lparr>text_map_propagators := [''TraceContext'', ''Baggage'']\<rparr> in
          case newTraceExporter new_exporter env of
            Inl e \<Rightarrow> (Inl e, g1)
          | Inr x \<Rightarrow>
              let tp = \<lparr> provider_resource = res, provider_batcher = x \<rparr> in
              (Inr tp, g1\<lparr>global_provider := Some tp\<rparr>))"

section \<open>Loggers\<close>

record span_context =
  trace_id :: string
  span_id :: string
  context_valid :: bool

definition TraceFields :: "span_context \<Rightarrow> string list" where
  "TraceFields sc =
     (if \<not> context_valid sc then []
      else [''trace_id'', trace_id sc, ''span_id'', span_id sc])"

text \<open>A logger is the list of the values it adds to a line; \<open>WithValues\<close> appends to them.\<close>

definition Logger :: "span_context \<Rightarrow> string list \<Rightarrow> string list" where
  "Logger sc base = (if TraceFields sc = [] then base else base @ TraceFields sc)"

section \<open>Spans\<close>

text \<open>A span: the texts of the recorded errors, and the description of an error status.\<close>

record span =
  span_errors :: "string list"
  span_status :: "string option"

definition RecordSpanError :: "go_error option \<Rightarrow> span \<Rightarrow> span" where
  "RecordSpanError err s =
     (case err of
        None \<Rightarrow> s
      | Some e \<Rightarrow> s\<lparr>span_errors := span_errors s @ [RedactText (error_text e)],
                   span_status := Some ''operation failed''\<rparr>)"

text \<open>The errors the code records in a span one after the other.\<close>

definition record_all :: "go_error option list \<Rightarrow> span" where
  "record_all errs = fold RecordSpanError errs \<lparr> span_errors = [], span_status = None \<rparr>"

section \<open>What a span can show\<close>

definition some_errors :: "go_error option list \<Rightarrow> go_error list" where
  "some_errors errs = map the (filter (\<lambda>e. e \<noteq> None) errs)"

lemma fold_RecordSpanError:
  "span_errors (fold RecordSpanError errs s) =
     span_errors s @ map (\<lambda>e. RedactText (error_text e)) (some_errors errs)"
  "span_status (fold RecordSpanError errs s) =
     (if some_errors errs = [] then span_status s else Some ''operation failed'')"
  by (induction errs arbitrary: s) (auto simp: RecordSpanError_def some_errors_def)

text \<open>
  A span shows one redacted text per recorded error, in order, and counts as failed exactly if
  there was an error; the status never carries the text of one.
\<close>

theorem span_shows_redacted_errors:
  "record_all errs =
     \<lparr> span_errors = map (\<lambda>e. RedactText (error_text e)) (some_errors errs),
       span_status = (if some_errors errs = [] then None else Some ''operation failed'') \<rparr>"
  unfolding record_all_def
  by (rule span.equality) (simp_all add: fold_RecordSpanError)

section \<open>When traces leave without TLS, and when not at all\<close>

text \<open>
  Traces are sent without TLS only on request: the environment says "true" (in any case) for
  insecure, or says nothing and the endpoint is an http URL.
\<close>

theorem export_is_encrypted_unless_asked:
  assumes "trace_endpoint env = Inr (Some (endpoint, True))"
  shows "is_true (trim_space (env ''OTEL_EXPORTER_OTLP_INSECURE''))
    \<or> trim_space (env ''OTEL_EXPORTER_OTLP_INSECURE'') = []
      \<and> (\<exists>u. url_parse (raw_endpoint env) = Some u \<and> url_scheme u = ''http''
             \<and> url_host u = endpoint)"
  using assms
  by (auto simp: trace_endpoint_def insecure_override_def Let_def split: option.splits if_splits)

definition visible :: "char \<Rightarrow> bool" where
  "visible c \<longleftrightarrow> 32 < code c \<and> code c < 127"

lemma white_space_invisible:
  assumes "visible c"
  shows "list_all (\<lambda>p. p \<noteq> [] \<and> hd p \<noteq> c) white_space"
    and "list_all (\<lambda>p. p \<noteq> [] \<and> hd p \<noteq> c) (map rev white_space)"
  using assms
  by (auto simp: white_space_def visible_def code_def byte_def upt_rec)

lemma trim_space_visible:
  assumes "list_all visible s" shows "trim_space s = s"
proof -
  have left: "trim_left t = t" if "list_all visible t" for t
  proof (cases t)
    case (Cons c cs)
    then have "strip_any white_space t = None"
      using white_space_invisible(1) [of c] that by (simp add: strip_any_none)
    then show ?thesis by (simp add: trim_left.simps)
  qed (simp add: trim_left.simps white_space_def strip_prefix_def byte_def upt_rec)
  have right: "trim_right_rev t = t" if "list_all visible t" for t
  proof (cases t)
    case (Cons c cs)
    then have "strip_any (map rev white_space) t = None"
      using white_space_invisible(2) [of c] that by (simp add: strip_any_none)
    then show ?thesis by (simp add: trim_right_rev.simps)
  qed (simp add: trim_right_rev.simps white_space_def strip_prefix_def byte_def upt_rec)
  have "list_all visible (rev s)" using assms by (simp add: list_all_iff)
  then show ?thesis using left [OF assms] right by (simp add: trim_space_def)
qed

text \<open>A host name as it stands in the address of a service.\<close>

definition host_name :: "string \<Rightarrow> bool" where
  "host_name h \<longleftrightarrow> h \<noteq> [] \<and> is_letter (hd h)
     \<and> list_all (\<lambda>c. is_letter c \<or> is_digit c \<or> c \<in> set ''+-.'') h"

lemma scheme_length_name:
  "list_all (\<lambda>c. is_letter c \<or> is_digit c \<or> c \<in> set ''+-.'') h \<Longrightarrow> 0 < i \<Longrightarrow>
     scheme_length i (h @ CHR '':'' # rest) = Some (Some (i + length h))"
proof (induction h arbitrary: i)
  case Nil
  then show ?case by (simp add: is_letter_def is_digit_def digit_value_def code_def)
qed auto

lemma get_scheme_name:
  assumes "host_name h"
  shows "get_scheme (h @ CHR '':'' # rest) = Some (h, rest)"
proof -
  obtain c cs where h: "h = c # cs" using assms by (cases h) (auto simp: host_name_def)
  then have "scheme_length 0 (h @ CHR '':'' # rest) = Some (Some (length h))"
    using assms scheme_length_name [of cs 1 rest] by (simp add: host_name_def)
  then show ?thesis by (simp add: get_scheme_def)
qed

lemma host_name_visible: "host_name h \<Longrightarrow> list_all (\<lambda>c. visible c \<and> \<not> control_char c \<and> c \<noteq> CHR ''#'') h"
  by (auto simp: host_name_def list_all_iff is_letter_def is_digit_code visible_def control_char_def
      code_def)

lemma digit_visible: "is_digit c \<Longrightarrow> visible c \<and> \<not> control_char c \<and> c \<notin> set ''#?/''"
  by (auto simp: is_digit_code visible_def control_char_def code_def)

lemma cut_absent: "sep \<notin> set s \<Longrightarrow> cut sep s = (s, [], False)"
proof -
  assume "sep \<notin> set s"
  then have run: "takeWhile (\<lambda>c. c \<noteq> sep) s = s" by (simp add: takeWhile_eq_all_conv) blast
  show ?thesis unfolding cut_def Let_def run using \<open>sep \<notin> set s\<close> by simp
qed

lemma url_parse_name_port:
  assumes h: "host_name h" and port: "list_all is_digit port"
  shows "url_parse (h @ CHR '':'' # port) =
    Some (empty_url\<lparr>url_scheme := lower h, url_opaque := port\<rparr>)"
proof -
  let ?s = "h @ CHR '':'' # port"
  have "CHR ''#'' \<notin> set ?s" "CHR ''?'' \<notin> set port" "\<not> list_ex control_char ?s"
    using host_name_visible [OF h] port digit_visible
    by (auto simp: list_all_iff list_ex_iff control_char_def code_def)
  moreover have "?s \<noteq> ''*''" "h \<noteq> []"
    using h by (cases h; auto simp: host_name_def is_letter_def code_def)+
  moreover have "take 1 port \<noteq> ''/''" using port by (cases port) (auto dest: digit_visible)
  ultimately show ?thesis
    by (simp add: url_parse_def cut_absent parse_reference_def get_scheme_name [OF h] Let_def
        unescape_path_def)
qed

text \<open>
  An endpoint given as host name and port, without a scheme, is taken for a URL whose scheme is
  the host name, so that tracing fails to start with an error, although an endpoint without a
  scheme is meant to be used as it stands (an IP address with a port is).
\<close>

theorem endpoint_without_scheme_is_rejected:
  assumes "raw_endpoint env = h @ CHR '':'' # port" "host_name h" "list_all is_digit port"
    and "lower h \<notin> {''http'', ''https''}"
  shows "fst (Setup (\<lambda>attrs. Inr attrs) new env hostname cfg g)
      = Inl (GoError (''unsupported OTLP endpoint scheme '' @ quote (lower h)))"
proof -
  have "lower h \<noteq> []" using assms(2) by (auto simp: host_name_def lower_def)
  then have "trace_endpoint env
      = Inl (GoError (''unsupported OTLP endpoint scheme '' @ quote (lower h)))"
    using assms url_parse_name_port [OF assms(2,3)]
    by (simp add: trace_endpoint_def Let_def empty_url_def)
  then show ?thesis by (simp add: Setup_def newTraceExporter_def Let_def)
qed

definition exporter_env :: "string \<Rightarrow> environ" where
  "exporter_env endpoint k = (if k = ''OTEL_EXPORTER_OTLP_ENDPOINT'' then endpoint else [])"

lemma raw_endpoint_env: "list_all visible endpoint \<Longrightarrow> raw_endpoint (exporter_env endpoint) = endpoint"
  by (simp add: raw_endpoint_def exporter_env_def trim_space_visible Let_def)

theorem endpoint_without_scheme_is_rejected_witness:
  "fst (Setup (\<lambda>attrs. Inr attrs) (\<lambda>endpoint insecure. Inr (endpoint, insecure))
      (exporter_env ''otel-collector:4317'') None \<lparr> config_service_name = [], config_component = [] \<rparr>
      \<lparr> text_map_propagators = [], global_provider = None \<rparr>)
    = Inl (GoError (''unsupported OTLP endpoint scheme '' @ quote (lower ''otel-collector'')))"
proof -
  have "list_all visible ''otel-collector:4317''" "host_name ''otel-collector''"
    "list_all is_digit ''4317''" "lower ''otel-collector'' \<notin> {''http'', ''https''}"
    by (simp_all add: visible_def code_def host_name_def is_letter_def is_digit_code lower_def byte_def)
  then show ?thesis
    by (intro endpoint_without_scheme_is_rejected [of _ "''otel-collector''" "''4317''"])
      (simp_all add: raw_endpoint_env)
qed

text \<open>The same form with a numeric address is used as it stands, with TLS.\<close>

lemma address_endpoint_is_used:
  "trace_endpoint (exporter_env ''10.0.0.5:4317'') = Inr (Some (''10.0.0.5:4317'', False))"
proof -
  have "list_all visible ''10.0.0.5:4317''" by (simp add: visible_def code_def)
  moreover have "url_parse ''10.0.0.5:4317'' = None" by code_simp
  moreover have "insecure_override (exporter_env e) b = b" for e b
    by (simp add: insecure_override_def exporter_env_def trim_space_visible)
  ultimately show ?thesis by (simp add: trace_endpoint_def raw_endpoint_env Let_def)
qed

theorem export_is_encrypted_unless_asked_witness:
  "trace_endpoint (exporter_env ''http://c:4317'') = Inr (Some (''c:4317'', True))
   \<and> trim_space (exporter_env ''http://c:4317'' ''OTEL_EXPORTER_OTLP_INSECURE'') = []
   \<and> (\<exists>u. url_parse ''http://c:4317'' = Some u \<and> url_scheme u = ''http'' \<and> url_host u = ''c:4317'')"
proof -
  let ?e = "exporter_env ''http://c:4317''"
  have raw: "raw_endpoint ?e = ''http://c:4317''"
    by (rule raw_endpoint_env) (simp add: visible_def code_def)
  have blank: "trim_space (?e ''OTEL_EXPORTER_OTLP_INSECURE'') = []"
    by (simp add: exporter_env_def trim_space_visible)
  have "map_option (\<lambda>u. (url_scheme u, url_host u)) (url_parse ''http://c:4317'')
      = Some (''http'', ''c:4317'')" by code_simp
  then have "trace_endpoint ?e = Inr (Some (''c:4317'', True))"
    using blank by (auto simp: trace_endpoint_def raw insecure_override_def Let_def)
  moreover have "\<not> is_true []" by (simp add: is_true_def same_letters_def)
  ultimately show ?thesis
    using export_is_encrypted_unless_asked [of ?e "''c:4317''"] blank raw by simp
qed

end
