(* ===== verification/Api_State.thy ===== *)
theory Api_State
  imports Api_Types
begin

text \<open>
  The state machine of \<open>api/v1/failoverip_state.go\<close>: the table of legal phase transitions, the
  validation of persisted statuses and of the two resource specifications, the bookkeeping of
  \<open>StartTransition\<close> and \<open>AdvanceTransition\<close>, and \<open>SetCondition\<close>.
\<close>

section \<open>The table of legal transitions\<close>

definition ConditionReady :: string where "ConditionReady = ''Ready''"
definition ConditionStabilizing :: string where "ConditionStabilizing = ''Stabilizing''"
definition ConditionTargetPrepared :: string where "ConditionTargetPrepared = ''TargetPrepared''"
definition ConditionProviderConverged :: string where
  "ConditionProviderConverged = ''ProviderConverged''"
definition ConditionTrafficVerified :: string where
  "ConditionTrafficVerified = ''TrafficVerified''"
definition ConditionOwnershipConverged :: string where
  "ConditionOwnershipConverged = ''OwnershipConverged''"
definition ConditionCooldown :: string where "ConditionCooldown = ''Cooldown''"
definition ConditionDegraded :: string where "ConditionDegraded = ''Degraded''"
definition ConditionBlocked :: string where "ConditionBlocked = ''Blocked''"

fun legalPhaseTransitions :: "failover_phase \<Rightarrow> failover_phase list option" where
  "legalPhaseTransitions FailoverPhaseIdle = Some [FailoverPhaseSelecting]"
| "legalPhaseTransitions FailoverPhaseSelecting =
     Some [FailoverPhaseStabilizing, FailoverPhaseBlocked]"
| "legalPhaseTransitions FailoverPhaseStabilizing =
     Some [FailoverPhasePreparingTarget, FailoverPhaseSelecting, FailoverPhaseBlocked]"
| "legalPhaseTransitions FailoverPhasePreparingTarget =
     Some [FailoverPhaseTargetPrepared, FailoverPhaseBlocked]"
| "legalPhaseTransitions FailoverPhaseTargetPrepared =
     Some [FailoverPhaseRoutingProvider, FailoverPhaseBlocked]"
| "legalPhaseTransitions FailoverPhaseRoutingProvider =
     Some [FailoverPhaseVerifyingProvider, FailoverPhaseDegraded, FailoverPhaseBlocked]"
| "legalPhaseTransitions FailoverPhaseVerifyingProvider =
     Some [FailoverPhaseVerifyingTraffic, FailoverPhaseDegraded, FailoverPhaseBlocked]"
| "legalPhaseTransitions FailoverPhaseVerifyingTraffic =
     Some [FailoverPhaseCommitting, FailoverPhaseDegraded, FailoverPhaseBlocked]"
| "legalPhaseTransitions FailoverPhaseCommitting =
     Some [FailoverPhaseCleaningStaleOwners, FailoverPhaseDegraded, FailoverPhaseBlocked]"
| "legalPhaseTransitions FailoverPhaseCleaningStaleOwners =
     Some [FailoverPhaseSucceeded, FailoverPhaseDegraded, FailoverPhaseBlocked]"
| "legalPhaseTransitions FailoverPhaseSucceeded = Some [FailoverPhaseSelecting]"
| "legalPhaseTransitions FailoverPhaseDegraded =
     Some [FailoverPhaseSelecting, FailoverPhaseBlocked]"
| "legalPhaseTransitions FailoverPhaseBlocked = Some [FailoverPhaseSelecting]"
| "legalPhaseTransitions _ = None"

definition CanTransition :: "failover_phase \<Rightarrow> failover_phase \<Rightarrow> bool" where
  "CanTransition from to =
     (case legalPhaseTransitions from of None \<Rightarrow> False | Some tos \<Rightarrow> to \<in> set tos)"

section \<open>Validation of a persisted status\<close>

definition ValidateStatus :: "failover_ip_status \<Rightarrow> go_error option" where
  "ValidateStatus status =
     (if phase status = FailoverPhaseEmpty then None
      else if transition_id status = '''' then
        Some (GoError (''phase '' @ phase_string (phase status) @ '' has no transition ID''))
      else if legalPhaseTransitions (phase status) = None then
        Some (GoError (''unknown failover phase '' @ quote (phase_string (phase status))))
      else if target_node status \<noteq> '''' \<and> source_node status \<noteq> ''''
           \<and> target_node status = source_node status
           \<and> phase status \<noteq> FailoverPhaseCommitting
           \<and> phase status \<noteq> FailoverPhaseCleaningStaleOwners
           \<and> phase status \<noteq> FailoverPhaseSucceeded \<and> phase status \<noteq> FailoverPhaseIdle then
        Some (GoError (''source and target node are identical: '' @ target_node status))
      else if phase status = FailoverPhaseSucceeded \<and> length (local_owners status) \<noteq> 1 then
        Some (GoError (''succeeded transition has '' @ itoa (int (length (local_owners status)))
               @ '' local owners, want exactly one''))
      else if phase status = FailoverPhaseSucceeded
           \<and> target_node status \<noteq> local_owners status ! 0 then
        Some (GoError (''succeeded transition target '' @ quote (target_node status)
               @ '' is not local owner '' @ quote (local_owners status ! 0)))
      else None)"

section \<open>Starting and advancing a transition\<close>

text \<open>\<open>uuid.NewUUID\<close> is outside the program: the new identity is an argument.\<close>

definition StartTransition :: "string \<Rightarrow> failover_ip_status \<Rightarrow> time \<Rightarrow> failover_ip_status" where
  "StartTransition uuid status now =
     (if transition_id status \<noteq> '''' then status
      else status\<lparr> transition_id := uuid, phase := FailoverPhaseSelecting,
                   phase_started_at := Some now, last_transition_at := Some now \<rparr>)"

definition AdvanceTransition ::
  "failover_ip_status \<Rightarrow> failover_phase \<Rightarrow> time \<Rightarrow> go_error + failover_ip_status" where
  "AdvanceTransition status to now =
     (if phase status = FailoverPhaseEmpty then
        Inl (GoError ''cannot advance an uninitialized status'')
      else if \<not> CanTransition (phase status) to then
        Inl (GoError (''illegal failover phase transition '' @ phase_string (phase status)
               @ '' -> '' @ phase_string to))
      else Inr (status\<lparr> last_successful_phase := phase status, phase := to,
                        phase_started_at := Some now, last_transition_at := Some now,
                        last_error := '''' \<rparr>))"

section \<open>Validation of the specifications\<close>

definition validateNetworkProbeSpec :: "failover_probe_spec \<Rightarrow> go_error option" where
  "validateNetworkProbeSpec spec =
     (let t = probe_kind spec in
      if target_address (target spec) = '''' then
        Some (GoError ''network probes require a target address'')
      else if (t = ProbeTypeTCP \<or> t = ProbeTypeTLS \<or> t = ProbeTypeHTTP \<or> t = ProbeTypeHTTPS)
           \<and> (target_port (target spec) < 1 \<or> target_port (target spec) > 65535) then
        Some (GoError ''network probe port must be between 1 and 65535'')
      else if insecure_skip_verify spec \<and> t \<noteq> ProbeTypeTLS \<and> t \<noteq> ProbeTypeHTTPS then
        Some (GoError ''insecureSkipVerify is only valid for TLS and HTTPS probes'')
      else if credential_secret_ref spec \<noteq> None \<and> t \<noteq> ProbeTypeHTTP \<and> t \<noteq> ProbeTypeHTTPS then
        Some (GoError ''credentialSecretRef is only valid for HTTP and HTTPS probes'')
      else if ca_bundle_secret_ref spec \<noteq> None \<and> t \<noteq> ProbeTypeTLS \<and> t \<noteq> ProbeTypeHTTPS then
        Some (GoError ''caBundleSecretRef is only valid for TLS and HTTPS probes'')
      else if timeout_seconds spec < 0 \<or> interval_seconds spec < 0 \<or> success_threshold spec < 0
           \<or> probe_failure_threshold spec < 0 \<or> initial_delay_seconds spec < 0 then
        Some (GoError ''probe timing and threshold values cannot be negative'')
      else if length (headers spec) > 32 then Some (GoError ''probe has too many headers'')
      else if expected_status_min spec < 0 \<or> expected_status_min spec > 599
           \<or> expected_status_max spec < 0 \<or> expected_status_max spec > 599
           \<or> (expected_status_min spec > 0 \<and> expected_status_max spec > 0
              \<and> expected_status_min spec > expected_status_max spec) then
        Some (GoError ''invalid expected HTTP status range'')
      else None)"

definition ValidateProbeSpec :: "failover_probe_spec \<Rightarrow> go_error option" where
  "ValidateProbeSpec spec =
     (if probe_spec_phase spec = ProbePhaseEmpty \<or> probe_kind spec = ProbeTypeEmpty then
        Some (GoError ''probe phase and type are required'')
      else if probe_spec_phase spec \<noteq> ProbePhasePreRoute
           \<and> probe_spec_phase spec \<noteq> ProbePhasePostRoute
           \<and> probe_spec_phase spec \<noteq> ProbePhaseContinuous then
        Some (GoError (''unsupported probe phase '' @ quote (probe_phase_string (probe_spec_phase spec))))
      else if composition spec = ProbeCompositionQuorum \<and> quorum spec < 1 then
        Some (GoError ''quorum must be at least one'')
      else if composition spec \<noteq> ProbeCompositionQuorum \<and> quorum spec \<noteq> 0 then
        Some (GoError ''quorum is only valid for quorum composition'')
      else if composition spec \<noteq> ProbeCompositionEmpty \<and> composition spec \<noteq> ProbeCompositionAll
           \<and> composition spec \<noteq> ProbeCompositionAny \<and> composition spec \<noteq> ProbeCompositionQuorum then
        Some (GoError (''unsupported probe composition ''
                       @ quote (probe_composition_string (composition spec))))
      else if probe_kind spec \<noteq> ProbeTypeTCP \<and> probe_kind spec \<noteq> ProbeTypeTLS
           \<and> probe_kind spec \<noteq> ProbeTypeHTTP \<and> probe_kind spec \<noteq> ProbeTypeHTTPS
           \<and> probe_kind spec \<noteq> ProbeTypeKubernetes then
        Some (GoError (''unsupported probe type '' @ quote (probe_type_string (probe_kind spec))))
      else if probe_kind spec = ProbeTypeKubernetes then
        (case kubernetes spec of
           None \<Rightarrow> Some (GoError ''kubernetes probes require kind and name'')
         | Some k \<Rightarrow> if kube_kind k = '''' \<or> kube_name k = ''''
                     then Some (GoError ''kubernetes probes require kind and name'') else None)
      else validateNetworkProbeSpec spec)"

definition ValidateFailoverIpSpec :: "failover_ip_spec \<Rightarrow> go_error option" where
  "ValidateFailoverIpSpec spec =
     (if provider_cooldown_seconds spec < 0 \<or> retry_base_seconds spec < 0
         \<or> retry_max_seconds spec < 0 \<or> spec_failure_threshold spec < 0
         \<or> spec_recovery_threshold spec < 0 \<or> cleanup_max_attempts_field spec < 0
         \<or> cleanup_retry_seconds spec < 0 \<or> stabilization_seconds spec < 0
         \<or> min_healthy_seconds spec < 0 then
        Some (GoError ''failover timing and threshold values cannot be negative'')
      else if retry_base_seconds spec > 0 \<and> retry_max_seconds spec > 0
           \<and> retry_base_seconds spec > retry_max_seconds spec then
        Some (GoError ''retryBaseSeconds cannot exceed retryMaxSeconds'')
      else if spec_probe_composition spec = ProbeCompositionQuorum \<and> spec_probe_quorum spec < 1 then
        Some (GoError ''probeQuorum must be at least one for quorum composition'')
      else if spec_probe_composition spec \<noteq> ProbeCompositionQuorum \<and> spec_probe_quorum spec \<noteq> 0 then
        Some (GoError ''probeQuorum is only valid for quorum composition'')
      else if spec_probe_composition spec \<noteq> ProbeCompositionEmpty
           \<and> spec_probe_composition spec \<noteq> ProbeCompositionAll
           \<and> spec_probe_composition spec \<noteq> ProbeCompositionAny
           \<and> spec_probe_composition spec \<noteq> ProbeCompositionQuorum then
        Some (GoError (''unsupported probe composition ''
                       @ quote (probe_composition_string (spec_probe_composition spec))))
      else None)"

section \<open>Conditions\<close>

text \<open>
  The loop of \<open>SetCondition\<close>: the first entry of the new condition's type is left alone when
  status, reason and message are unchanged, and otherwise replaced, keeping its observed
  generation; without such an entry the condition is appended.
\<close>

fun put_condition :: "condition \<Rightarrow> condition list \<Rightarrow> condition list" where
  "put_condition new [] = [new]"
| "put_condition new (c # cs) =
     (if cond_type c = cond_type new then
        (if cond_status c = cond_status new \<and> cond_reason c = cond_reason new
            \<and> cond_message c = cond_message new
         then c # cs
         else new\<lparr>cond_observed_generation := cond_observed_generation c\<rparr> # cs)
      else c # put_condition new cs)"

definition SetCondition ::
  "failover_ip_status \<Rightarrow> string \<Rightarrow> condition_status \<Rightarrow> string \<Rightarrow> string \<Rightarrow> time \<Rightarrow> failover_ip_status"
where
  "SetCondition status conditionType conditionStatus reason message now =
     (let trimmed = trim_space message;
          bounded = (if length trimmed > 256 then take 256 trimmed else trimmed);
          newCondition = \<lparr> cond_type = conditionType, cond_status = conditionStatus,
             cond_reason = reason, cond_message = bounded, cond_last_transition = now,
             cond_observed_generation = 0 \<rparr>
      in status\<lparr>conditions := put_condition newCondition (conditions status)\<rparr>)"

lemma put_condition_keys:
  "map cond_type (put_condition b xs) =
     (if cond_type b \<in> cond_type ` set xs then map cond_type xs
      else map cond_type xs @ [cond_type b])"
  by (induction xs) auto

lemma put_condition_other:
  "k \<noteq> cond_type b \<Longrightarrow>
     find (\<lambda>c. cond_type c = k) (put_condition b xs) = find (\<lambda>c. cond_type c = k) xs"
  by (induction xs) auto

interpretation foip_conditions: keyed_list cond_type put_condition cond_type
  by unfold_locales (auto simp: put_condition_keys put_condition_other)

text \<open>Every field of the status but the conditions is untouched by \<open>SetCondition\<close>.\<close>

lemma SetCondition_fields [simp]:
  "transition_id (SetCondition st ty cs r m t) = transition_id st"
  "phase (SetCondition st ty cs r m t) = phase st"
  "source_node (SetCondition st ty cs r m t) = source_node st"
  "target_node (SetCondition st ty cs r m t) = target_node st"
  "provider_observed_owner (SetCondition st ty cs r m t) = provider_observed_owner st"
  "local_owners (SetCondition st ty cs r m t) = local_owners st"
  "last_error (SetCondition st ty cs r m t) = last_error st"
  "last_attempted_mutation_at (SetCondition st ty cs r m t) = last_attempted_mutation_at st"
  "last_confirmed_mutation_at (SetCondition st ty cs r m t) = last_confirmed_mutation_at st"
  "next_eligible_mutation_at (SetCondition st ty cs r m t) = next_eligible_mutation_at st"
  "candidate_since (SetCondition st ty cs r m t) = candidate_since st"
  "candidate_failure_count (SetCondition st ty cs r m t) = candidate_failure_count st"
  "candidate_recovery_count (SetCondition st ty cs r m t) = candidate_recovery_count st"
  "recovery_action (SetCondition st ty cs r m t) = recovery_action st"
  "recovery_attempts (SetCondition st ty cs r m t) = recovery_attempts st"
  "cleanup_attempts (SetCondition st ty cs r m t) = cleanup_attempts st"
  "next_cleanup_at (SetCondition st ty cs r m t) = next_cleanup_at st"
  "retry_count (SetCondition st ty cs r m t) = retry_count st"
  "last_successful_phase (SetCondition st ty cs r m t) = last_successful_phase st"
  "manual_reconcile_token (SetCondition st ty cs r m t) = manual_reconcile_token st"
  "phase_started_at (SetCondition st ty cs r m t) = phase_started_at st"
  "last_transition_at (SetCondition st ty cs r m t) = last_transition_at st"
  "candidate_reason (SetCondition st ty cs r m t) = candidate_reason st"
  by (simp_all add: SetCondition_def Let_def)

section \<open>Properties\<close>

text \<open>The safety gates of a hand-over, in order.\<close>

definition handoff_gates :: "failover_phase list" where
  "handoff_gates = [FailoverPhaseStabilizing, FailoverPhasePreparingTarget,
     FailoverPhaseTargetPrepared, FailoverPhaseRoutingProvider, FailoverPhaseVerifyingProvider,
     FailoverPhaseVerifyingTraffic, FailoverPhaseCommitting, FailoverPhaseCleaningStaleOwners,
     FailoverPhaseSucceeded]"

text \<open>Repeated \<open>AdvanceTransition\<close>, stopping at the first error.\<close>

fun advance_all ::
  "failover_ip_status \<Rightarrow> (failover_phase \<times> time) list \<Rightarrow> go_error + failover_ip_status" where
  "advance_all st [] = Inr st"
| "advance_all st ((to, now) # moves) =
     (case AdvanceTransition st to now of Inl e \<Rightarrow> Inl e | Inr st' \<Rightarrow> advance_all st' moves)"

lemma advance_all_path:
  "advance_all st moves = Inr st' \<Longrightarrow>
     successively CanTransition (phase st # map fst moves)
     \<and> phase st' = last (phase st # map fst moves)"
proof (induction st moves rule: advance_all.induct)
  case (2 st to now moves)
  then show ?case
    by (cases "AdvanceTransition st to now") (auto simp: AdvanceTransition_def split: if_splits)
qed simp

lemma CanTransition_cases:
  "CanTransition a b \<longleftrightarrow> (\<exists>tos. legalPhaseTransitions a = Some tos \<and> b \<in> set tos)"
  by (simp add: CanTransition_def split: option.split)

lemma gates_forced:
  "successively (\<lambda>a b. \<forall>x. CanTransition x b \<longrightarrow> x = a) (FailoverPhaseSelecting # handoff_gates)"
proof -
  have "CanTransition x b \<Longrightarrow> (a, b) \<in> set (zip (FailoverPhaseSelecting # handoff_gates) handoff_gates)
      \<Longrightarrow> x = a" for x a b
    by (cases x) (auto simp: CanTransition_def handoff_gates_def)
  then show ?thesis
    unfolding handoff_gates_def by simp
qed

text \<open>
  C20: No sequence of legal transitions reaches Succeeded without passing, last and in order,
  every gate of a hand-over: from any phase that is not itself a gate, the phases entered end
  with Stabilizing, PreparingTarget, TargetPrepared, RoutingProvider, VerifyingProvider,
  VerifyingTraffic, Committing, CleaningStaleOwners, Succeeded.
\<close>

theorem gate_order:
  assumes "advance_all st moves = Inr st'"
    and "phase st \<notin> set handoff_gates" and "phase st' = FailoverPhaseSucceeded"
  shows "\<exists>pre. map fst moves = pre @ handoff_gates"
proof -
  have path: "successively CanTransition (phase st # map fst moves)"
    "last (phase st # map fst moves) = FailoverPhaseSucceeded"
    using advance_all_path [OF assms(1)] assms(3) by simp_all
  have "last (FailoverPhaseSelecting # handoff_gates) = FailoverPhaseSucceeded"
    by (simp add: handoff_gates_def)
  with path assms(2) obtain q where "phase st # map fst moves = q @ FailoverPhaseSelecting # handoff_gates"
    using forced_suffix [OF gates_forced path(1)] by auto
  then show ?thesis
    by (cases q) auto
qed

theorem gate_order_witness:
  "\<exists>pre. map fst (map (\<lambda>p. (p, 5::time)) (FailoverPhaseSelecting # handoff_gates)) = pre @ handoff_gates"
proof (rule gate_order)
  let ?st = "empty_status\<lparr>transition_id := ''t'', phase := FailoverPhaseBlocked\<rparr>"
  show "phase ?st \<notin> set handoff_gates" by (simp add: handoff_gates_def)
  show "advance_all ?st (map (\<lambda>p. (p, 5::time)) (FailoverPhaseSelecting # handoff_gates))
      = Inr (?st\<lparr>phase := FailoverPhaseSucceeded, phase_started_at := Some 5, last_transition_at := Some 5,
          last_successful_phase := FailoverPhaseCleaningStaleOwners, last_error := ''''\<rparr>)"
    by (simp add: handoff_gates_def AdvanceTransition_def CanTransition_def)
qed simp

definition status_condition :: "failover_ip_status \<Rightarrow> string \<Rightarrow> condition option" where
  "status_condition st ty = find (\<lambda>c. cond_type c = ty) (conditions st)"

lemma put_condition_find:
  "\<exists>c. find (\<lambda>c. cond_type c = cond_type new) (put_condition new cs) = Some c
     \<and> cond_status c = cond_status new \<and> cond_reason c = cond_reason new
     \<and> cond_message c = cond_message new"
  by (induction cs) auto

lemma put_condition_again:
  assumes "cond_type new' = cond_type new" "cond_status new' = cond_status new"
    "cond_reason new' = cond_reason new" "cond_message new' = cond_message new"
  shows "put_condition new' (put_condition new cs) = put_condition new cs"
  using assms by (induction cs) auto

lemma bounded_take: "(if length s > n then take n s else s) = take n s"
  by simp

text \<open>
  After SetCondition the status has a condition of the given type that carries the given
  status and reason and the first 256 bytes of the trimmed message; conditions of every other
  type and every other field of the status are what they were.
\<close>

theorem SetCondition_upserts:
  "(\<exists>c. status_condition (SetCondition st ty cs reason message now) ty = Some c
      \<and> cond_status c = cs \<and> cond_reason c = reason
      \<and> cond_message c = take 256 (trim_space message) \<and> length (cond_message c) \<le> 256)
   \<and> (status_condition (SetCondition st ty cs reason message now))(ty := None)
      = (status_condition st)(ty := None)
   \<and> (SetCondition st ty cs reason message now)\<lparr>conditions := conditions st\<rparr> = st"
proof -
  define new where "new = \<lparr> cond_type = ty, cond_status = cs, cond_reason = reason,
    cond_message = take 256 (trim_space message), cond_last_transition = now,
    cond_observed_generation = 0 \<rparr>"
  have set: "SetCondition st ty cs reason message now
      = st\<lparr>conditions := put_condition new (conditions st)\<rparr>"
    by (simp add: SetCondition_def Let_def new_def)
  have "status_condition (SetCondition st ty cs reason message now) k = status_condition st k"
    if "k \<noteq> ty" for k
    using put_condition_other [of k new "conditions st"] that
    by (simp add: set status_condition_def new_def)
  moreover have "\<exists>c. status_condition (SetCondition st ty cs reason message now) ty = Some c
      \<and> cond_status c = cs \<and> cond_reason c = reason
      \<and> cond_message c = take 256 (trim_space message)"
    using put_condition_find [of new "conditions st"]
    by (simp add: set status_condition_def) (simp add: new_def)
  ultimately show ?thesis by (auto simp: set)
qed

text \<open>
  Setting a condition again with the same status, reason and message changes nothing, in
  particular not the transition time of the first setting.
\<close>

theorem SetCondition_idempotent:
  "SetCondition (SetCondition st ty cs reason message now) ty cs reason message later
     = SetCondition st ty cs reason message now"
  by (simp add: SetCondition_def Let_def put_condition_again)

text \<open>
  The status of a completed hand-over, whose cleanup leaves the target as its own source
  node, is valid, but the move from Succeeded back to Selecting that opens the next hand-over
  turns it into one that ValidateStatus rejects.
\<close>

theorem reopening_success_is_rejected:
  assumes "ValidateStatus st = None" "phase st = FailoverPhaseSucceeded"
    and "source_node st = target_node st" "target_node st \<noteq> ''''"
  shows "\<exists>st'. AdvanceTransition st FailoverPhaseSelecting now = Inr st'
    \<and> ValidateStatus st' = Some (GoError (''source and target node are identical: '' @ target_node st))"
  using assms by (auto simp: AdvanceTransition_def CanTransition_def ValidateStatus_def split: if_splits)

theorem reopening_success_is_rejected_witness:
  "\<exists>st'. AdvanceTransition (empty_status\<lparr>transition_id := ''t'', phase := FailoverPhaseSucceeded,
         source_node := ''b'', target_node := ''b'', local_owners := [''b'']\<rparr>) FailoverPhaseSelecting 7
      = Inr st'
    \<and> ValidateStatus st' = Some (GoError ''source and target node are identical: b'')"
  using reopening_success_is_rejected
    [of "empty_status\<lparr>transition_id := ''t'', phase := FailoverPhaseSucceeded,
         source_node := ''b'', target_node := ''b'', local_owners := [''b'']\<rparr>" 7]
  by (simp add: ValidateStatus_def)

text \<open>
  C21: A status that ValidateStatus accepts in a phase of a hand-over belongs to a known
  transition, keeps source and target apart until the commit, and, once Succeeded, has exactly
  its target as local owner.
\<close>

theorem ValidateStatus_sound:
  assumes "ValidateStatus st = None" "phase st \<noteq> FailoverPhaseEmpty"
  shows "transition_id st \<noteq> ''''
    \<and> (phase st \<in> set (FailoverPhaseIdle # FailoverPhaseSelecting # handoff_gates
         @ [FailoverPhaseDegraded, FailoverPhaseBlocked]))
    \<and> (phase st \<in> {FailoverPhaseIdle, FailoverPhaseCommitting,
          FailoverPhaseCleaningStaleOwners, FailoverPhaseSucceeded}
       \<or> target_node st = '''' \<or> source_node st \<noteq> target_node st)
    \<and> (phase st \<noteq> FailoverPhaseSucceeded \<or> local_owners st = [target_node st])"
  using assms
  by (cases "phase st"; cases "local_owners st")
    (auto simp: ValidateStatus_def handoff_gates_def split: if_splits)

theorem ValidateStatus_sound_witness:
  "\<exists>st. ValidateStatus st = None \<and> phase st = FailoverPhaseSucceeded \<and> local_owners st = [''b'']
     \<and> local_owners st = [target_node st]"
proof (intro exI conjI)
  let ?st = "empty_status\<lparr>transition_id := ''t'', phase := FailoverPhaseSucceeded,
         source_node := ''b'', target_node := ''b'', local_owners := [''b'']\<rparr>"
  show *: "ValidateStatus ?st = None" "phase ?st = FailoverPhaseSucceeded" "local_owners ?st = [''b'']"
    by (simp_all add: ValidateStatus_def)
  show "local_owners ?st = [target_node ?st]"
    using ValidateStatus_sound [OF *(1)] by simp
qed

end
