(* ===== verification/Controller_Calls.thy ===== *)
theory Controller_Calls
  imports Api_State Observability Ip_Address
begin

text \<open>
  The calls through which the failover controller acts on the world, and what it means to run
  code that makes them.  The API server, the provider behind the Go interface
  \<open>failoverIPClient\<close>, the clock, the random source and the probe executors are not part of the
  controller: each call returns whatever its environment answers.  Controller code is a
  \<open>prog\<close>: a result, or a call together with the code that continues from its answer, written
  in the order the Go code makes the calls.  The small-step relation \<open>pstep\<close> lets every
  environment answer; \<open>run\<close> executes code in one environment given as functions.
\<close>

section \<open>Results\<close>

record probe_result =
  result_success :: bool
  result_reason :: string

record reconcile_result =
  requeue_after :: duration
  result_err :: "go_error option"

text \<open>\<open>ctrl.Result{RequeueAfter: d}, nil\<close> and \<open>ctrl.Result{}, err\<close>.\<close>

definition requeue :: "duration \<Rightarrow> reconcile_result" where
  "requeue d = \<lparr> requeue_after = d, result_err = None \<rparr>"

definition failed :: "go_error \<Rightarrow> reconcile_result" where
  "failed e = \<lparr> requeue_after = 0, result_err = Some e \<rparr>"

lemma result_simps [simp]:
  "requeue_after (requeue d) = d" "result_err (requeue d) = None"
  "requeue_after (failed e) = 0" "result_err (failed e) = Some e"
  by (simp_all add: requeue_def failed_def)

section \<open>Network interfaces\<close>

text \<open>
  What the node agent reads of a network interface: its name and the text of its hardware
  address.  Interfaces and addresses are reached through \<open>netlink\<close>, whose calls are calls of
  the environment too.
\<close>

record link =
  link_name :: string
  link_mac :: string

text \<open>An address of an interface, with the length of its mask.\<close>

type_synonym net_addr = "ip \<times> nat"

section \<open>Code that makes calls\<close>

datatype 'a prog =
  Return 'a
| Now "time \<Rightarrow> 'a prog"
| GetFailoverIp string string "go_error + failover_ip \<Rightarrow> 'a prog"
| PatchStatus failover_ip failover_ip "go_error + failover_ip \<Rightarrow> 'a prog"
| UpdateStatus failover_ip "go_error + failover_ip \<Rightarrow> 'a prog"
| GetSecret string string "go_error + string_map \<Rightarrow> 'a prog"
| ListNodes "go_error + node list \<Rightarrow> 'a prog"
| GetNode string "go_error + node \<Rightarrow> 'a prog"
| GetProbe string string "go_error + failover_probe \<Rightarrow> 'a prog"
| PatchProbeStatus failover_probe failover_probe "go_error option \<Rightarrow> 'a prog"
| ExecuteProbe failover_probe_spec string string "probe_result \<Rightarrow> 'a prog"
| ExecuteKubernetes "kubernetes_readiness_target option" "probe_result \<Rightarrow> 'a prog"
| NewClient int string "'a prog"
| FindFailoverIP string "go_error + int \<times> int \<Rightarrow> 'a prog"
| RouteFailoverIP int int "go_error option \<Rightarrow> 'a prog"
| WaitInterval duration "go_error option \<Rightarrow> 'a prog"
| RandInt64N int "int \<Rightarrow> 'a prog"
| NewUUID "string \<Rightarrow> 'a prog"
| RecorderPresent "bool \<Rightarrow> 'a prog"
| ReadEvents "event_deduper option \<Rightarrow> 'a prog"
| WriteEvents event_deduper "'a prog"
| RecordEvent failover_ip string string string "'a prog"
| Observe "metric_call list" "'a prog"
| LinkList "go_error + link list \<Rightarrow> 'a prog"
| AddrList link "go_error + net_addr list \<Rightarrow> 'a prog"
| AddrAdd link net_addr "go_error option \<Rightarrow> 'a prog"
| AddrDel link net_addr "go_error option \<Rightarrow> 'a prog"

text \<open>One completed call with its answer.\<close>

datatype event =
  EvNow time
| EvGetFailoverIp string string "go_error + failover_ip"
| EvPatchStatus failover_ip failover_ip "go_error + failover_ip"
| EvUpdateStatus failover_ip "go_error + failover_ip"
| EvGetSecret string string "go_error + string_map"
| EvListNodes "go_error + node list"
| EvGetNode string "go_error + node"
| EvGetProbe string string "go_error + failover_probe"
| EvPatchProbeStatus failover_probe failover_probe "go_error option"
| EvExecuteProbe failover_probe_spec string string probe_result
| EvExecuteKubernetes "kubernetes_readiness_target option" probe_result
| EvNewClient int string
| EvFindFailoverIP string "go_error + int \<times> int"
| EvRouteFailoverIP int int "go_error option"
| EvWaitInterval duration "go_error option"
| EvRandInt64N int int
| EvNewUUID string
| EvRecorderPresent bool
| EvReadEvents "event_deduper option"
| EvWriteEvents event_deduper
| EvRecordEvent failover_ip string string string
| EvObserve "metric_call list"
| EvLinkList "go_error + link list"
| EvAddrList link "go_error + net_addr list"
| EvAddrAdd link net_addr "go_error option"
| EvAddrDel link net_addr "go_error option"

section \<open>Small steps\<close>

inductive pstep :: "'a prog \<Rightarrow> event \<Rightarrow> 'a prog \<Rightarrow> bool" where
  now: "pstep (Now k) (EvNow t) (k t)"
| get_foip: "pstep (GetFailoverIp ns n k) (EvGetFailoverIp ns n r) (k r)"
| patch: "pstep (PatchStatus b f k) (EvPatchStatus b f r) (k r)"
| update: "pstep (UpdateStatus f k) (EvUpdateStatus f r) (k r)"
| get_secret: "pstep (GetSecret ns n k) (EvGetSecret ns n sec) (k sec)"
| list_nodes: "pstep (ListNodes k) (EvListNodes nodes) (k nodes)"
| get_node: "pstep (GetNode n k) (EvGetNode n nd) (k nd)"
| get_probe: "pstep (GetProbe ns n k) (EvGetProbe ns n p) (k p)"
| patch_probe: "pstep (PatchProbeStatus b p k) (EvPatchProbeStatus b p e) (k e)"
| exec_probe: "pstep (ExecuteProbe sp cred ca k) (EvExecuteProbe sp cred ca res) (k res)"
| exec_kube: "pstep (ExecuteKubernetes tgt k) (EvExecuteKubernetes tgt res) (k res)"
| new_client: "pstep (NewClient uid tok p) (EvNewClient uid tok) p"
| find_ip: "pstep (FindFailoverIP ip k) (EvFindFailoverIP ip fr) (k fr)"
| route_ip: "pstep (RouteFailoverIP f s k) (EvRouteFailoverIP f s e) (k e)"
| wait: "pstep (WaitInterval d k) (EvWaitInterval d e) (k e)"
| rand: "pstep (RandInt64N n k) (EvRandInt64N n j) (k j)"
| uuid: "pstep (NewUUID k) (EvNewUUID u) (k u)"
| recorder: "pstep (RecorderPresent k) (EvRecorderPresent b) (k b)"
| read_events: "pstep (ReadEvents k) (EvReadEvents d) (k d)"
| write_events: "pstep (WriteEvents d p) (EvWriteEvents d) p"
| record_event: "pstep (RecordEvent f ty rs m p) (EvRecordEvent f ty rs m) p"
| observe: "pstep (Observe ms p) (EvObserve ms) p"
| link_list: "pstep (LinkList k) (EvLinkList ls) (k ls)"
| addr_list: "pstep (AddrList l k) (EvAddrList l as) (k as)"
| addr_add: "pstep (AddrAdd l a k) (EvAddrAdd l a e) (k e)"
| addr_del: "pstep (AddrDel l a k) (EvAddrDel l a e) (k e)"

inductive_cases pstep_ReturnE [elim!]: "pstep (Return x) e p"

text \<open>
  Executions: the calls made so far, oldest first, and the code still to run.  An execution
  may stop anywhere: a crash, a lost leadership or a restart of the process between two calls
  is an execution that is not continued.
\<close>

inductive steps :: "'a prog \<Rightarrow> event list \<Rightarrow> 'a prog \<Rightarrow> bool" where
  none: "steps p [] p"
| more: "pstep p e p' \<Longrightarrow> steps p' es p'' \<Longrightarrow> steps p (e # es) p''"

inductive_simps steps_simps: "steps p [] q" "steps p (e # es) q"
inductive_simps pstep_simps: "pstep (Return x) e q" "pstep (Now k) e q"
  "pstep (GetFailoverIp ns n k') e q" "pstep (PatchStatus b f k') e q"
  "pstep (UpdateStatus f k') e q" "pstep (GetSecret ns n ks) e q" "pstep (ListNodes kn) e q"
  "pstep (GetNode n kd) e q" "pstep (GetProbe ns n kp) e q" "pstep (PatchProbeStatus bp pp ke) e q"
  "pstep (ExecuteProbe sp cred ca kr) e q" "pstep (ExecuteKubernetes tgt kr) e q"
  "pstep (NewClient uid tok p) e q" "pstep (FindFailoverIP ip kf) e q"
  "pstep (RouteFailoverIP i s ke) e q" "pstep (WaitInterval d ke) e q"
  "pstep (RandInt64N m kj) e q" "pstep (NewUUID ku) e q" "pstep (RecorderPresent kb) e q"
  "pstep (ReadEvents kev) e q" "pstep (WriteEvents ev p) e q"
  "pstep (RecordEvent f ty rs ms p) e q" "pstep (Observe mc p) e q" "pstep (LinkList kl) e q"
  "pstep (AddrList lk ka) e q" "pstep (AddrAdd lk ad ke) e q" "pstep (AddrDel lk ad ke) e q"

lemma steps_prefix: "steps p es p' \<Longrightarrow> es = as @ bs \<Longrightarrow> \<exists>p''. steps p as p'' \<and> steps p'' bs p'"
proof (induction arbitrary: as rule: steps.induct)
  case (none p)
  then show ?case by (auto intro: steps.none)
next
  case (more p e p' es p'')
  show ?case
  proof (cases as)
    case Nil
    with more show ?thesis by (auto intro: steps.intros)
  next
    case (Cons a as')
    with more show ?thesis by (force intro: steps.more)
  qed
qed

section \<open>Weakest preconditions\<close>

text \<open>
  \<open>wp P Q H p\<close>: whatever the environment answers, every call of \<open>p\<close> satisfies \<open>P\<close> of the
  calls completed before it, and every result satisfies \<open>Q\<close> of all completed calls; \<open>H\<close> are
  the calls completed before \<open>p\<close> starts.
\<close>

primrec wp :: "(event set \<Rightarrow> event \<Rightarrow> bool) \<Rightarrow> (event set \<Rightarrow> 'a \<Rightarrow> bool) \<Rightarrow> event set \<Rightarrow> 'a prog \<Rightarrow> bool"
where
  "wp P Q H (Return x) \<longleftrightarrow> Q H x"
| "wp P Q H (Now k) \<longleftrightarrow> (\<forall>t. P H (EvNow t) \<and> wp P Q (insert (EvNow t) H) (k t))"
| "wp P Q H (GetFailoverIp ns n k) \<longleftrightarrow>
     (\<forall>r. P H (EvGetFailoverIp ns n r) \<and> wp P Q (insert (EvGetFailoverIp ns n r) H) (k r))"
| "wp P Q H (PatchStatus b f k) \<longleftrightarrow>
     (\<forall>r. P H (EvPatchStatus b f r) \<and> wp P Q (insert (EvPatchStatus b f r) H) (k r))"
| "wp P Q H (UpdateStatus f k) \<longleftrightarrow>
     (\<forall>r. P H (EvUpdateStatus f r) \<and> wp P Q (insert (EvUpdateStatus f r) H) (k r))"
| "wp P Q H (GetSecret ns n k) \<longleftrightarrow>
     (\<forall>r. P H (EvGetSecret ns n r) \<and> wp P Q (insert (EvGetSecret ns n r) H) (k r))"
| "wp P Q H (ListNodes k) \<longleftrightarrow>
     (\<forall>r. P H (EvListNodes r) \<and> wp P Q (insert (EvListNodes r) H) (k r))"
| "wp P Q H (GetNode n k) \<longleftrightarrow>
     (\<forall>r. P H (EvGetNode n r) \<and> wp P Q (insert (EvGetNode n r) H) (k r))"
| "wp P Q H (GetProbe ns n k) \<longleftrightarrow>
     (\<forall>r. P H (EvGetProbe ns n r) \<and> wp P Q (insert (EvGetProbe ns n r) H) (k r))"
| "wp P Q H (PatchProbeStatus b p k) \<longleftrightarrow>
     (\<forall>r. P H (EvPatchProbeStatus b p r) \<and> wp P Q (insert (EvPatchProbeStatus b p r) H) (k r))"
| "wp P Q H (ExecuteProbe sp cred ca k) \<longleftrightarrow>
     (\<forall>r. P H (EvExecuteProbe sp cred ca r)
        \<and> wp P Q (insert (EvExecuteProbe sp cred ca r) H) (k r))"
| "wp P Q H (ExecuteKubernetes tgt k) \<longleftrightarrow>
     (\<forall>r. P H (EvExecuteKubernetes tgt r) \<and> wp P Q (insert (EvExecuteKubernetes tgt r) H) (k r))"
| "wp P Q H (NewClient uid tok p) \<longleftrightarrow>
     P H (EvNewClient uid tok) \<and> wp P Q (insert (EvNewClient uid tok) H) p"
| "wp P Q H (FindFailoverIP ip k) \<longleftrightarrow>
     (\<forall>r. P H (EvFindFailoverIP ip r) \<and> wp P Q (insert (EvFindFailoverIP ip r) H) (k r))"
| "wp P Q H (RouteFailoverIP f s k) \<longleftrightarrow>
     (\<forall>r. P H (EvRouteFailoverIP f s r) \<and> wp P Q (insert (EvRouteFailoverIP f s r) H) (k r))"
| "wp P Q H (WaitInterval d k) \<longleftrightarrow>
     (\<forall>r. P H (EvWaitInterval d r) \<and> wp P Q (insert (EvWaitInterval d r) H) (k r))"
| "wp P Q H (RandInt64N n k) \<longleftrightarrow>
     (\<forall>r. P H (EvRandInt64N n r) \<and> wp P Q (insert (EvRandInt64N n r) H) (k r))"
| "wp P Q H (NewUUID k) \<longleftrightarrow> (\<forall>r. P H (EvNewUUID r) \<and> wp P Q (insert (EvNewUUID r) H) (k r))"
| "wp P Q H (RecorderPresent k) \<longleftrightarrow>
     (\<forall>r. P H (EvRecorderPresent r) \<and> wp P Q (insert (EvRecorderPresent r) H) (k r))"
| "wp P Q H (ReadEvents k) \<longleftrightarrow>
     (\<forall>r. P H (EvReadEvents r) \<and> wp P Q (insert (EvReadEvents r) H) (k r))"
| "wp P Q H (WriteEvents d p) \<longleftrightarrow> P H (EvWriteEvents d) \<and> wp P Q (insert (EvWriteEvents d) H) p"
| "wp P Q H (RecordEvent f ty rs m p) \<longleftrightarrow>
     P H (EvRecordEvent f ty rs m) \<and> wp P Q (insert (EvRecordEvent f ty rs m) H) p"
| "wp P Q H (Observe ms p) \<longleftrightarrow> P H (EvObserve ms) \<and> wp P Q (insert (EvObserve ms) H) p"
| "wp P Q H (LinkList k) \<longleftrightarrow>
     (\<forall>r. P H (EvLinkList r) \<and> wp P Q (insert (EvLinkList r) H) (k r))"
| "wp P Q H (AddrList l k) \<longleftrightarrow>
     (\<forall>r. P H (EvAddrList l r) \<and> wp P Q (insert (EvAddrList l r) H) (k r))"
| "wp P Q H (AddrAdd l a k) \<longleftrightarrow>
     (\<forall>r. P H (EvAddrAdd l a r) \<and> wp P Q (insert (EvAddrAdd l a r) H) (k r))"
| "wp P Q H (AddrDel l a k) \<longleftrightarrow>
     (\<forall>r. P H (EvAddrDel l a r) \<and> wp P Q (insert (EvAddrDel l a r) H) (k r))"

lemma wp_pstep: "pstep p e p' \<Longrightarrow> wp P Q H p \<Longrightarrow> P H e \<and> wp P Q (insert e H) p'"
  by (induction rule: pstep.induct) auto

lemma wp_steps:
  "steps p es p' \<Longrightarrow> wp P Q H p \<Longrightarrow> wp P Q (set es \<union> H) p'"
proof (induction arbitrary: H rule: steps.induct)
  case (more p e p' es p'')
  then have "wp P Q (insert e H) p'" by (blast dest: wp_pstep)
  then have "wp P Q (set es \<union> insert e H) p''" by (rule more.IH)
  then show ?case by simp
qed simp

text \<open>The two ways a precondition is used: on a call inside an execution, and on its result.\<close>

lemma wp_call:
  assumes "wp P Q {} p" and "steps p (pre @ e # post) p'"
  shows "P (set pre) e"
proof -
  from steps_prefix [OF assms(2) refl] obtain q
    where q: "steps p pre q" "steps q (e # post) p'" by blast
  from wp_steps [OF q(1) assms(1)] have "wp P Q (set pre) q" by simp
  moreover from q(2) obtain q' where "pstep q e q'" by (auto elim: steps.cases)
  ultimately show ?thesis by (blast dest: wp_pstep)
qed

lemma wp_result:
  assumes "wp P Q {} p" and "steps p es (Return x)"
  shows "Q (set es) x"
  using wp_steps [OF assms(2,1)] by simp

section \<open>Sequencing\<close>

primrec bind :: "'a prog \<Rightarrow> ('a \<Rightarrow> 'b prog) \<Rightarrow> 'b prog" where
  "bind (Return x) f = f x"
| "bind (Now k) f = Now (\<lambda>t. bind (k t) f)"
| "bind (GetFailoverIp ns n k) f = GetFailoverIp ns n (\<lambda>r. bind (k r) f)"
| "bind (PatchStatus b p k) f = PatchStatus b p (\<lambda>r. bind (k r) f)"
| "bind (UpdateStatus p k) f = UpdateStatus p (\<lambda>r. bind (k r) f)"
| "bind (GetSecret ns n k) f = GetSecret ns n (\<lambda>r. bind (k r) f)"
| "bind (ListNodes k) f = ListNodes (\<lambda>r. bind (k r) f)"
| "bind (GetNode n k) f = GetNode n (\<lambda>r. bind (k r) f)"
| "bind (GetProbe ns n k) f = GetProbe ns n (\<lambda>r. bind (k r) f)"
| "bind (PatchProbeStatus b p k) f = PatchProbeStatus b p (\<lambda>r. bind (k r) f)"
| "bind (ExecuteProbe sp cred ca k) f = ExecuteProbe sp cred ca (\<lambda>r. bind (k r) f)"
| "bind (ExecuteKubernetes tgt k) f = ExecuteKubernetes tgt (\<lambda>r. bind (k r) f)"
| "bind (NewClient uid tok p) f = NewClient uid tok (bind p f)"
| "bind (FindFailoverIP ip k) f = FindFailoverIP ip (\<lambda>r. bind (k r) f)"
| "bind (RouteFailoverIP i s k) f = RouteFailoverIP i s (\<lambda>r. bind (k r) f)"
| "bind (WaitInterval d k) f = WaitInterval d (\<lambda>r. bind (k r) f)"
| "bind (RandInt64N n k) f = RandInt64N n (\<lambda>r. bind (k r) f)"
| "bind (NewUUID k) f = NewUUID (\<lambda>r. bind (k r) f)"
| "bind (RecorderPresent k) f = RecorderPresent (\<lambda>r. bind (k r) f)"
| "bind (ReadEvents k) f = ReadEvents (\<lambda>r. bind (k r) f)"
| "bind (WriteEvents d p) f = WriteEvents d (bind p f)"
| "bind (RecordEvent i ty rs m p) f = RecordEvent i ty rs m (bind p f)"
| "bind (Observe ms p) f = Observe ms (bind p f)"
| "bind (LinkList k) f = LinkList (\<lambda>r. bind (k r) f)"
| "bind (AddrList l k) f = AddrList l (\<lambda>r. bind (k r) f)"
| "bind (AddrAdd l a k) f = AddrAdd l a (\<lambda>r. bind (k r) f)"
| "bind (AddrDel l a k) f = AddrDel l a (\<lambda>r. bind (k r) f)"

lemma wp_bind: "wp P Q H (bind p f) \<longleftrightarrow> wp P (\<lambda>H' x. wp P Q H' (f x)) H p"
  by (induction p arbitrary: H) simp_all

section \<open>Running in one environment\<close>

record 'w environment =
  env_now :: "'w \<Rightarrow> time \<times> 'w"
  env_get_foip :: "string \<Rightarrow> string \<Rightarrow> 'w \<Rightarrow> (go_error + failover_ip) \<times> 'w"
  env_patch :: "failover_ip \<Rightarrow> failover_ip \<Rightarrow> 'w \<Rightarrow> (go_error + failover_ip) \<times> 'w"
  env_update :: "failover_ip \<Rightarrow> 'w \<Rightarrow> (go_error + failover_ip) \<times> 'w"
  env_secret :: "string \<Rightarrow> string \<Rightarrow> 'w \<Rightarrow> (go_error + string_map) \<times> 'w"
  env_nodes :: "'w \<Rightarrow> (go_error + node list) \<times> 'w"
  env_node :: "string \<Rightarrow> 'w \<Rightarrow> (go_error + node) \<times> 'w"
  env_probe :: "string \<Rightarrow> string \<Rightarrow> 'w \<Rightarrow> (go_error + failover_probe) \<times> 'w"
  env_patch_probe :: "failover_probe \<Rightarrow> failover_probe \<Rightarrow> 'w \<Rightarrow> go_error option \<times> 'w"
  env_execute :: "failover_probe_spec \<Rightarrow> string \<Rightarrow> string \<Rightarrow> 'w \<Rightarrow> probe_result \<times> 'w"
  env_kubernetes :: "kubernetes_readiness_target option \<Rightarrow> 'w \<Rightarrow> probe_result \<times> 'w"
  env_client :: "int \<Rightarrow> string \<Rightarrow> 'w \<Rightarrow> 'w"
  env_find :: "string \<Rightarrow> 'w \<Rightarrow> (go_error + int \<times> int) \<times> 'w"
  env_route :: "int \<Rightarrow> int \<Rightarrow> 'w \<Rightarrow> go_error option \<times> 'w"
  env_wait :: "duration \<Rightarrow> 'w \<Rightarrow> go_error option \<times> 'w"
  env_rand :: "int \<Rightarrow> 'w \<Rightarrow> int \<times> 'w"
  env_uuid :: "'w \<Rightarrow> string \<times> 'w"
  env_recorder :: "'w \<Rightarrow> bool"
  env_events :: "'w \<Rightarrow> event_deduper option"
  env_set_events :: "event_deduper \<Rightarrow> 'w \<Rightarrow> 'w"
  env_record :: "failover_ip \<Rightarrow> string \<Rightarrow> string \<Rightarrow> string \<Rightarrow> 'w \<Rightarrow> 'w"
  env_observe :: "metric_call list \<Rightarrow> 'w \<Rightarrow> 'w"
  env_links :: "'w \<Rightarrow> (go_error + link list) \<times> 'w"
  env_addrs :: "link \<Rightarrow> 'w \<Rightarrow> (go_error + net_addr list) \<times> 'w"
  env_addr_add :: "link \<Rightarrow> net_addr \<Rightarrow> 'w \<Rightarrow> go_error option \<times> 'w"
  env_addr_del :: "link \<Rightarrow> net_addr \<Rightarrow> 'w \<Rightarrow> go_error option \<times> 'w"

text \<open>Prefix a completed call to the log of the rest of a run.\<close>

definition logged :: "event \<Rightarrow> event list \<times> 'b \<Rightarrow> event list \<times> 'b" where
  "logged e r = (e # fst r, snd r)"

primrec run :: "'w environment \<Rightarrow> 'a prog \<Rightarrow> 'w \<Rightarrow> event list \<times> 'a \<times> 'w" where
  "run E (Return x) w = ([], x, w)"
| "run E (Now k) w = (case env_now E w of (t, w') \<Rightarrow> logged (EvNow t) (run E (k t) w'))"
| "run E (GetFailoverIp ns n k) w =
     (case env_get_foip E ns n w of (r, w') \<Rightarrow> logged (EvGetFailoverIp ns n r) (run E (k r) w'))"
| "run E (PatchStatus b f k) w =
     (case env_patch E b f w of (r, w') \<Rightarrow> logged (EvPatchStatus b f r) (run E (k r) w'))"
| "run E (UpdateStatus f k) w =
     (case env_update E f w of (r, w') \<Rightarrow> logged (EvUpdateStatus f r) (run E (k r) w'))"
| "run E (GetSecret ns n k) w =
     (case env_secret E ns n w of (r, w') \<Rightarrow> logged (EvGetSecret ns n r) (run E (k r) w'))"
| "run E (ListNodes k) w =
     (case env_nodes E w of (r, w') \<Rightarrow> logged (EvListNodes r) (run E (k r) w'))"
| "run E (GetNode n k) w =
     (case env_node E n w of (r, w') \<Rightarrow> logged (EvGetNode n r) (run E (k r) w'))"
| "run E (GetProbe ns n k) w =
     (case env_probe E ns n w of (r, w') \<Rightarrow> logged (EvGetProbe ns n r) (run E (k r) w'))"
| "run E (PatchProbeStatus b p k) w =
     (case env_patch_probe E b p w of (r, w') \<Rightarrow>
        logged (EvPatchProbeStatus b p r) (run E (k r) w'))"
| "run E (ExecuteProbe sp cred ca k) w =
     (case env_execute E sp cred ca w of (r, w') \<Rightarrow>
        logged (EvExecuteProbe sp cred ca r) (run E (k r) w'))"
| "run E (ExecuteKubernetes tgt k) w =
     (case env_kubernetes E tgt w of (r, w') \<Rightarrow>
        logged (EvExecuteKubernetes tgt r) (run E (k r) w'))"
| "run E (NewClient uid tok p) w =
     logged (EvNewClient uid tok) (run E p (env_client E uid tok w))"
| "run E (FindFailoverIP ip k) w =
     (case env_find E ip w of (r, w') \<Rightarrow> logged (EvFindFailoverIP ip r) (run E (k r) w'))"
| "run E (RouteFailoverIP f s k) w =
     (case env_route E f s w of (r, w') \<Rightarrow> logged (EvRouteFailoverIP f s r) (run E (k r) w'))"
| "run E (WaitInterval d k) w =
     (case env_wait E d w of (r, w') \<Rightarrow> logged (EvWaitInterval d r) (run E (k r) w'))"
| "run E (RandInt64N n k) w =
     (case env_rand E n w of (r, w') \<Rightarrow> logged (EvRandInt64N n r) (run E (k r) w'))"
| "run E (NewUUID k) w = (case env_uuid E w of (r, w') \<Rightarrow> logged (EvNewUUID r) (run E (k r) w'))"
| "run E (RecorderPresent k) w =
     logged (EvRecorderPresent (env_recorder E w)) (run E (k (env_recorder E w)) w)"
| "run E (ReadEvents k) w =
     logged (EvReadEvents (env_events E w)) (run E (k (env_events E w)) w)"
| "run E (WriteEvents d p) w = logged (EvWriteEvents d) (run E p (env_set_events E d w))"
| "run E (RecordEvent f ty rs m p) w =
     logged (EvRecordEvent f ty rs m) (run E p (env_record E f ty rs m w))"
| "run E (Observe ms p) w = logged (EvObserve ms) (run E p (env_observe E ms w))"
| "run E (LinkList k) w =
     (case env_links E w of (r, w') \<Rightarrow> logged (EvLinkList r) (run E (k r) w'))"
| "run E (AddrList l k) w =
     (case env_addrs E l w of (r, w') \<Rightarrow> logged (EvAddrList l r) (run E (k r) w'))"
| "run E (AddrAdd l a k) w =
     (case env_addr_add E l a w of (r, w') \<Rightarrow> logged (EvAddrAdd l a r) (run E (k r) w'))"
| "run E (AddrDel l a k) w =
     (case env_addr_del E l a w of (r, w') \<Rightarrow> logged (EvAddrDel l a r) (run E (k r) w'))"

lemma logged_eq: "logged e r = (es, y) \<longleftrightarrow> (\<exists>es'. es = e # es' \<and> r = (es', y))"
  by (cases r) (auto simp: logged_def)

text \<open>A run in one environment is one of the executions.\<close>

lemma run_steps: "run E p w = (es, x, w') \<Longrightarrow> steps p es (Return x)"
  by (induction p arbitrary: w es)
    (auto simp: logged_eq split: prod.splits intro: steps.intros pstep.intros)

lemma fst_run_steps: "steps p (fst (run E p w)) (Return (fst (snd (run E p w))))"
  by (rule run_steps [where E = E and w = w and w' = "snd (snd (run E p w))"]) simp

lemma run_bind:
  "run E (bind p f) w =
     (case run E p w of (es, x, w') \<Rightarrow> (case run E (f x) w' of (es', r) \<Rightarrow> (es @ es', r)))"
  by (induction p arbitrary: w) (simp_all add: logged_def split: prod.splits)

end
