(* ===== verification/Probe_Checks.thy ===== *)
theory Probe_Checks
  imports Controller_Calls
begin

text \<open>
  Probe gates (\<open>internal/controller/probe_checks.go\<close>, and \<open>Aggregate\<close> of
  \<open>internal/probe/executor.go\<close>): resolving a probe's target, applying its thresholds,
  persisting the observation, and composing the results of all referenced probes into a
  verdict.  The executors themselves are calls of the environment.
\<close>

section \<open>Aggregation\<close>

definition Aggregate :: "probe_composition \<Rightarrow> int \<Rightarrow> probe_result list \<Rightarrow> probe_result" where
  "Aggregate pc quo results =
     (if results = [] then \<lparr> result_success = False, result_reason = ''no probe results'' \<rparr>
      else
        let successes = int (length (filter result_success results));
            passed = \<lparr> result_success = True, result_reason = '''' \<rparr> in
        if pc = ProbeCompositionEmpty \<or> pc = ProbeCompositionAll then
          (if successes = int (length results) then passed
           else \<lparr> result_success = False, result_reason = ''not all probes succeeded'' \<rparr>)
        else if pc = ProbeCompositionAny then
          (if successes > 0 then passed
           else \<lparr> result_success = False, result_reason = ''no probe succeeded'' \<rparr>)
        else if pc = ProbeCompositionQuorum then
          (if successes \<ge> quo then passed
           else \<lparr> result_success = False,
                  result_reason = ''quorum not reached: '' @ itoa successes @ ''/'' @ itoa quo \<rparr>)
        else \<lparr> result_success = False, result_reason = trim_space ''unsupported composition'' \<rparr>)"

section \<open>Thresholds\<close>

definition empty_observation :: probe_observation where
  "empty_observation = \<lparr> obs_name = '''', obs_success = False, obs_reason = '''',
     obs_observed_at = zero_time, obs_consecutive_successes = 0, obs_consecutive_failures = 0 \<rparr>"

text \<open>
  The possibly softened result with the new counters (consecutive successes and failures).
\<close>

definition applyProbeThresholds ::
  "failover_probe_spec \<Rightarrow> failover_probe_status \<Rightarrow> string \<Rightarrow> probe_result
     \<Rightarrow> probe_result \<times> int \<times> int" where
  "applyProbeThresholds spec status name result =
     (let previous = (case find (\<lambda>ob. obs_name ob = name) (observations status) of
                        None \<Rightarrow> empty_observation | Some ob \<Rightarrow> ob);
          successThreshold = max (success_threshold spec) 1;
          failThreshold = max (probe_failure_threshold spec) 1
      in if result_success result then
           let succ = wrap32 (obs_consecutive_successes previous + 1) in
           if succ < successThreshold
           then (\<lparr> result_success = False, result_reason = ''success threshold not reached'' \<rparr>,
                 succ, 0)
           else (result, succ, 0)
         else
           let failures = wrap32 (obs_consecutive_failures previous + 1) in
           if failures < failThreshold \<and> obs_success previous
           then (\<lparr> result_success = True, result_reason = ''failure threshold not reached'' \<rparr>,
                 0, failures)
           else (result, 0, failures))"

section \<open>Resolving a target\<close>

definition placeholder :: "string \<Rightarrow> string" where
  "placeholder name = ''${'' @ name @ ''}''"

text \<open>
  The loop over the node's addresses: an internal address ends it, an external one is kept
  unless something better follows.
\<close>

fun node_ip :: "string \<Rightarrow> (string \<times> string) list \<Rightarrow> string" where
  "node_ip found [] = found"
| "node_ip found ((ty, a) # addresses) =
     (if ty = ''InternalIP'' then a
      else if ty = ''ExternalIP'' then node_ip a addresses
      else node_ip found addresses)"

definition substitute :: "string \<Rightarrow> string \<Rightarrow> failover_probe_spec \<Rightarrow> failover_probe_spec" where
  "substitute old new spec =
     spec\<lparr> target := (target spec)\<lparr>
       target_address := replace_all old new (target_address (target spec)),
       target_host := replace_all old new (target_host (target spec)),
       target_sni := replace_all old new (target_sni (target spec)) \<rparr> \<rparr>"

definition mentions :: "string \<Rightarrow> failover_probe_spec \<Rightarrow> bool" where
  "mentions text spec \<longleftrightarrow>
     contains_string (target_address (target spec)) text
     \<or> contains_string (target_host (target spec)) text
     \<or> contains_string (target_sni (target spec)) text"

definition reject_placeholders :: "failover_probe_spec \<Rightarrow> go_error + failover_probe_spec" where
  "reject_placeholders resolved =
     (if mentions ''${'' resolved then Inl (GoError ''unsupported target placeholder'')
      else Inr resolved)"

definition resolveProbeSpec ::
  "failover_ip \<Rightarrow> failover_probe_spec \<Rightarrow> (go_error + failover_probe_spec \<Rightarrow> 'a prog) \<Rightarrow> 'a prog"
where
  "resolveProbeSpec foip spec k =
     (let resolved = substitute (placeholder ''failoverIP'') (spec_ip (foip_spec foip)) spec;
          targetNode = target_node (foip_status foip) in
      if mentions (placeholder ''targetNodeIP'') resolved then
        if targetNode = '''' then k (Inl (GoError ''target node is not selected''))
        else GetNode targetNode (\<lambda>r. case r of
               Inl e \<Rightarrow> k (Inl (Wrapped (''loading target node '' @ targetNode @ '': '') e))
             | Inr nd \<Rightarrow>
                 let nodeIP = node_ip '''' (node_addresses nd) in
                 if nodeIP = '''' then
                   k (Inl (GoError (''target node '' @ targetNode @ '' has no usable address'')))
                 else k (reject_placeholders
                           (substitute (placeholder ''targetNodeIP'') nodeIP resolved)))
      else k (reject_placeholders resolved))"

section \<open>Persisting an observation\<close>

fun put_observation :: "probe_observation \<Rightarrow> probe_observation list \<Rightarrow> probe_observation list" where
  "put_observation new [] = [new]"
| "put_observation new (ob # obs) =
     (if obs_name ob = obs_name new then new # obs else ob # put_observation new obs)"

text \<open>\<open>setProbeCondition\<close> is only ever called with the type \<open>Ready\<close>.\<close>

fun put_probe_condition :: "condition \<Rightarrow> condition list \<Rightarrow> condition list" where
  "put_probe_condition new [] = [new]"
| "put_probe_condition new (c # cs) =
     (if cond_type c = cond_type new then new # cs else c # put_probe_condition new cs)"

definition setProbeCondition ::
  "failover_probe_status \<Rightarrow> condition_status \<Rightarrow> string \<Rightarrow> string \<Rightarrow> time \<Rightarrow> failover_probe_status"
where
  "setProbeCondition status conditionStatus reason message now =
     status\<lparr> probe_conditions := put_probe_condition
       \<lparr> cond_type = ''Ready'', cond_status = conditionStatus, cond_reason = reason,
         cond_message = message, cond_last_transition = now, cond_observed_generation = 0 \<rparr>
       (probe_conditions status) \<rparr>"

definition observe_result ::
  "failover_probe \<Rightarrow> probe_result \<Rightarrow> int \<Rightarrow> int \<Rightarrow> time \<Rightarrow> failover_probe" where
  "observe_result resource result successCount failureCount now =
     (let observation = \<lparr> obs_name = probe_name resource, obs_success = result_success result,
            obs_reason = result_reason result, obs_observed_at = now,
            obs_consecutive_successes = successCount, obs_consecutive_failures = failureCount \<rparr>;
          status = (probe_status resource)\<lparr>
            observations := put_observation observation (observations (probe_status resource)) \<rparr>
      in resource\<lparr> probe_status :=
           (if result_success result
            then setProbeCondition status ConditionTrue ''ProbeSucceeded''
                   ''Probe execution succeeded'' now
            else setProbeCondition status ConditionFalse ''ProbeFailed''
                   ''Probe execution failed'' now) \<rparr>)"

definition persistProbeObservation ::
  "failover_probe \<Rightarrow> probe_result \<Rightarrow> int \<Rightarrow> int \<Rightarrow> (go_error option \<Rightarrow> 'a prog) \<Rightarrow> 'a prog" where
  "persistProbeObservation resource result successCount failureCount k =
     Now (\<lambda>now. PatchProbeStatus resource
            (observe_result resource result successCount failureCount now) k)"

lemma put_observation_keys:
  "map obs_name (put_observation b xs) =
     (if obs_name b \<in> obs_name ` set xs then map obs_name xs else map obs_name xs @ [obs_name b])"
  by (induction xs) auto

lemma put_observation_other:
  "k \<noteq> obs_name b \<Longrightarrow>
     find (\<lambda>ob. obs_name ob = k) (put_observation b xs) = find (\<lambda>ob. obs_name ob = k) xs"
  by (induction xs) auto

lemma put_probe_condition_keys:
  "map cond_type (put_probe_condition b xs) =
     (if cond_type b \<in> cond_type ` set xs then map cond_type xs
      else map cond_type xs @ [cond_type b])"
  by (induction xs) auto

lemma put_probe_condition_other:
  "k \<noteq> cond_type b \<Longrightarrow>
     find (\<lambda>c. cond_type c = k) (put_probe_condition b xs) = find (\<lambda>c. cond_type c = k) xs"
  by (induction xs) auto

interpretation probe_observations: keyed_list obs_name put_observation obs_name
  by unfold_locales (auto simp: put_observation_keys put_observation_other)

interpretation probe_conds: keyed_list cond_type put_probe_condition cond_type
  by unfold_locales (auto simp: put_probe_condition_keys put_probe_condition_other)

section \<open>Evaluating a gate\<close>

definition load_ca_bundle ::
  "string \<Rightarrow> failover_probe_spec \<Rightarrow> (go_error + string \<Rightarrow> 'a prog) \<Rightarrow> 'a prog" where
  "load_ca_bundle namespace spec k =
     (case ca_bundle_secret_ref spec of
        None \<Rightarrow> k (Inr '''')
      | Some ref \<Rightarrow> GetSecret namespace (selector_name ref) (\<lambda>r. case r of
            Inl e \<Rightarrow> k (Inl (Wrapped ''loading probe CA bundle Secret: '' e))
          | Inr data \<Rightarrow>
              let caBundle = map_get data (selector_key ref) in
              if caBundle = '''' then k (Inl (GoError ''probe CA bundle Secret key is empty''))
              else k (Inr caBundle)))"

definition execute_resolved ::
  "string \<Rightarrow> failover_probe_spec \<Rightarrow> string \<Rightarrow> (go_error + probe_result \<Rightarrow> 'a prog) \<Rightarrow> 'a prog"
where
  "execute_resolved namespace spec caBundle k =
     (if probe_kind spec = ProbeTypeKubernetes then
        ExecuteKubernetes (kubernetes spec) (\<lambda>r. k (Inr r))
      else case credential_secret_ref spec of
             None \<Rightarrow> ExecuteProbe spec '''' caBundle (\<lambda>r. k (Inr r))
           | Some ref \<Rightarrow> GetSecret namespace (selector_name ref) (\<lambda>r. case r of
                 Inl e \<Rightarrow> k (Inl (Wrapped ''loading probe credential Secret: '' e))
               | Inr data \<Rightarrow>
                   let credential = map_get data (selector_key ref) in
                   if credential = '''' then
                     k (Inl (GoError ''probe credential Secret key is empty''))
                   else ExecuteProbe spec credential caBundle (\<lambda>r. k (Inr r))))"

text \<open>
  One probe of the phase, its target resolved: the CA bundle is loaded, the executor runs, the
  thresholds are applied, and the observation is persisted.  \<open>writer\<close> tells whether the reader
  is a full client, which is when observations are persisted.
\<close>

definition judge_probe ::
  "bool \<Rightarrow> failover_ip \<Rightarrow> failover_probe \<Rightarrow> failover_probe_spec
     \<Rightarrow> (go_error + probe_result \<Rightarrow> 'a prog) \<Rightarrow> 'a prog" where
  "judge_probe writer foip resource resolved k =
     load_ca_bundle (foip_namespace foip) resolved (\<lambda>ca. case ca of
       Inl e \<Rightarrow> k (Inl e)
     | Inr caBundle \<Rightarrow>
         execute_resolved (foip_namespace foip) resolved caBundle (\<lambda>x. case x of
           Inl e \<Rightarrow> k (Inl e)
         | Inr raw \<Rightarrow>
             (case applyProbeThresholds (probe_spec resource) (probe_status resource)
                     (probe_name resource) raw of
                (result, successCount, failureCount) \<Rightarrow>
                  if writer then
                    persistProbeObservation resource result successCount failureCount
                      (\<lambda>pe. case pe of Some e \<Rightarrow> k (Inl e) | None \<Rightarrow> k (Inr result))
                  else k (Inr result))))"

text \<open>
  The loop over the sorted references.  \<open>pc\<close> and \<open>quo\<close> are the composition and quorum in
  force, \<open>rcomp\<close> and \<open>rquo\<close> the ones taken from a referenced probe.
\<close>

definition finish_gate ::
  "probe_phase \<Rightarrow> probe_composition \<Rightarrow> int \<Rightarrow> probe_result list \<Rightarrow> go_error option" where
  "finish_gate ph pc quo results =
     (if results = [] then None
      else let result = Aggregate pc quo results in
           if result_success result then None
           else Some (GoError (probe_phase_string ph @ '' probe gate failed: ''
                               @ result_reason result)))"

fun evaluate_refs ::
  "bool \<Rightarrow> failover_ip \<Rightarrow> probe_phase \<Rightarrow> string list \<Rightarrow> probe_composition \<Rightarrow> int
     \<Rightarrow> probe_composition \<Rightarrow> int \<Rightarrow> probe_result list \<Rightarrow> (go_error option \<Rightarrow> 'a prog) \<Rightarrow> 'a prog"
where
  "evaluate_refs writer foip ph [] pc quo rcomp rquo results k =
     k (finish_gate ph pc quo results)"
| "evaluate_refs writer foip ph (ref # refs) pc quo rcomp rquo results k =
     GetProbe (foip_namespace foip) ref (\<lambda>g. case g of
       Inl e \<Rightarrow> k (Some (Wrapped (''loading probe '' @ ref @ '': '') e))
     | Inr resource \<Rightarrow>
         let spec = probe_spec resource in
         if probe_spec_phase spec \<noteq> ph \<and> probe_spec_phase spec \<noteq> ProbePhaseContinuous
         then evaluate_refs writer foip ph refs pc quo rcomp rquo results k
         else resolveProbeSpec foip spec (\<lambda>rs. case rs of
           Inl e \<Rightarrow> k (Some (Wrapped (''resolving probe '' @ ref @ '' target: '') e))
         | Inr resolved \<Rightarrow>
             let inherits = spec_probe_composition (foip_spec foip) = ProbeCompositionEmpty
                            \<and> composition spec \<noteq> ProbeCompositionEmpty in
             if inherits \<and> rcomp \<noteq> ProbeCompositionEmpty
                \<and> (rcomp \<noteq> composition spec \<or> rquo \<noteq> quorum spec)
             then k (Some (GoError ''referenced probes have conflicting compositions''))
             else
               let pc' = (if inherits then composition spec else pc);
                   quo' = (if inherits then quorum spec else quo);
                   rcomp' = (if inherits then composition spec else rcomp);
                   rquo' = (if inherits then quorum spec else rquo) in
               judge_probe writer foip resource resolved (\<lambda>j. case j of
                 Inl e \<Rightarrow> k (Some e)
               | Inr result \<Rightarrow>
                   evaluate_refs writer foip ph refs pc' quo' rcomp' rquo' (results @ [result]) k)))"

definition evaluateProbePhase ::
  "bool \<Rightarrow> failover_ip \<Rightarrow> probe_phase \<Rightarrow> (go_error option \<Rightarrow> 'a prog) \<Rightarrow> 'a prog" where
  "evaluateProbePhase writer foip ph k =
     (let spec = foip_spec foip in
      if spec_probes spec = [] then k None
      else evaluate_refs writer foip ph (sort (spec_probes spec))
             (if spec_probe_composition spec = ProbeCompositionEmpty then ProbeCompositionAll
              else spec_probe_composition spec)
             (spec_probe_quorum spec) ProbeCompositionEmpty 0 [] k)"

section \<open>Properties\<close>

text \<open>
  The verdict over several probes: never positive without results; All needs every probe
  (and is the default), Any one, Quorum the given number; an unknown composition never passes.
\<close>

theorem Aggregate_iff:
  "result_success (Aggregate pc quo rs) \<longleftrightarrow>
     rs \<noteq> [] \<and> (case pc of
        ProbeCompositionEmpty \<Rightarrow> list_all result_success rs
      | ProbeCompositionAll \<Rightarrow> list_all result_success rs
      | ProbeCompositionAny \<Rightarrow> list_ex result_success rs
      | ProbeCompositionQuorum \<Rightarrow> quo \<le> int (length (filter result_success rs))
      | ProbeCompositionOther s \<Rightarrow> False)"
proof -
  have all: "length (filter result_success rs) = length rs \<longleftrightarrow> list_all result_success rs"
    by (metis filter_id_conv length_filter_less list_all_iff nat_neq_iff)
  have some: "0 < length (filter result_success rs) \<longleftrightarrow> list_ex result_success rs"
    by (auto simp: list_ex_iff filter_empty_conv)
  show ?thesis
    using all some by (cases pc) (simp_all add: Aggregate_def Let_def)
qed

text \<open>The verdicts reported for a sequence of executions of one probe, each persisted.\<close>

fun probe_rounds :: "failover_probe \<Rightarrow> probe_result list \<Rightarrow> probe_result list" where
  "probe_rounds p [] = []"
| "probe_rounds p (raw # raws) =
     (case applyProbeThresholds (probe_spec p) (probe_status p) (probe_name p) raw of
        (result, s, f) \<Rightarrow> result # probe_rounds (observe_result p result s f 0) raws)"

definition last_observation :: "failover_probe \<Rightarrow> probe_observation" where
  "last_observation p =
     (case find (\<lambda>ob. obs_name ob = probe_name p) (observations (probe_status p)) of
        None \<Rightarrow> empty_observation | Some ob \<Rightarrow> ob)"

lemma put_observation_find:
  "obs_name new = k \<Longrightarrow> find (\<lambda>ob. obs_name ob = k) (put_observation new obs) = Some new"
  by (induction obs) auto

lemma observe_result_keeps [simp]:
  "probe_spec (observe_result p r s f t) = probe_spec p"
  "probe_name (observe_result p r s f t) = probe_name p"
  by (simp_all add: observe_result_def Let_def)

lemma last_observation_observed [simp]:
  "last_observation (observe_result p r s f t) = \<lparr> obs_name = probe_name p,
     obs_success = result_success r, obs_reason = result_reason r, obs_observed_at = t,
     obs_consecutive_successes = s, obs_consecutive_failures = f \<rparr>"
  by (simp add: last_observation_def observe_result_def Let_def setProbeCondition_def
      put_observation_find)

text \<open>The verdict as a function of the last observation.\<close>

definition verdict ::
  "failover_probe_spec \<Rightarrow> probe_observation \<Rightarrow> probe_result \<Rightarrow> probe_result \<times> int \<times> int" where
  "verdict spec previous raw =
     (if result_success raw then
        let succ = wrap32 (obs_consecutive_successes previous + 1) in
        if succ < max (success_threshold spec) 1
        then (\<lparr> result_success = False, result_reason = ''success threshold not reached'' \<rparr>, succ, 0)
        else (raw, succ, 0)
      else
        let failures = wrap32 (obs_consecutive_failures previous + 1) in
        if failures < max (probe_failure_threshold spec) 1 \<and> obs_success previous
        then (\<lparr> result_success = True, result_reason = ''failure threshold not reached'' \<rparr>,
              0, failures)
        else (raw, 0, failures))"

lemma probe_rounds_Cons:
  "probe_rounds p (raw # raws) =
     (case verdict (probe_spec p) (last_observation p) raw of
        (result, s, f) \<Rightarrow> result # probe_rounds (observe_result p result s f 0) raws)"
proof -
  have "applyProbeThresholds (probe_spec p) (probe_status p) (probe_name p) raw
      = verdict (probe_spec p) (last_observation p) raw"
    by (simp add: applyProbeThresholds_def verdict_def last_observation_def Let_def)
  then show ?thesis by simp
qed

declare probe_rounds.simps(2) [simp del]

lemma probe_rounds_successes:
  assumes "obs_consecutive_successes (last_observation p) = int n" "n + m < 2 ^ 31"
    and "result_success ok"
  shows "map result_success (probe_rounds p (replicate m ok)) =
    map (\<lambda>i. success_threshold (probe_spec p) \<le> int i) [n + 1..<n + m + 1]"
  using assms
proof (induction m arbitrary: p n)
  case (Suc m)
  have w: "wrap32 (int n + 1) = int (Suc n)"
    using Suc.prems(2) by (simp add: wrap32_id is_int32_def)
  define r where "r = (if int (Suc n) < max (success_threshold (probe_spec p)) 1
      then \<lparr> result_success = False, result_reason = ''success threshold not reached'' \<rparr> else ok)"
  have step: "verdict (probe_spec p) (last_observation p) ok = (r, int (Suc n), 0)"
    using Suc.prems by (simp add: verdict_def Let_def w r_def del: of_nat_Suc)
  have "map result_success (probe_rounds (observe_result p r (int (Suc n)) 0 0) (replicate m ok)) =
    map (\<lambda>i. success_threshold (probe_spec p) \<le> int i) [Suc n + 1..<Suc n + m + 1]"
    using Suc.IH [of "observe_result p r (int (Suc n)) 0 0" "Suc n"] Suc.prems by simp
  moreover have "[n + 1..<n + Suc m + 1] = (n + 1) # [Suc n + 1..<Suc n + m + 1]"
    by (simp add: upt_conv_Cons)
  moreover have "result_success r \<longleftrightarrow> success_threshold (probe_spec p) \<le> int (n + 1)"
    using Suc.prems(3) by (auto simp: r_def max_def)
  ultimately show ?case by (simp add: probe_rounds_Cons step del: upt_Suc of_nat_Suc)
qed simp

text \<open>
  A probe that has been executed n times in a row with success, from a fresh status, is
  reported successful exactly when n has reached its success threshold.
\<close>

theorem success_threshold_counts:
  assumes "observations (probe_status p) = []" "result_success ok" "m < 2 ^ 31"
  shows "map result_success (probe_rounds p (replicate m ok)) =
    map (\<lambda>i. success_threshold (probe_spec p) \<le> int i) [1..<m + 1]"
  using probe_rounds_successes [of p 0 m ok] assms
  by (simp add: last_observation_def empty_observation_def)

text \<open>The probe of the examples: a TCP probe of phase \<open>PreRoute\<close> with the given thresholds.\<close>

definition tcp_probe :: "string \<Rightarrow> int \<Rightarrow> int \<Rightarrow> failover_probe" where
  "tcp_probe name success failure = \<lparr> probe_name = name, probe_namespace = ''ns'',
     probe_spec = \<lparr> probe_spec_phase = ProbePhasePreRoute, composition = ProbeCompositionEmpty,
       quorum = 0, probe_kind = ProbeTypeTCP,
       target = \<lparr> target_address = ''a'', target_port = 443, target_path = '''',
                  target_host = '''', target_sni = '''' \<rparr>,
       network_policy = \<lparr> allow_private_networks = False, allowed_cidrs = [],
                          denied_cidrs = [] \<rparr>,
       kubernetes = None, timeout_seconds = 0, interval_seconds = 0,
       success_threshold = success, probe_failure_threshold = failure,
       initial_delay_seconds = 0, follow_redirects = False, insecure_skip_verify = False,
       credential_secret_ref = None, credential_header = '''', ca_bundle_secret_ref = None,
       http_method = '''', expected_status_min = 0, expected_status_max = 0, body_match = '''',
       headers = [] \<rparr>,
     probe_status = \<lparr> probe_conditions = [], observations = [] \<rparr> \<rparr>"

definition passing :: probe_result where
  "passing = \<lparr> result_success = True, result_reason = '''' \<rparr>"

definition failing :: probe_result where
  "failing = \<lparr> result_success = False, result_reason = ''connection failed'' \<rparr>"

theorem success_threshold_counts_witness:
  "map result_success (probe_rounds (tcp_probe ''p'' 3 1) (replicate 4 passing))
     = [False, False, True, True]"
proof -
  have "[1..<4 + 1] = [1, 2, 3, 4::nat]" by (simp add: upt_rec)
  then show ?thesis
    using success_threshold_counts [of "tcp_probe ''p'' 3 1" passing 4]
    by (simp add: tcp_probe_def passing_def)
qed

text \<open>
  A probe with both thresholds that tolerates a single failure is reported failed by the
  next success: the tolerated failure has reset the count of successes.  The gate passes while
  the probe fails and closes when it recovers.
\<close>

theorem recovery_closes_gate:
  "map result_success (probe_rounds (tcp_probe ''p'' 2 3) [passing, passing, failing, passing])
     = [False, True, True, False]"
proof -
  have "last_observation (tcp_probe ''p'' 2 3) = empty_observation"
    "success_threshold (probe_spec (tcp_probe ''p'' 2 3)) = 2"
    "probe_failure_threshold (probe_spec (tcp_probe ''p'' 2 3)) = 3"
    by (simp_all add: last_observation_def tcp_probe_def)
  then show ?thesis
    by (simp add: probe_rounds_Cons verdict_def Let_def empty_observation_def passing_def
        failing_def wrap32_def)
qed

text \<open>What resolving leaves of a declared specification.\<close>

definition resolved_from :: "failover_probe_spec \<Rightarrow> failover_probe_spec \<Rightarrow> bool" where
  "resolved_from spec resolved \<longleftrightarrow> \<not> mentions ''${'' resolved
     \<and> resolved = spec\<lparr>target := (target spec)\<lparr>target_address := target_address (target resolved),
          target_host := target_host (target resolved), target_sni := target_sni (target resolved)\<rparr>\<rparr>"

lemma resolved_substitute:
  "\<not> mentions ''${'' (substitute old new spec) \<Longrightarrow> resolved_from spec (substitute old new spec)"
  "\<not> mentions ''${'' (substitute old' new' (substitute old new spec)) \<Longrightarrow>
     resolved_from spec (substitute old' new' (substitute old new spec))"
  by (simp_all add: resolved_from_def substitute_def)

lemma wp_resolve:
  assumes node: "\<And>H n r. P H (EvGetNode n r)"
    and err: "\<And>H' e. H \<subseteq> H' \<Longrightarrow> wp P Q H' (k (Inl e))"
    and ok: "\<And>H' resolved. H \<subseteq> H' \<Longrightarrow> resolved_from spec resolved \<Longrightarrow> wp P Q H' (k (Inr resolved))"
  shows "wp P Q H (resolveProbeSpec foip spec k)"
proof -
  have "wp P Q H' (k (reject_placeholders r))"
    if "H \<subseteq> H'" "\<not> mentions ''${'' r \<Longrightarrow> resolved_from spec r" for H' r
    using that by (simp add: reject_placeholders_def err ok)
  then show ?thesis
    by (simp add: resolveProbeSpec_def Let_def node err resolved_substitute subset_insertI
        split: sum.split)
qed

text \<open>
  A probe specification that is resolved for execution contains no placeholder any more,
  known or unknown, and differs from the declared one at most in the address, the host and the
  server name of its target; in particular not in its network policy, type, port or secrets.
\<close>

theorem resolved_spec_is_ground:
  assumes "steps (resolveProbeSpec foip spec Return) es (Return (Inr resolved))"
  shows "\<not> mentions ''${'' resolved
    \<and> resolved = spec\<lparr>target := (target spec)\<lparr>target_address := target_address (target resolved),
         target_host := target_host (target resolved), target_sni := target_sni (target resolved)\<rparr>\<rparr>"
proof -
  have "wp (\<lambda>_ _. True) (\<lambda>H r. case r of Inl e \<Rightarrow> True | Inr resolved \<Rightarrow> resolved_from spec resolved)
      {} (resolveProbeSpec foip spec Return)"
    by (rule wp_resolve) simp_all
  from wp_result [OF this assms] show ?thesis by (simp add: resolved_from_def)
qed

theorem resolved_spec_is_ground_witness:
  "\<not> mentions ''${'' ((probe_spec (tcp_probe ''p'' 1 1))\<lparr>target :=
       (target (probe_spec (tcp_probe ''p'' 1 1)))\<lparr>target_address := ''203.0.113.7''\<rparr>\<rparr>)"
proof -
  let ?declared = "(probe_spec (tcp_probe ''p'' 1 1))\<lparr>target :=
       (target (probe_spec (tcp_probe ''p'' 1 1)))\<lparr>target_address := placeholder ''failoverIP''\<rparr>\<rparr>"
  let ?resolved = "(probe_spec (tcp_probe ''p'' 1 1))\<lparr>target :=
       (target (probe_spec (tcp_probe ''p'' 1 1)))\<lparr>target_address := ''203.0.113.7''\<rparr>\<rparr>"
  let ?foip = "\<lparr> foip_name = ''ip'', foip_namespace = ''ns'', foip_uid = '''', foip_annotations = [],
     foip_spec = empty_spec\<lparr>spec_ip := ''203.0.113.7''\<rparr>, foip_status = empty_status \<rparr>"
  have replaced: "replace_all ''${failoverIP}'' ''203.0.113.7'' ''${failoverIP}''
      = ''203.0.113.7''" "replace_all p n '''' = ''''" for p n
    by (simp_all add: replace_all.simps)
  have "resolveProbeSpec ?foip ?declared Return = Return (Inr ?resolved)"
    by (simp add: resolveProbeSpec_def substitute_def Let_def replaced tcp_probe_def mentions_def
        reject_placeholders_def placeholder_def)
  then have "steps (resolveProbeSpec ?foip ?declared Return) [] (Return (Inr ?resolved))"
    by (simp add: steps.none)
  from resolved_spec_is_ground [OF this] show ?thesis by simp
qed

end
