(* ===== verification/Node_Scoring.thy ===== *)
theory Node_Scoring
  imports Api_Types "HOL-Library.Multiset"
begin

text \<open>
  Node health ranking (\<open>internal/controller/node_scoring.go\<close>): the score of a node, the
  strict order \<open>worseThan\<close> on scores, and the selection of a strictly healthier node.  The
  selection loop relies on \<open>worseThan\<close> being a strict total order; that contract is the locale
  \<open>ranking\<close>, and the lemmas on the loop are proved once inside it.
\<close>

section \<open>Scores\<close>

record node_score =
  network_unavailable :: bool
  ready_false :: bool
  ready_unknown :: bool
  score_unschedulable :: bool
  pid_pressure :: bool
  memory_pressure :: bool
  disk_pressure :: bool
  score_name :: string

definition worseThan :: "node_score \<Rightarrow> node_score \<Rightarrow> bool" where
  "worseThan s other =
     (if network_unavailable s \<noteq> network_unavailable other then network_unavailable s
      else if ready_false s \<noteq> ready_false other then ready_false s
      else if ready_unknown s \<noteq> ready_unknown other then ready_unknown s
      else if score_unschedulable s \<noteq> score_unschedulable other then score_unschedulable s
      else if pid_pressure s \<noteq> pid_pressure other then pid_pressure s
      else if memory_pressure s \<noteq> memory_pressure other then memory_pressure s
      else if disk_pressure s \<noteq> disk_pressure other then disk_pressure s
      else score_name s > score_name other)"

definition sameIssues :: "node_score \<Rightarrow> node_score \<Rightarrow> bool" where
  "sameIssues s other \<longleftrightarrow>
     network_unavailable s = network_unavailable other \<and>
     ready_false s = ready_false other \<and>
     ready_unknown s = ready_unknown other \<and>
     score_unschedulable s = score_unschedulable other \<and>
     pid_pressure s = pid_pressure other \<and>
     memory_pressure s = memory_pressure other \<and>
     disk_pressure s = disk_pressure other"

fun condition_is :: "(string \<times> condition_status) list \<Rightarrow> string \<Rightarrow> condition_status \<Rightarrow> bool" where
  "condition_is [] condType status = False"
| "condition_is ((t, s) # cs) condType status =
     (if t = condType then s = status else condition_is cs condType status)"

definition conditionIs :: "node \<Rightarrow> string \<Rightarrow> condition_status \<Rightarrow> bool" where
  "conditionIs node condType status = condition_is (node_conditions node) condType status"

definition NodeNetworkUnavailable :: string where
  "NodeNetworkUnavailable = ''NetworkUnavailable''"
definition NodeReady :: string where "NodeReady = ''Ready''"
definition NodePIDPressure :: string where "NodePIDPressure = ''PIDPressure''"
definition NodeMemoryPressure :: string where "NodeMemoryPressure = ''MemoryPressure''"
definition NodeDiskPressure :: string where "NodeDiskPressure = ''DiskPressure''"

definition scoreNode :: "node \<Rightarrow> node_score" where
  "scoreNode n =
     \<lparr> network_unavailable = conditionIs n NodeNetworkUnavailable ConditionTrue,
       ready_false = conditionIs n NodeReady ConditionFalse,
       ready_unknown = conditionIs n NodeReady ConditionUnknown,
       score_unschedulable = unschedulable n,
       pid_pressure = conditionIs n NodePIDPressure ConditionTrue,
       memory_pressure = conditionIs n NodeMemoryPressure ConditionTrue,
       disk_pressure = conditionIs n NodeDiskPressure ConditionTrue,
       score_name = node_name n \<rparr>"

section \<open>Candidates and lookups\<close>

definition candidateNodes :: "node list \<Rightarrow> node list" where
  "candidateNodes nodes =
     filter (\<lambda>n. map_get (node_annotations n) MACAnnotation \<noteq> ''''
                \<and> map_get (node_annotations n) ServerIDAnnotation \<noteq> '''') nodes"

definition nodeForServerID :: "node list \<Rightarrow> int \<Rightarrow> node option" where
  "nodeForServerID nodes serverID =
     find (\<lambda>n. map_get (node_annotations n) ServerIDAnnotation = itoa serverID) nodes"

definition serverIDForNode :: "node list \<Rightarrow> string \<Rightarrow> string" where
  "serverIDForNode nodes name =
     (case find (\<lambda>n. node_name n = name) nodes of
        None \<Rightarrow> ''''
      | Some n \<Rightarrow> map_get (node_annotations n) ServerIDAnnotation)"

section \<open>The selection loop\<close>

text \<open>One pass over the nodes after the first, keeping the best seen so far.\<close>

fun best_node :: "node \<Rightarrow> node list \<Rightarrow> node" where
  "best_node best [] = best"
| "best_node best (n # ns) =
     (if worseThan (scoreNode n) (scoreNode best) then best_node best ns
      else if worseThan (scoreNode best) (scoreNode n) then best_node n ns
      else best_node best ns)"

definition betterNode :: "node list \<Rightarrow> string \<Rightarrow> node option" where
  "betterNode nodes currentName =
     (case nodes of [] \<Rightarrow> None
      | n # ns \<Rightarrow>
          let best = best_node n ns in
          if currentName = '''' then Some best
          else case find (\<lambda>m. node_name m = currentName) nodes of
                 None \<Rightarrow> Some best
               | Some cur \<Rightarrow> if sameIssues (scoreNode best) (scoreNode cur) then None
                             else Some best)"

section \<open>The ranking contract\<close>

text \<open>
  What the loop needs of the comparison: a strict order that is total on items of different
  identity.  The loop is restated over the locale's parameters, with its results.
\<close>

locale ranking =
  fixes worse :: "'s \<Rightarrow> 's \<Rightarrow> bool"
    and score :: "'n \<Rightarrow> 's"
  assumes worse_irrefl: "\<not> worse s s"
    and worse_trans: "worse s t \<Longrightarrow> worse t u \<Longrightarrow> worse s u"
    and worse_total: "score m \<noteq> score n \<Longrightarrow> worse (score m) (score n) \<or> worse (score n) (score m)"
begin

fun scan :: "'n \<Rightarrow> 'n list \<Rightarrow> 'n" where
  "scan best [] = best"
| "scan best (n # ns) =
     (if worse (score n) (score best) then scan best ns
      else if worse (score best) (score n) then scan n ns
      else scan best ns)"

lemma scan_mem: "scan b ns \<in> set (b # ns)"
  by (induction ns arbitrary: b) (auto split: if_splits)

lemma worse_asym: "worse s t \<Longrightarrow> \<not> worse t s"
  using worse_irrefl worse_trans by blast

lemma not_worse_trans:
  "\<not> worse (score a) (score b) \<Longrightarrow> \<not> worse (score b) (score c) \<Longrightarrow> \<not> worse (score a) (score c)"
  using worse_total worse_trans worse_irrefl by metis

lemma scan_best: "m \<in> set (b # ns) \<Longrightarrow> \<not> worse (score (scan b ns)) (score m)"
proof (induction ns arbitrary: b m)
  case Nil
  then show ?case by (simp add: worse_irrefl)
next
  case (Cons n ns)
  define b' where
    "b' = (if \<not> worse (score n) (score b) \<and> worse (score b) (score n) then n else b)"
  have step: "scan b (n # ns) = scan b' ns" by (simp add: b'_def)
  have b': "\<not> worse (score b') (score b)" "\<not> worse (score b') (score n)"
    using worse_irrefl worse_asym by (auto simp: b'_def)
  have "\<not> worse (score (scan b' ns)) (score b')" by (rule Cons.IH) simp
  with b' have "\<not> worse (score (scan b' ns)) (score b)" "\<not> worse (score (scan b' ns)) (score n)"
    using not_worse_trans by blast+
  moreover have "\<not> worse (score (scan b' ns)) (score m)" if "m \<in> set ns"
    using that by (intro Cons.IH) simp
  ultimately show ?case using Cons.prems by (auto simp: step simp del: scan.simps)
qed

lemma scan_score_unique:
  assumes "m \<in> set (b # ns)" and "\<And>k. k \<in> set (b # ns) \<Longrightarrow> \<not> worse (score m) (score k)"
  shows "score (scan b ns) = score m"
  using assms scan_best [of m b ns] scan_mem [of b ns] worse_total by blast

text \<open>The best score depends only on which items are offered, not on their order.\<close>

lemma scan_order:
  assumes "set (b # ns) = set (c # ms)"
  shows "score (scan b ns) = score (scan c ms)"
proof (rule scan_score_unique)
  show "scan c ms \<in> set (b # ns)" using scan_mem [of c ms] assms by simp
  show "\<not> worse (score (scan c ms)) (score k)" if "k \<in> set (b # ns)" for k
    by (rule scan_best) (use that assms in blast)
qed

end

lemma worseThan_irrefl: "\<not> worseThan s s"
  by (simp add: worseThan_def)

lemma worseThan_trans: "worseThan s t \<Longrightarrow> worseThan t u \<Longrightarrow> worseThan s u"
  by (auto simp: worseThan_def split: if_splits)

lemma worseThan_total: "s \<noteq> t \<Longrightarrow> worseThan s t \<or> worseThan t s"
  by (cases s; cases t) (auto simp: worseThan_def)

interpretation node_rank: ranking worseThan scoreNode
  by unfold_locales
    (auto simp: worseThan_irrefl dest: worseThan_total intro: worseThan_trans)

lemma best_node_scan: "best_node b ns = node_rank.scan b ns"
  by (induction ns arbitrary: b) auto

lemma sameIssues_refl [simp]: "sameIssues s s"
  by (simp add: sameIssues_def)

lemma sameIssues_sym: "sameIssues s t \<longleftrightarrow> sameIssues t s"
  by (auto simp: sameIssues_def)

text \<open>
  The severity of a score: its issues from the most to the least severe, as a binary number.
  \<open>worseThan\<close> compares severities first and breaks ties by name.
\<close>

definition severity :: "node_score \<Rightarrow> nat" where
  "severity s =
     of_bool (disk_pressure s) + 2 * (of_bool (memory_pressure s)
     + 2 * (of_bool (pid_pressure s) + 2 * (of_bool (score_unschedulable s)
     + 2 * (of_bool (ready_unknown s) + 2 * (of_bool (ready_false s)
     + 2 * of_bool (network_unavailable s))))))"

lemma binary_less:
  "(of_bool a + 2 * x < of_bool b + 2 * (y::nat)) \<longleftrightarrow> x < y \<or> x = y \<and> \<not> a \<and> b"
  by (cases a; cases b) auto

lemma binary_eq:
  "(of_bool a + 2 * x = of_bool b + 2 * (y::nat)) \<longleftrightarrow> x = y \<and> a = b"
  by (cases a; cases b) (simp; presburger)+

lemma bit_less: "(of_bool a < (of_bool b :: nat)) \<longleftrightarrow> \<not> a \<and> b"
  by (cases a; cases b) auto

lemma sameIssues_severity: "sameIssues s t \<longleftrightarrow> severity s = severity t"
  unfolding sameIssues_def severity_def binary_eq by auto

lemma worseThan_severity:
  "worseThan s t \<longleftrightarrow>
     severity t < severity s \<or> severity s = severity t \<and> score_name t < score_name s"
  unfolding worseThan_def severity_def binary_eq binary_less bit_less
  by (simp split: if_split)

lemma find_name_mem: "find P xs = Some x \<Longrightarrow> x \<in> set xs \<and> P x"
  by (auto simp: find_Some_iff)

section \<open>Properties\<close>

text \<open>The nodes of the examples: a name, a server id and the value of the ready condition.\<close>

definition plain_node :: "string \<Rightarrow> string \<Rightarrow> condition_status \<Rightarrow> node" where
  "plain_node name sid ready = \<lparr> node_name = name,
     node_annotations = [(ServerIDAnnotation, sid), (MACAnnotation, ''52:54:00:00:00:01'')],
     unschedulable = False, node_conditions = [(NodeReady, ready)],
     node_addresses = [(''InternalIP'', ''10.0.0.1'')] \<rparr>"

lemma plain_node_simps [simp]:
  "node_name (plain_node n sid r) = n" "unschedulable (plain_node n sid r) = False"
  "map_get (node_annotations (plain_node n sid r)) ServerIDAnnotation = sid"
  "map_get (node_annotations (plain_node n sid r)) MACAnnotation = ''52:54:00:00:00:01''"
  "conditionIs (plain_node n sid r) ty st = (ty = NodeReady \<and> st = r)"
  by (auto simp: plain_node_def map_get_def ServerIDAnnotation_def MACAnnotation_def
      conditionIs_def)

lemma severity_plain [simp]:
  "severity (scoreNode (plain_node n sid r)) =
     (if r = ConditionFalse then 32 else if r = ConditionUnknown then 16 else 0)"
  by (simp add: scoreNode_def severity_def NodeReady_def NodeNetworkUnavailable_def
      NodePIDPressure_def NodeMemoryPressure_def NodeDiskPressure_def)

lemma betterNode_cases:
  "betterNode (n # ns) cur =
     (let best = node_rank.scan n ns in
      case (if cur = '''' then None else find (\<lambda>m. node_name m = cur) (n # ns)) of
        None \<Rightarrow> Some best
      | Some c \<Rightarrow> if sameIssues (scoreNode best) (scoreNode c) then None else Some best)"
  by (simp add: betterNode_def best_node_scan Let_def)

lemma best_severity:
  "m \<in> set (n # ns) \<Longrightarrow> severity (scoreNode (node_rank.scan n ns)) \<le> severity (scoreNode m)"
  using node_rank.scan_best [of m n ns] unfolding worseThan_severity by linarith

lemma betterNode_best:
  assumes "betterNode nodes cur = Some best"
  obtains n ns where "nodes = n # ns" "best = node_rank.scan n ns"
proof (cases nodes)
  case Nil
  with assms show ?thesis by (simp add: betterNode_def)
next
  case (Cons n ns)
  with assms that show ?thesis
    by (auto simp: betterNode_cases Let_def split: option.splits if_splits)
qed

lemma scoreNode_name [simp]: "score_name (scoreNode m) = node_name m"
  by (simp add: scoreNode_def)

text \<open>The node proposed has the least severe issues, and among equals the first name.\<close>

definition healthiest :: "node list \<Rightarrow> node \<Rightarrow> bool" where
  "healthiest nodes best \<longleftrightarrow> best \<in> set nodes \<and>
     list_all (\<lambda>m. severity (scoreNode best) < severity (scoreNode m)
       \<or> severity (scoreNode best) = severity (scoreNode m) \<and> node_name best \<le> node_name m) nodes"

text \<open>
  C27: A node that betterNode proposes is one of the candidates, no candidate has less severe
  issues (in the order network unavailable, not ready, ready unknown, unschedulable, PID, memory
  and disk pressure), among the equally severe it is the first by name, and it is strictly
  healthier than the current node when that is a candidate.
\<close>

theorem betterNode_sound:
  assumes "betterNode nodes cur = Some best"
  shows "healthiest nodes best
    \<and> (cur = '''' \<or> (case find (\<lambda>m. node_name m = cur) nodes of None \<Rightarrow> True
         | Some c \<Rightarrow> severity (scoreNode best) < severity (scoreNode c)))"
proof -
  obtain n ns where nodes: "nodes = n # ns" and best: "best = node_rank.scan n ns"
    using assms by (rule betterNode_best)
  have "healthiest nodes best"
    using node_rank.scan_mem [of n ns] node_rank.scan_best [of _ n ns]
    unfolding healthiest_def list_all_iff nodes best worseThan_severity
    by (force simp: not_less)
  moreover have "severity (scoreNode best) < severity (scoreNode c)"
    if "cur \<noteq> ''''" "find (\<lambda>m. node_name m = cur) nodes = Some c" for c
  proof -
    have "c \<in> set nodes" using that(2) by (simp add: find_name_mem)
    then have "severity (scoreNode best) \<le> severity (scoreNode c)"
      using best_severity by (simp add: nodes best)
    moreover have "\<not> sameIssues (scoreNode best) (scoreNode c)"
      using assms that by (auto simp: nodes best betterNode_cases Let_def split: if_splits)
    ultimately show ?thesis by (simp add: sameIssues_severity)
  qed
  ultimately show ?thesis by (auto split: option.split)
qed

definition failing_pair :: "node list" where
  "failing_pair = [plain_node ''a'' ''11'' ConditionFalse, plain_node ''b'' ''12'' ConditionTrue]"

lemma failing_pair_better:
  "betterNode failing_pair ''a'' = Some (plain_node ''b'' ''12'' ConditionTrue)"
  by (simp add: failing_pair_def betterNode_def worseThan_severity sameIssues_severity)

theorem betterNode_sound_witness:
  "healthiest failing_pair (plain_node ''b'' ''12'' ConditionTrue)
    \<and> (0::nat) < severity (scoreNode (plain_node ''a'' ''11'' ConditionFalse))"
  using betterNode_sound [OF failing_pair_better] by (simp add: failing_pair_def)

text \<open>
  BetterNode proposes nothing exactly when there is no candidate, or the current node is a
  candidate of minimal severity.
\<close>

theorem betterNode_None_iff:
  "betterNode nodes cur = None \<longleftrightarrow>
     nodes = [] \<or> cur \<noteq> '''' \<and> (\<exists>c. find (\<lambda>m. node_name m = cur) nodes = Some c
       \<and> severity (scoreNode c) = Min (severity ` scoreNode ` set nodes))"
proof (cases nodes)
  case Nil
  then show ?thesis by (simp add: betterNode_def)
next
  case (Cons n ns)
  have "Min (severity ` scoreNode ` set nodes) = severity (scoreNode (node_rank.scan n ns))"
    using node_rank.scan_mem [of n ns] best_severity [of _ n ns]
    unfolding Cons by (intro Min_eqI) auto
  then show ?thesis
    unfolding Cons betterNode_cases
    by (auto simp: Let_def sameIssues_severity split: option.splits)
qed

text \<open>
  C31: The order in which the API server lists the nodes does not matter for the selection,
  as node names are unique.
\<close>

theorem betterNode_order_independent:
  assumes "mset nodes = mset nodes'" "distinct (map node_name nodes)"
  shows "betterNode nodes cur = betterNode nodes' cur"
proof -
  have same: "set nodes = set nodes'" using assms(1) by (rule mset_eq_setD)
  have d': "distinct (map node_name nodes')"
    using assms by (metis mset_eq_imp_distinct_iff mset_map)
  have inj: "m = k" if "m \<in> set nodes" "k \<in> set nodes" "node_name m = node_name k" for m k
    using that assms(2) by (auto simp: distinct_map inj_on_def)
  have find: "find (\<lambda>m. node_name m = cur) nodes = find (\<lambda>m. node_name m = cur) nodes'"
  proof (cases "find (\<lambda>m. node_name m = cur) nodes")
    case None
    then have "find (\<lambda>m. node_name m = cur) nodes' = None" by (auto simp: find_None_iff same)
    with None show ?thesis by simp
  next
    case (Some m)
    then have m: "m \<in> set nodes" "node_name m = cur" by (auto dest: find_name_mem)
    then have "find (\<lambda>m. node_name m = cur) nodes' \<noteq> None"
      unfolding find_None_iff by (auto simp: same)
    then obtain k where k: "find (\<lambda>m. node_name m = cur) nodes' = Some k" by blast
    then have "k \<in> set nodes" "node_name k = cur" by (auto simp: same dest: find_name_mem)
    then have "m = k" using m by (intro inj) simp_all
    with Some k show ?thesis by simp
  qed
  show ?thesis
  proof (cases nodes)
    case Nil
    then show ?thesis using assms(1) by simp
  next
    case (Cons n ns)
    obtain n' ns' where nodes': "nodes' = n' # ns'"
      using assms(1) Cons by (cases nodes') auto
    have "scoreNode (node_rank.scan n ns) = scoreNode (node_rank.scan n' ns')"
      using same by (intro node_rank.scan_order) (simp add: Cons nodes')
    then have "node_name (node_rank.scan n ns) = node_name (node_rank.scan n' ns')"
      by (metis scoreNode_def node_score.select_convs(8))
    moreover have "node_rank.scan n ns \<in> set nodes"
      unfolding Cons by (rule node_rank.scan_mem)
    moreover have "node_rank.scan n' ns' \<in> set nodes"
      unfolding same nodes' by (rule node_rank.scan_mem)
    ultimately have "node_rank.scan n ns = node_rank.scan n' ns'" by (intro inj)
    with find show ?thesis by (simp add: Cons nodes' betterNode_cases Let_def)
  qed
qed

theorem betterNode_order_independent_witness:
  "betterNode failing_pair ''a'' = betterNode (rev failing_pair) ''a''"
  by (rule betterNode_order_independent) (simp_all add: failing_pair_def)

lemma find_unique: "distinct (map f xs) \<Longrightarrow> x \<in> set xs \<Longrightarrow> find (\<lambda>y. f y = f x) xs = Some x"
  by (induction xs) force+

lemma distinct_filter_map:
  "distinct (filter P (map f xs)) \<Longrightarrow> x \<in> set xs \<Longrightarrow> y \<in> set xs \<Longrightarrow> P (f x) \<Longrightarrow> f x = f y
     \<Longrightarrow> distinct xs \<Longrightarrow> x = y"
  by (induction xs) (auto simp: image_iff split: if_splits)

lemma itoa_nonempty: "itoa i \<noteq> ''''"
  by (simp add: itoa_def)

text \<open>
  C32: On nodes with distinct names and distinct server ids (nodes without one aside), the two
  look-ups are inverse to each other: the node found for a server is exactly the listed node for
  whose name that server id is read back, and no node is found only if no name gives the id.
\<close>

theorem nodeForServerID_roundtrip:
  assumes "distinct (map node_name nodes)"
    and "distinct (filter (\<lambda>a. a \<noteq> '''') (map (\<lambda>n. map_get (node_annotations n) ServerIDAnnotation) nodes))"
  shows "(nodeForServerID nodes sid = Some n
        \<longleftrightarrow> n \<in> set nodes \<and> serverIDForNode nodes (node_name n) = itoa sid)
    \<and> (nodeForServerID nodes sid = None \<longleftrightarrow> (\<forall>name. serverIDForNode nodes name \<noteq> itoa sid))"
proof -
  let ?id = "\<lambda>n. map_get (node_annotations n) ServerIDAnnotation"
  have read: "serverIDForNode nodes (node_name m) = ?id m" if "m \<in> set nodes" for m
    using find_unique [OF assms(1) that] by (simp add: serverIDForNode_def)
  have same: "m = m'" if "m \<in> set nodes" "m' \<in> set nodes" "?id m = itoa sid" "?id m' = itoa sid" for m m'
    using assms(2) that distinct_filter_map [of "\<lambda>a. a \<noteq> ''''" ?id nodes m m'] assms(1) by (simp add: itoa_nonempty distinct_map)
  show ?thesis
  proof (cases "nodeForServerID nodes sid")
    case None
    then have "?id m \<noteq> itoa sid" if "m \<in> set nodes" for m
      using that by (auto simp: nodeForServerID_def find_None_iff)
    then show ?thesis
      using None itoa_nonempty [of sid] by (auto simp: serverIDForNode_def split: option.split dest!: find_name_mem)
  next
    case (Some m)
    then have m: "m \<in> set nodes" "?id m = itoa sid" by (auto simp: nodeForServerID_def dest: find_name_mem)
    have "nodeForServerID nodes sid = Some n
        \<longleftrightarrow> n \<in> set nodes \<and> serverIDForNode nodes (node_name n) = itoa sid"
      using Some m read [of n] same [of m n] by auto
    moreover have "\<exists>name. serverIDForNode nodes name = itoa sid" using m read by metis
    ultimately show ?thesis using Some by simp
  qed
qed

theorem nodeForServerID_roundtrip_witness:
  "plain_node ''b'' ''12'' ConditionTrue \<in> set failing_pair
    \<and> serverIDForNode failing_pair ''b'' = itoa 12"
proof -
  have "nodeForServerID failing_pair 12 = Some (plain_node ''b'' ''12'' ConditionTrue)"
    by (simp add: failing_pair_def nodeForServerID_def itoa_def nat_text.simps digits_def)
  with nodeForServerID_roundtrip [of failing_pair 12 "plain_node ''b'' ''12'' ConditionTrue"]
  show ?thesis by (simp add: failing_pair_def)
qed

end
