(* ===== verification/Selection_Policy.thy ===== *)
theory Selection_Policy
  imports Node_Scoring
begin

text \<open>
  Timing and threshold policy: \<open>internal/controller/selection_policy.go\<close> (defaults of the
  specification's knobs, the cleanup back-off, the gate that lets a candidate take over) and
  \<open>internal/controller/provider_safety.go\<close> (the provider cooldown gate, the retry back-off
  and the two ownership fences).  Both back-offs double a delay up to a cap; that contract is
  the locale \<open>capped_doubling\<close>, interpreted on each of the two loops.
\<close>

section \<open>Selection policy\<close>

definition stabilizationWindow :: "failover_ip_spec \<Rightarrow> duration" where
  "stabilizationWindow spec =
     (if stabilization_seconds spec \<le> 0 then 30 * second else seconds (stabilization_seconds spec))"

definition minHealthyWindow :: "failover_ip_spec \<Rightarrow> duration" where
  "minHealthyWindow spec =
     (if min_healthy_seconds spec \<le> 0 then 0 else seconds (min_healthy_seconds spec))"

definition failureThreshold :: "failover_ip_spec \<Rightarrow> int" where
  "failureThreshold spec =
     (if spec_failure_threshold spec \<le> 0 then 3 else spec_failure_threshold spec)"

definition recoveryThreshold :: "failover_ip_spec \<Rightarrow> int" where
  "recoveryThreshold spec =
     (if spec_recovery_threshold spec \<le> 0 then 2 else spec_recovery_threshold spec)"

definition cleanupMaxAttempts :: "failover_ip_spec \<Rightarrow> int" where
  "cleanupMaxAttempts spec =
     (if cleanup_max_attempts_field spec \<le> 0 then 15 else cleanup_max_attempts_field spec)"

text \<open>
  The loop \<open>for i < n && delay < limit\<close>: \<open>i < n\<close> holds before \<open>i++\<close>, so the counter does not
  wrap; the doubled delay is wrapped at 64 bits as Go does.
\<close>

function cleanup_loop :: "duration \<Rightarrow> int \<Rightarrow> int \<Rightarrow> duration \<Rightarrow> duration" where
  "cleanup_loop limit i attempts delay =
     (if i < attempts \<and> delay < limit
      then let doubled = wrap64 (delay * 2) in
           cleanup_loop limit (i + 1) attempts (if doubled > limit then limit else doubled)
      else delay)"
  by pat_completeness auto
termination
  by (relation "measure (\<lambda>(limit, i, attempts, delay). nat (attempts - i))") auto

declare cleanup_loop.simps [simp del]

definition cleanupRetryDelay :: "failover_ip_spec \<Rightarrow> int \<Rightarrow> duration" where
  "cleanupRetryDelay spec attempts =
     (let delay = seconds (cleanup_retry_seconds spec);
          start = (if delay \<le> 0 then 2 * second else delay)
      in cleanup_loop minute 1 attempts start)"

definition nodeAcceptable :: "node \<Rightarrow> bool" where
  "nodeAcceptable n =
     (if unschedulable n \<or> conditionIs n NodeNetworkUnavailable ConditionTrue
         \<or> conditionIs n NodePIDPressure ConditionTrue
         \<or> conditionIs n NodeMemoryPressure ConditionTrue
         \<or> conditionIs n NodeDiskPressure ConditionTrue
      then False
      else conditionIs n NodeReady ConditionTrue)"

definition candidateReadyForHandoff ::
  "failover_ip_spec \<Rightarrow> failover_ip_status \<Rightarrow> node \<Rightarrow> time \<Rightarrow> bool" where
  "candidateReadyForHandoff spec status candidate now =
     (if \<not> nodeAcceptable candidate then False
      else case candidate_since status of
             None \<Rightarrow> False
           | Some since \<Rightarrow>
               \<not> now < since + wrap64 (stabilizationWindow spec + minHealthyWindow spec))"

section \<open>Provider safety\<close>

definition defaultProviderCooldown :: duration where "defaultProviderCooldown = minute"
definition defaultRetryBase :: duration where "defaultRetryBase = 2 * second"
definition defaultRetryMax :: duration where "defaultRetryMax = minute"

definition providerMutationGate :: "failover_ip_status \<Rightarrow> duration \<Rightarrow> time \<Rightarrow> time \<times> bool" where
  "providerMutationGate status cooldown now =
     (case last_attempted_mutation_at status of
        None \<Rightarrow> (zero_time, True)
      | Some t \<Rightarrow> (let next = t + cooldown in (next, \<not> now < next)))"

definition providerCooldown :: "failover_ip_spec \<Rightarrow> duration" where
  "providerCooldown spec =
     (if provider_cooldown_seconds spec \<le> 0 then defaultProviderCooldown
      else seconds (provider_cooldown_seconds spec))"

function retry_loop :: "duration \<Rightarrow> int \<Rightarrow> int \<Rightarrow> duration \<Rightarrow> duration" where
  "retry_loop limit i retryCount delay =
     (if i < retryCount \<and> delay < limit
      then let doubled = wrap64 (delay * 2) in
           retry_loop limit (i + 1) retryCount (if doubled > limit then limit else doubled)
      else delay)"
  by pat_completeness auto
termination
  by (relation "measure (\<lambda>(limit, i, retryCount, delay). nat (retryCount - i))") auto

declare retry_loop.simps [simp del]

text \<open>
  \<open>retryDelay\<close> draws its jitter from \<open>rand.Int64N(delay + 1)\<close>: the delay before the draw,
  and the result for a drawn value.
\<close>

definition retryBase :: "failover_ip_spec \<Rightarrow> duration" where
  "retryBase spec =
     (if retry_base_seconds spec > 0 then seconds (retry_base_seconds spec) else defaultRetryBase)"

definition retryMax :: "failover_ip_spec \<Rightarrow> duration" where
  "retryMax spec =
     (let m = (if retry_max_seconds spec > 0 then seconds (retry_max_seconds spec)
               else defaultRetryMax)
      in if m < retryBase spec then retryBase spec else m)"

definition retryBackoff :: "failover_ip_spec \<Rightarrow> int \<Rightarrow> duration" where
  "retryBackoff spec retryCount = retry_loop (retryMax spec) 0 retryCount (retryBase spec)"

definition retryDelay :: "duration \<Rightarrow> duration" where
  "retryDelay jitter = (if jitter < second then second else jitter)"

definition validateProviderFence ::
  "failover_ip_status \<Rightarrow> string \<Rightarrow> string \<Rightarrow> go_error option" where
  "validateProviderFence status observedOwner expectedOwner =
     (if provider_observed_owner status \<noteq> '''' \<and> provider_observed_owner status \<noteq> observedOwner
         \<and> observedOwner \<noteq> expectedOwner
      then Some (GoError (''provider owner changed out of band from ''
                   @ provider_observed_owner status @ '' to '' @ observedOwner))
      else None)"

definition validateProviderRecoveryFence ::
  "failover_ip_status \<Rightarrow> string \<Rightarrow> string \<Rightarrow> go_error option" where
  "validateProviderRecoveryFence status observedOwner expectedOwner =
     (if provider_observed_owner status \<noteq> '''' \<and> provider_observed_owner status \<noteq> observedOwner
         \<and> observedOwner \<noteq> expectedOwner
      then Some (GoError (''provider owner changed out of band from ''
                   @ provider_observed_owner status @ '' to '' @ observedOwner))
      else None)"

section \<open>Capped doubling\<close>

text \<open>
  The contract both back-off loops implement, for any cap of which twice the value still fits
  64 bits.  The closed form shows that the wrapped arithmetic never wraps.
\<close>

locale capped_doubling =
  fixes loop :: "duration \<Rightarrow> int \<Rightarrow> int \<Rightarrow> duration \<Rightarrow> duration"
  assumes loop_unfold:
    "loop cap i n d =
       (if i < n \<and> d < cap
        then loop cap (i + 1) n (if wrap64 (d * 2) > cap then cap else wrap64 (d * 2)) else d)"
begin

lemma loop_done: "\<not> (i < n \<and> d < cap) \<Longrightarrow> loop cap i n d = d"
  by (subst loop_unfold) auto

lemma loop_step:
  assumes "0 < d" "d < cap" "cap \<le> 4611686018427387904" "i < n"
  shows "loop cap i n d = loop cap (i + 1) n (min cap (d * 2))"
proof -
  have "wrap64 (d * 2) = d * 2"
    using assms by (intro wrap64_id) (simp add: is_int64_def)
  then have eq: "(if wrap64 (d * 2) > cap then cap else wrap64 (d * 2)) = min cap (d * 2)"
    by (simp add: min_def)
  show ?thesis using assms(2,4) by (subst loop_unfold) (simp only: eq if_True simp_thms)
qed

lemma closed_form:
  assumes "0 < d" "d \<le> cap" "cap \<le> 4611686018427387904"
  shows "loop cap i n d = min cap (d * 2 ^ nat (n - i))"
  using assms(1,2)
proof (induction "nat (n - i)" arbitrary: i d)
  case 0
  then show ?case by (simp add: loop_done)
next
  case (Suc k)
  then have lt: "i < n" and k: "k = nat (n - (i + 1))" by linarith+
  have pow: "nat (n - i) = Suc (nat (n - (i + 1)))" using lt by linarith
  show ?case
  proof (cases "d = cap")
    case True
    have "cap * 1 \<le> cap * 2 ^ nat (n - i)" using Suc.prems True by (intro mult_left_mono) simp_all
    with True show ?thesis by (simp add: loop_done)
  next
    case False
    with Suc.prems have "d < cap" by simp
    with lt Suc.prems assms(3)
    have "loop cap i n d = loop cap (i + 1) n (min cap (d * 2))" by (intro loop_step) simp_all
    also have "\<dots> = min cap (min cap (d * 2) * 2 ^ nat (n - (i + 1)))"
      using Suc.prems by (intro Suc.hyps(1) k) simp_all
    also have "\<dots> = min cap (d * 2 ^ nat (n - i))"
    proof (cases "d * 2 \<le> cap")
      case True
      then show ?thesis by (simp add: pow min_absorb2 mult.assoc)
    next
      case big: False
      have "cap * 1 \<le> cap * 2 ^ nat (n - (i + 1))"
        "cap * 1 \<le> (d * 2) * 2 ^ nat (n - (i + 1))"
        using big Suc.prems by (intro mult_left_mono mult_mono; simp)+
      with big show ?thesis by (simp add: pow mult.assoc)
    qed
    finally show ?thesis .
  qed
qed

lemma above_cap: "cap \<le> d \<Longrightarrow> loop cap i n d = d"
  by (simp add: loop_done)

lemma result_bounds:
  assumes "0 < d" "cap \<le> 4611686018427387904"
  shows "d \<le> loop cap i n d" "loop cap i n d \<le> max cap d"
proof -
  have "d * 1 \<le> d * 2 ^ nat (n - i)" using assms(1) by (intro mult_left_mono) simp_all
  then show "d \<le> loop cap i n d" "loop cap i n d \<le> max cap d"
    using assms by (cases "d \<le> cap"; simp add: closed_form above_cap)+
qed

lemma mono_count:
  assumes "0 < d" "cap \<le> 4611686018427387904" "n \<le> m"
  shows "loop cap i n d \<le> loop cap i m d"
proof (cases "d \<le> cap")
  case True
  have "d * 2 ^ nat (n - i) \<le> d * 2 ^ nat (m - i)"
    using assms by (intro mult_left_mono power_increasing) auto
  moreover have "loop cap i n d = min cap (d * 2 ^ nat (n - i))"
    "loop cap i m d = min cap (d * 2 ^ nat (m - i))"
    using True assms by (simp_all add: closed_form)
  ultimately show ?thesis by (simp only: min.mono order_refl)
qed (use assms in \<open>simp add: above_cap\<close>)

end

interpretation cleanup_backoff: capped_doubling cleanup_loop
  by unfold_locales (subst cleanup_loop.simps, simp add: Let_def)

interpretation retry_backoff: capped_doubling retry_loop
  by unfold_locales (subst retry_loop.simps, simp add: Let_def)

section \<open>Properties\<close>

lemma seconds_bounds:
  "is_int32 n \<Longrightarrow> 0 < n \<Longrightarrow> second \<le> seconds n \<and> seconds n \<le> 2147483647 * second"
  by (simp add: seconds_int32) (simp add: second_def is_int32_def)

text \<open>The two windows of a specification, without the wrapped arithmetic.\<close>

lemma windows:
  assumes "is_int32 (stabilization_seconds spec)" "is_int32 (min_healthy_seconds spec)"
  shows "wrap64 (stabilizationWindow spec + minHealthyWindow spec)
      = stabilizationWindow spec + minHealthyWindow spec"
    and "0 < stabilizationWindow spec" "0 \<le> minHealthyWindow spec"
proof -
  have "0 < stabilizationWindow spec \<and> stabilizationWindow spec \<le> 2147483647 * second"
    using assms(1) seconds_bounds [of "stabilization_seconds spec"]
    by (auto simp: stabilizationWindow_def second_def)
  moreover have "0 \<le> minHealthyWindow spec \<and> minHealthyWindow spec \<le> 2147483647 * second"
    using assms(2) seconds_bounds [of "min_healthy_seconds spec"]
    by (auto simp: minHealthyWindow_def second_def)
  ultimately show "wrap64 (stabilizationWindow spec + minHealthyWindow spec)
      = stabilizationWindow spec + minHealthyWindow spec"
    and "0 < stabilizationWindow spec" "0 \<le> minHealthyWindow spec"
    by (auto simp: is_int64_def second_def intro: wrap64_id)
qed

text \<open>
  A candidate may take over exactly when it is schedulable, ready and without network or
  pressure problems, and the stabilization and the healthy window have both passed since it was
  selected; the sum of the windows never overflows.
\<close>

theorem candidateReadyForHandoff_iff:
  assumes "is_int32 (stabilization_seconds spec)" "is_int32 (min_healthy_seconds spec)"
  shows "candidateReadyForHandoff spec st candidate now \<longleftrightarrow>
    nodeAcceptable candidate
    \<and> (\<exists>since. candidate_since st = Some since
        \<and> since + stabilizationWindow spec + minHealthyWindow spec \<le> now)"
  using assms
  by (auto simp: candidateReadyForHandoff_def windows split: option.splits)

theorem candidateReadyForHandoff_iff_witness:
  "candidateReadyForHandoff (empty_spec\<lparr>stabilization_seconds := 10, min_healthy_seconds := 5\<rparr>)
       (empty_status\<lparr>candidate_since := Some 0\<rparr>) (plain_node ''b'' ''12'' ConditionTrue) (15 * second)
   \<and> \<not> candidateReadyForHandoff (empty_spec\<lparr>stabilization_seconds := 10, min_healthy_seconds := 5\<rparr>)
       (empty_status\<lparr>candidate_since := Some 0\<rparr>) (plain_node ''b'' ''12'' ConditionTrue) (14 * second)"
  by (subst (1 2) candidateReadyForHandoff_iff)
    (simp_all add: is_int32_def empty_spec_def empty_status_def nodeAcceptable_def
      stabilizationWindow_def minHealthyWindow_def seconds_int32 second_def
      NodeReady_def NodeNetworkUnavailable_def NodePIDPressure_def NodeMemoryPressure_def
      NodeDiskPressure_def)

definition cleanupBase :: "failover_ip_spec \<Rightarrow> duration" where
  "cleanupBase spec =
     (if cleanup_retry_seconds spec \<le> 0 then 2 * second else cleanup_retry_seconds spec * second)"

text \<open>
  The delay before cleanup attempt n doubles from the configured retry interval (two seconds
  by default) up to one minute; a configured interval above one minute is used unchanged.  No
  intermediate product overflows.
\<close>

theorem cleanupRetryDelay_closed_form:
  assumes "is_int32 (cleanup_retry_seconds spec)" "1 \<le> attempts"
  shows "cleanupRetryDelay spec attempts =
    max (cleanupBase spec) (min minute (cleanupBase spec * 2 ^ nat (attempts - 1)))"
proof -
  have sec: "seconds (cleanup_retry_seconds spec) = cleanup_retry_seconds spec * second"
    using assms(1) by (rule seconds_int32)
  have base: "(if seconds (cleanup_retry_seconds spec) \<le> 0 then 2 * second
      else seconds (cleanup_retry_seconds spec)) = cleanupBase spec"
    by (simp add: sec cleanupBase_def second_def)
  have pos: "0 < cleanupBase spec" by (simp add: cleanupBase_def second_def)
  have "cleanupBase spec * 1 \<le> cleanupBase spec * 2 ^ nat (attempts - 1)"
    using pos by (intro mult_left_mono) simp_all
  moreover have "cleanupRetryDelay spec attempts = cleanup_loop minute 1 attempts (cleanupBase spec)"
    by (simp only: cleanupRetryDelay_def Let_def base)
  ultimately show ?thesis
    using pos
    by (cases "cleanupBase spec \<le> minute")
      (simp_all add: cleanup_backoff.closed_form cleanup_backoff.above_cap minute_def)
qed

theorem cleanupRetryDelay_closed_form_witness:
  "cleanupRetryDelay empty_spec 4 = 16 * second \<and> cleanupRetryDelay empty_spec 15 = minute"
  by (simp add: cleanupRetryDelay_closed_form cleanupBase_def empty_spec_def is_int32_def
      second_def minute_def)

text \<open>
  C33: For whatever bounds and retry count the resource holds, the provider retry back-off stays
  between its base, which is at least a second, and its maximum; so the bound handed to the random
  source does not overflow and is positive (Int64N panics on one that is not); and every delay
  drawn below that bound lies between one second and the maximum.
\<close>

theorem retryBackoff_bounds:
  assumes "is_int32 (retry_base_seconds spec)" "is_int32 (retry_max_seconds spec)"
  shows "second \<le> retryBase spec \<and> retryBase spec \<le> retryBackoff spec n
    \<and> retryBackoff spec n \<le> retryMax spec
    \<and> 0 < wrap64 (retryBackoff spec n + 1) \<and> wrap64 (retryBackoff spec n + 1) = retryBackoff spec n + 1
    \<and> (\<forall>jitter. 0 \<le> jitter \<longrightarrow> jitter < wrap64 (retryBackoff spec n + 1) \<longrightarrow>
         second \<le> retryDelay jitter \<and> retryDelay jitter \<le> retryMax spec)"
proof -
  have base: "second \<le> retryBase spec \<and> retryBase spec \<le> 2147483647 * second"
    using assms(1) seconds_bounds [of "retry_base_seconds spec"]
    by (auto simp: retryBase_def defaultRetryBase_def second_def)
  have "retryMax spec \<le> max (retryBase spec) (2147483647 * second)"
    using assms(2) seconds_bounds [of "retry_max_seconds spec"]
    by (auto simp: retryMax_def Let_def defaultRetryMax_def second_def minute_def max_def)
  then have lim: "retryBase spec \<le> retryMax spec \<and> retryMax spec \<le> 2147483647 * second"
    using base by (auto simp: retryMax_def Let_def)
  then have "retryBase spec \<le> retryBackoff spec n \<and> retryBackoff spec n \<le> retryMax spec"
    using base retry_backoff.result_bounds [of "retryBase spec" "retryMax spec" 0 n]
    unfolding retryBackoff_def by (simp add: second_def)
  moreover from this have wrap: "wrap64 (retryBackoff spec n + 1) = retryBackoff spec n + 1"
    using base lim by (intro wrap64_id) (auto simp: is_int64_def second_def)
  ultimately show ?thesis
    using base lim by (auto simp: retryDelay_def second_def)
qed

theorem retryBackoff_bounds_witness:
  "second \<le> retryDelay (5 * second) \<and> retryDelay (5 * second) \<le> retryMax empty_spec
    \<and> retryBackoff empty_spec 3 = 16 * second"
proof -
  have val: "retryBackoff empty_spec 3 = 16 * second" "retryMax empty_spec = minute"
    by (simp_all add: retryBackoff_def retryMax_def retryBase_def Let_def empty_spec_def
        defaultRetryMax_def defaultRetryBase_def retry_backoff.closed_form minute_def second_def)
  have "wrap64 (16 * second + 1) = 16 * second + 1"
    by (simp add: wrap64_def second_def)
  then show ?thesis
    using retryBackoff_bounds [of empty_spec 3] val
    by (simp add: is_int32_def empty_spec_def second_def)
qed

text \<open>
  When the mutation gate lets a provider mutation through, the last attempt lies at least
  the cooldown back, and the cooldown is at least one second whatever the specification says;
  when it does not, the time it returns is in the future.
\<close>

theorem mutation_spacing:
  assumes "is_int32 (provider_cooldown_seconds spec)" "last_attempted_mutation_at st = Some before"
  shows "second \<le> providerCooldown spec
    \<and> (case providerMutationGate st (providerCooldown spec) now of (next, allowed) \<Rightarrow>
         next = before + providerCooldown spec
         \<and> (if allowed then providerCooldown spec \<le> now - before else now < next))"
  using assms seconds_bounds [of "provider_cooldown_seconds spec"]
  by (auto simp: providerMutationGate_def providerCooldown_def defaultProviderCooldown_def Let_def
      second_def minute_def)

theorem mutation_spacing_witness:
  "second \<le> providerCooldown empty_spec
    \<and> (case providerMutationGate (empty_status\<lparr>last_attempted_mutation_at := Some 5\<rparr>)
          (providerCooldown empty_spec) 7 of (next, allowed) \<Rightarrow> next = 5 + minute \<and> \<not> allowed)"
  using mutation_spacing [of empty_spec "empty_status\<lparr>last_attempted_mutation_at := Some 5\<rparr>" 5 7]
  by (simp add: is_int32_def empty_spec_def empty_status_def providerCooldown_def
      defaultProviderCooldown_def providerMutationGate_def Let_def minute_def)

definition blank_node :: node where
  "blank_node = (plain_node ''b'' ''12'' ConditionTrue)\<lparr>node_conditions := []\<rparr>"

text \<open>
  Selection and acceptance disagree on a node without a ready condition.  Scoring sees no
  issue in it, so it is proposed before a healthy node that comes later by name, but it never
  becomes ready for a hand-over.
\<close>

theorem unready_candidate_is_proposed:
  "betterNode [plain_node ''a'' ''11'' ConditionFalse, blank_node, plain_node ''c'' ''13'' ConditionTrue]
      ''a'' = Some blank_node
   \<and> nodeAcceptable (plain_node ''c'' ''13'' ConditionTrue)
   \<and> \<not> candidateReadyForHandoff spec st blank_node now"
proof -
  have blank: "severity (scoreNode blank_node) = 0" "node_name blank_node = ''b''"
    "\<not> nodeAcceptable blank_node"
    by (simp_all add: blank_node_def plain_node_def severity_def scoreNode_def conditionIs_def
        nodeAcceptable_def)
  then show ?thesis
    by (simp add: betterNode_def worseThan_severity sameIssues_severity candidateReadyForHandoff_def
        nodeAcceptable_def NodeReady_def NodeNetworkUnavailable_def NodePIDPressure_def
        NodeMemoryPressure_def NodeDiskPressure_def)
qed

end
