(* ===== verification/Recovery.thy ===== *)
theory Recovery
  imports Probe_Checks Selection_Policy
begin

text \<open>
  The helpers every step of the failover controller uses to write its status and to emit
  events, and the recovery policies of \<open>internal/controller/recovery.go\<close> that are applied when
  traffic verification fails after the provider has been routed.
\<close>

section \<open>Writing the status\<close>

abbreviation set_status :: "failover_ip \<Rightarrow> failover_ip_status \<Rightarrow> failover_ip" where
  "set_status foip st \<equiv> foip\<lparr>foip_status := st\<rparr>"

text \<open>
  \<open>if err := r.Status().Patch(ctx, &foip, MergeFrom(base)); err != nil { return Result{}, err }\<close>:
  on success the object in memory is the one the server answered with.
\<close>

definition patch_or_fail ::
  "failover_ip \<Rightarrow> failover_ip \<Rightarrow> (failover_ip \<Rightarrow> reconcile_result prog) \<Rightarrow> reconcile_result prog"
where
  "patch_or_fail base foip k =
     PatchStatus base foip (\<lambda>r. case r of Inl e \<Rightarrow> Return (failed e) | Inr foip' \<Rightarrow> k foip')"

text \<open>The controller's \<open>advanceTransition\<close>: the bookkeeping and the transition counter.\<close>

definition advanceTransition ::
  "failover_ip \<Rightarrow> failover_phase \<Rightarrow> time \<Rightarrow> (failover_ip \<Rightarrow> reconcile_result prog)
     \<Rightarrow> reconcile_result prog" where
  "advanceTransition foip to now k =
     (case AdvanceTransition (foip_status foip) to now of
        Inl e \<Rightarrow> Return (failed e)
      | Inr st \<Rightarrow>
          Observe (ObservePhaseTransition (phase_string (phase (foip_status foip))) (phase_string to))
            (k (set_status foip st)))"

section \<open>Events\<close>

definition EventTypeNormal :: string where "EventTypeNormal = ''Normal''"
definition EventTypeWarning :: string where "EventTypeWarning = ''Warning''"

definition event_key :: "failover_ip \<Rightarrow> string \<Rightarrow> string \<Rightarrow> string \<Rightarrow> string" where
  "event_key foip eventType reason message =
     foip_uid foip @ ''|'' @ foip_namespace foip @ ''/'' @ foip_name foip @ ''|''
     @ transition_id (foip_status foip) @ ''|'' @ eventType @ ''|'' @ reason @ ''|'' @ message"

definition eventAllowed ::
  "failover_ip \<Rightarrow> string \<Rightarrow> string \<Rightarrow> string \<Rightarrow> (bool \<Rightarrow> 'a prog) \<Rightarrow> 'a prog" where
  "eventAllowed foip eventType reason message k =
     ReadEvents (\<lambda>ev.
       let d = (case ev of None \<Rightarrow> NewEventDeduper minute | Some d \<Rightarrow> d) in
       Now (\<lambda>t. case Allow d (event_key foip eventType reason message) t of
         (ok, d') \<Rightarrow> WriteEvents d' (k ok)))"

definition emitEvent ::
  "failover_ip \<Rightarrow> string \<Rightarrow> string \<Rightarrow> string \<Rightarrow> 'a prog \<Rightarrow> 'a prog" where
  "emitEvent foip eventType reason message k =
     RecorderPresent (\<lambda>present.
       if present then
         eventAllowed foip eventType reason message (\<lambda>allowed.
           if allowed then RecordEvent foip eventType reason message k else k)
       else k)"

section \<open>Recovery after a failed traffic verification\<close>

text \<open>
  The continuation receives the boolean result (may the caller commit ownership in degraded
  mode), the reconcile result and the object, which the Go code updates through its pointer.
\<close>

type_synonym 'a recovery_cont = "bool \<Rightarrow> reconcile_result \<Rightarrow> failover_ip \<Rightarrow> 'a prog"

definition persistRecoveryState ::
  "failover_ip \<Rightarrow> failover_ip \<Rightarrow> failover_phase \<Rightarrow> string \<Rightarrow> string \<Rightarrow> time \<Rightarrow> 'a recovery_cont
     \<Rightarrow> 'a prog" where
  "persistRecoveryState foip patchBase ph message reason now k =
     (let st = (foip_status foip)\<lparr>phase := ph, last_error := message\<rparr>;
          st' = (if ph = FailoverPhaseBlocked
                 then SetCondition st ConditionBlocked ConditionTrue reason message now
                 else SetCondition st ConditionDegraded ConditionTrue reason message now);
          foip' = set_status foip st'
      in PatchStatus patchBase foip' (\<lambda>r. case r of
           Inl e \<Rightarrow> k False (failed e) foip'
         | Inr served \<Rightarrow> k False (requeue minute) served))"

definition conditionMessage :: string where
  "conditionMessage = ''Post-route traffic verification failed''"

text \<open>The three outcomes of a policy that only writes the status.\<close>

definition commit_degraded ::
  "failover_ip \<Rightarrow> failover_ip \<Rightarrow> time \<Rightarrow> 'a recovery_cont \<Rightarrow> 'a prog" where
  "commit_degraded foip patchBase now k =
     (let foip' = set_status foip (SetCondition (foip_status foip) ConditionDegraded ConditionTrue
                    ''CommitDegraded'' conditionMessage now)
      in PatchStatus patchBase foip' (\<lambda>r. case r of
           Inl e \<Rightarrow> k False (failed e) foip'
         | Inr served \<Rightarrow> k True (requeue 0) served))"

definition manual_intervention ::
  "failover_ip \<Rightarrow> failover_ip \<Rightarrow> time \<Rightarrow> 'a recovery_cont \<Rightarrow> 'a prog" where
  "manual_intervention foip patchBase now k =
     (let st = (foip_status foip)\<lparr>phase := FailoverPhaseBlocked,
                 last_error := ''post-route probe failed; manual intervention required''\<rparr>;
          foip' = set_status foip (SetCondition st ConditionBlocked ConditionTrue
                    ''ManualIntervention'' conditionMessage now)
      in PatchStatus patchBase foip' (\<lambda>r. case r of
           Inl e \<Rightarrow> k False (failed e) foip'
         | Inr served \<Rightarrow> k False (requeue 0) served))"

text \<open>
  \<open>rollback_route\<close> is the part of \<open>RollbackProvider\<close> after the cooldown gate: the attempt is
  persisted, the route sent, and the owner read back.
\<close>

definition rollback_route ::
  "failover_ip \<Rightarrow> failover_ip \<Rightarrow> int \<Rightarrow> int \<Rightarrow> time \<Rightarrow> 'a recovery_cont \<Rightarrow> 'a prog" where
  "rollback_route foip patchBase foipID sourceServerID now k =
     (let foip1 = set_status foip ((foip_status foip)\<lparr>last_attempted_mutation_at := Some now\<rparr>) in
      PatchStatus patchBase foip1 (\<lambda>r. case r of
        Inl e \<Rightarrow> k False (failed e) foip1
      | Inr served \<Rightarrow>
          RouteFailoverIP foipID sourceServerID (\<lambda>routed. case routed of
            Some e \<Rightarrow> persistRecoveryState served patchBase FailoverPhaseBlocked
                        ''provider rollback failed'' ''RollbackFailed'' now k
          | None \<Rightarrow>
              FindFailoverIP (spec_ip (foip_spec served)) (\<lambda>f.
                let converged = (case f of Inl e \<Rightarrow> False | Inr (i, s) \<Rightarrow> s = sourceServerID) in
                if \<not> converged then
                  persistRecoveryState served patchBase FailoverPhaseBlocked
                    ''provider rollback did not converge to the source owner''
                    ''RollbackUnverified'' now k
                else Now (\<lambda>confirmedAt.
                  persistRecoveryState
                    (set_status served ((foip_status served)\<lparr>
                       last_confirmed_mutation_at := Some confirmedAt,
                       provider_observed_owner := itoa sourceServerID\<rparr>))
                    patchBase FailoverPhaseDegraded
                    ''provider rolled back; traffic still requires intervention''
                    ''RollbackSucceeded'' now k)))))"

definition rollback_gated ::
  "failover_ip \<Rightarrow> failover_ip \<Rightarrow> int \<Rightarrow> int \<Rightarrow> time \<Rightarrow> 'a recovery_cont \<Rightarrow> 'a prog" where
  "rollback_gated foip patchBase foipID sourceServerID now k =
     Now (\<lambda>t. case providerMutationGate (foip_status foip) (providerCooldown (foip_spec foip)) t of
       (next, allowed) \<Rightarrow>
         if \<not> allowed then
           (let message = ''rollback deferred until provider cooldown expires'';
                st = (foip_status foip)\<lparr>next_eligible_mutation_at := Some next,
                       last_error := message\<rparr>;
                foip' = set_status foip (SetCondition st ConditionDegraded ConditionTrue
                          ''RollbackDeferred'' message now)
            in PatchStatus patchBase foip' (\<lambda>r. case r of
                 Inl e \<Rightarrow> k False (failed e) foip'
               | Inr served \<Rightarrow> Now (\<lambda>t'. k False (requeue (time_sub next t')) served)))
         else rollback_route foip patchBase foipID sourceServerID now k)"

definition rollback_provider ::
  "failover_ip \<Rightarrow> failover_ip \<Rightarrow> int \<Rightarrow> time \<Rightarrow> 'a recovery_cont \<Rightarrow> 'a prog" where
  "rollback_provider foip patchBase foipID now k =
     (let blocked = (\<lambda>message reason.
            persistRecoveryState foip patchBase FailoverPhaseBlocked message reason now k);
          sourceName = source_node (foip_status foip) in
      if sourceName = '''' then blocked ''RollbackProvider has no source node'' ''RollbackUnavailable''
      else GetNode sourceName (\<lambda>g. case g of
        Inl e \<Rightarrow> blocked ''RollbackProvider source node is unavailable'' ''RollbackUnavailable''
      | Inr sourceNode \<Rightarrow>
          (case atoi (map_get (node_annotations sourceNode) ServerIDAnnotation) of
             None \<Rightarrow> blocked ''RollbackProvider source annotation is invalid'' ''RollbackUnavailable''
           | Some sourceServerID \<Rightarrow>
               FindFailoverIP (spec_ip (foip_spec foip)) (\<lambda>f. case f of
                 Inl e \<Rightarrow> blocked ''RollbackProvider could not verify current provider ownership''
                            ''RollbackUnavailable''
               | Inr (i, observedServerID) \<Rightarrow>
                   if validateProviderRecoveryFence (foip_status foip) (itoa observedServerID)
                        (itoa sourceServerID) \<noteq> None
                   then blocked ''RollbackProvider detected an out-of-band provider owner''
                          ''ProviderOwnershipChanged''
                   else if observedServerID = sourceServerID then
                     Now (\<lambda>confirmedAt.
                       persistRecoveryState
                         (set_status foip ((foip_status foip)\<lparr>
                            last_confirmed_mutation_at := Some confirmedAt,
                            provider_observed_owner := itoa observedServerID\<rparr>))
                         patchBase FailoverPhaseDegraded
                         ''provider was already rolled back; traffic still requires intervention''
                         ''RollbackAlreadyConverged'' now k)
                   else rollback_gated foip patchBase foipID sourceServerID now k))))"

definition recoverPostRouteFailure ::
  "failover_ip \<Rightarrow> int \<Rightarrow> 'a recovery_cont \<Rightarrow> 'a prog" where
  "recoverPostRouteFailure foip foipID k =
     (let policy = (if spec_recovery_policy (foip_spec foip) = RecoveryPolicyEmpty
                    then RecoveryPolicyHoldDualOwnership
                    else spec_recovery_policy (foip_spec foip)) in
      Observe (ObserveRecoveryAction (recovery_policy_string policy))
        (emitEvent foip EventTypeWarning ''RecoveryAction''
           ''Applying configured post-route recovery policy''
           (Now (\<lambda>now.
              let patchBase = foip;
                  foip1 = set_status foip ((foip_status foip)\<lparr>recovery_action := policy,
                    recovery_attempts := wrap32 (recovery_attempts (foip_status foip) + 1)\<rparr>) in
              case policy of
                RecoveryPolicyCommitDegraded \<Rightarrow> commit_degraded foip1 patchBase now k
              | RecoveryPolicyManualIntervention \<Rightarrow> manual_intervention foip1 patchBase now k
              | RecoveryPolicyRollbackProvider \<Rightarrow> rollback_provider foip1 patchBase foipID now k
              | _ \<Rightarrow> persistRecoveryState foip1 patchBase FailoverPhaseDegraded conditionMessage
                       ''HoldDualOwnership'' now k))))"

end
