(* ===== verification/Failover_Controller.thy ===== *)
theory Failover_Controller
  imports Recovery
begin

text \<open>
  \<open>FailoverIpReconciler.Reconcile\<close> (\<open>internal/controller/failoverip_controller.go\<close>), cut at
  the points where the Go method falls through to its next gate: every definition below is
  one such stretch, in the order of the source, with the rest of the method as its last
  argument.  The method's early returns are \<open>Return\<close>.
\<close>

definition defaultRequeueTime :: duration where "defaultRequeueTime = 24 * hour"
definition preparationPollInterval :: duration where "preparationPollInterval = 2 * second"
definition providerVerifyInterval :: duration where "providerVerifyInterval = 2 * second"
definition providerVerifyAttempts :: nat where "providerVerifyAttempts = 15"

text \<open>The reconciler's own configuration; its client, reader and recorder are the calls.\<close>

record failover_ip_reconciler =
  requeueAfter :: duration

definition SetupWithManager :: "failover_ip_reconciler \<Rightarrow> failover_ip_reconciler" where
  "SetupWithManager r = r\<lparr>requeueAfter := defaultRequeueTime\<rparr>"

type_synonym step = "reconcile_result prog"

section \<open>Starting, validating, halting\<close>

definition begin_transition :: "failover_ip \<Rightarrow> step" where
  "begin_transition foip =
     Now (\<lambda>now. NewUUID (\<lambda>uuid.
       let st = SetCondition (StartTransition uuid (foip_status foip) now) ConditionReady
                  ConditionFalse ''Selecting'' ''Selecting a failover target'' now;
           foip' = set_status foip st in
       emitEvent foip' EventTypeNormal ''TransitionStarted'' ''Started failover transition''
         (patch_or_fail foip foip' (\<lambda>served. Return (requeue preparationPollInterval)))))"

definition persistInvalidSpec :: "failover_ip \<Rightarrow> go_error \<Rightarrow> step" where
  "persistInvalidSpec foip cause =
     Now (\<lambda>now.
       let st = (foip_status foip)\<lparr>phase := FailoverPhaseBlocked,
                  last_error := ''invalid failover specification''\<rparr>;
           foip' = set_status foip (SetCondition st ConditionBlocked ConditionTrue ''InvalidSpec''
                     ''Failover specification is invalid'' now) in
       emitEvent foip' EventTypeWarning ''InvalidSpec'' ''Blocked invalid failover specification''
         (patch_or_fail foip foip' (\<lambda>served. Return (failed cause))))"

definition block_invalid_status :: "failover_ip \<Rightarrow> go_error \<Rightarrow> step" where
  "block_invalid_status foip cause =
     Now (\<lambda>now.
       let st = (foip_status foip)\<lparr>phase := FailoverPhaseBlocked,
                  last_error := ''invalid persisted failover status''\<rparr>;
           foip' = set_status foip (SetCondition st ConditionBlocked ConditionTrue ''InvalidStatus''
                     ''Persisted failover status is contradictory'' now) in
       emitEvent foip' EventTypeWarning ''InvalidStatus''
         ''Blocked contradictory persisted failover status''
         (patch_or_fail foip foip' (\<lambda>served. Return (failed cause))))"

definition resume_halted :: "failover_ip_reconciler \<Rightarrow> failover_ip \<Rightarrow> step" where
  "resume_halted r foip =
     (let token = map_get (foip_annotations foip) ManualReconcileAnnotation in
      if token \<noteq> '''' \<and> token \<noteq> manual_reconcile_token (foip_status foip) then
        Now (\<lambda>now. advanceTransition foip FailoverPhaseSelecting now (\<lambda>foip1.
          let st = (foip_status foip1)\<lparr>manual_reconcile_token := token, last_error := '''',
                     recovery_action := RecoveryPolicyEmpty, recovery_attempts := 0,
                     candidate_since := None\<rparr>;
              foip' = set_status foip1 (SetCondition st ConditionReady ConditionFalse
                        ''ManualRetry'' ''Manual reconciliation requested'' now) in
          emitEvent foip' EventTypeNormal ''ManualRetry'' ''Resuming blocked or degraded transition''
            (patch_or_fail foip foip' (\<lambda>served. Return (requeue preparationPollInterval)))))
      else Return (requeue (requeueAfter r)))"

section \<open>Credentials and the provider's view\<close>

definition with_credentials :: "string \<Rightarrow> failover_ip \<Rightarrow> step \<Rightarrow> step" where
  "with_credentials namespace foip k =
     (let secretName = secret_name (foip_spec foip) in
      GetSecret namespace secretName (\<lambda>s. case s of
        Inl e \<Rightarrow> Observe (ObserveProviderCall ''kubernetes'' ''get_secret'' True)
                   (Return (failed (Wrapped (''fetching secret '' @ secretName @ '': '') e)))
      | Inr data \<Rightarrow>
          Observe (ObserveProviderCall ''kubernetes'' ''get_secret'' False)
            (let refreshToken = map_get data ''refreshToken'';
                 userIDStr = map_get data ''userId'' in
             if refreshToken = '''' \<or> userIDStr = '''' then
               Return (failed (GoError (''secret '' @ secretName
                                 @ '' missing refreshToken or userId'')))
             else case sscanf_d userIDStr of
                    None \<Rightarrow> Return (failed (GoError (''secret '' @ secretName
                                                @ '': userId is not an integer'')))
                  | Some userID \<Rightarrow> NewClient userID refreshToken k)))"

text \<open>What the observation of the provider leaves for the rest of the method.\<close>

record observation =
  obs_foip_id :: int
  obs_server_id :: int
  obs_nodes :: "node list"

definition block_fenced :: "failover_ip \<Rightarrow> go_error \<Rightarrow> step" where
  "block_fenced foip cause =
     Now (\<lambda>now.
       let st = (foip_status foip)\<lparr>phase := FailoverPhaseBlocked, last_error := error_text cause\<rparr>;
           foip' = set_status foip (SetCondition st ConditionBlocked ConditionTrue
                     ''ProviderOwnershipChanged'' ''Provider ownership changed out of band'' now) in
       emitEvent foip' EventTypeWarning ''ProviderOwnershipChanged''
         ''Blocked transition after provider ownership changed''
         (patch_or_fail foip foip' (\<lambda>served. Return (failed cause))))"

text \<open>Recording the observed owner, and adopting its node as target when none is selected.\<close>

definition adopted_status :: "failover_ip_status \<Rightarrow> node list \<Rightarrow> int \<Rightarrow> failover_ip_status \<times> string" where
  "adopted_status st nodes currentServerID =
     (let st1 = st\<lparr>provider_observed_owner := itoa currentServerID\<rparr> in
      if target_node st1 = '''' then
        (case nodeForServerID nodes currentServerID of
           None \<Rightarrow> (st1, '''')
         | Some owner \<Rightarrow> (st1\<lparr>target_node := node_name owner,
                            candidate_reason := ''current provider owner observed''\<rparr>,
                          node_name owner))
      else (st1, ''''))"

definition adopt_owner ::
  "failover_ip \<Rightarrow> node list \<Rightarrow> int \<Rightarrow> (failover_ip \<Rightarrow> step) \<Rightarrow> step" where
  "adopt_owner foip nodes currentServerID k =
     (case adopted_status (foip_status foip) nodes currentServerID of
        (st, adoptedNode) \<Rightarrow>
          if adoptedNode \<noteq> ''''
             \<or> provider_observed_owner (foip_status foip) \<noteq> provider_observed_owner st
          then patch_or_fail foip (set_status foip st) k
          else k (set_status foip st))"

definition observe_provider ::
  "failover_ip \<Rightarrow> (failover_ip \<Rightarrow> observation \<Rightarrow> step) \<Rightarrow> step" where
  "observe_provider foip k =
     FindFailoverIP (spec_ip (foip_spec foip)) (\<lambda>f.
       Observe (ObserveProviderCall ''netcup'' ''find_failover_ip'' (isl f))
         (case f of
            Inl e \<Rightarrow> Return (failed (Wrapped ''findFailoverIP: '' e))
          | Inr (foipID, currentServerID) \<Rightarrow>
              ListNodes (\<lambda>l. case l of
                Inl e \<Rightarrow> Return (failed e)
              | Inr nodes \<Rightarrow>
                  (case validateProviderFence (foip_status foip) (itoa currentServerID)
                          (serverIDForNode nodes (target_node (foip_status foip))) of
                     Some e \<Rightarrow> block_fenced foip e
                   | None \<Rightarrow> adopt_owner foip nodes currentServerID (\<lambda>foip'.
                       k foip' \<lparr> obs_foip_id = foipID, obs_server_id = currentServerID,
                                  obs_nodes = nodes \<rparr>)))))"

section \<open>Candidates\<close>

definition cancel_candidate :: "failover_ip \<Rightarrow> step" where
  "cancel_candidate foip =
     (let count = wrap32 (candidate_recovery_count (foip_status foip) + 1);
          foip1 = set_status foip ((foip_status foip)\<lparr>candidate_recovery_count := count\<rparr>) in
      if count < recoveryThreshold (foip_spec foip) then
        patch_or_fail foip foip1 (\<lambda>served. Return (requeue preparationPollInterval))
      else
        Now (\<lambda>now. advanceTransition foip1 FailoverPhaseSelecting now (\<lambda>foip2.
          let st = (foip_status foip2)\<lparr>candidate_since := None, candidate_failure_count := 0,
                     candidate_recovery_count := 0,
                     candidate_reason := ''current owner recovered during stabilization''\<rparr>;
              foip' = set_status foip2 (SetCondition st ConditionStabilizing ConditionFalse
                        ''CandidateRecovered'' ''Canceled candidate after current owner recovery''
                        now) in
          patch_or_fail foip1 foip' (\<lambda>served. Return (requeue preparationPollInterval)))))"

definition reopen_selection :: "failover_ip \<Rightarrow> step" where
  "reopen_selection foip =
     Now (\<lambda>now. advanceTransition foip FailoverPhaseSelecting now (\<lambda>foip1.
       patch_or_fail foip (set_status foip1 ((foip_status foip1)\<lparr>candidate_since := None\<rparr>))
         (\<lambda>served. Return (requeue preparationPollInterval))))"

definition open_window :: "failover_ip \<Rightarrow> step" where
  "open_window foip =
     Now (\<lambda>now.
       let foip1 = set_status foip ((foip_status foip)\<lparr>candidate_since := Some now,
                     candidate_reason := ''healthiest candidate selected''\<rparr>);
           save = (\<lambda>foip'. patch_or_fail foip foip' (\<lambda>served.
                     Return (requeue (stabilizationWindow (foip_spec served))))) in
       if phase (foip_status foip1) = FailoverPhaseSelecting then
         advanceTransition foip1 FailoverPhaseStabilizing now (\<lambda>foip2.
           save (set_status foip2 (SetCondition (foip_status foip2) ConditionStabilizing
                   ConditionTrue ''CandidateSelected''
                   ''Candidate is within the stabilization window'' now)))
       else save foip1)"

definition switch_target :: "failover_ip \<Rightarrow> node \<Rightarrow> step" where
  "switch_target foip better =
     (let foip1 = set_status foip ((foip_status foip)\<lparr>
            source_node := target_node (foip_status foip), cleanup_attempts := 0,
            next_cleanup_at := None, target_node := node_name better, local_owners := [],
            candidate_since := None, candidate_reason := '''', candidate_failure_count := 0,
            candidate_recovery_count := 0\<rparr>);
          save = (\<lambda>foip'. patch_or_fail foip foip' (\<lambda>served.
                    Return (requeue preparationPollInterval))) in
      if phase (foip_status foip1) = FailoverPhaseStabilizing then
        Now (\<lambda>now. advanceTransition foip1 FailoverPhasePreparingTarget now (\<lambda>foip2.
          save (set_status foip2 (SetCondition (foip_status foip2) ConditionStabilizing
                  ConditionFalse ''WindowElapsed''
                  ''Candidate remained healthy through stabilization'' now))))
      else save foip1)"

definition pursue_candidate :: "failover_ip \<Rightarrow> node \<Rightarrow> step" where
  "pursue_candidate foip better =
     (if phase (foip_status foip) = FailoverPhaseSucceeded
         \<or> phase (foip_status foip) = FailoverPhaseDegraded
      then reopen_selection foip
      else
        let count = wrap32 (candidate_failure_count (foip_status foip) + 1);
            foip1 = set_status foip ((foip_status foip)\<lparr>candidate_failure_count := count\<rparr>) in
        if count < failureThreshold (foip_spec foip) then
          patch_or_fail foip foip1 (\<lambda>served. Return (requeue preparationPollInterval))
        else case candidate_since (foip_status foip1) of
               None \<Rightarrow> open_window foip1
             | Some since \<Rightarrow>
                 Now (\<lambda>t.
                   if \<not> candidateReadyForHandoff (foip_spec foip1) (foip_status foip1) better t then
                     Now (\<lambda>t'.
                       let ready = since + wrap64 (stabilizationWindow (foip_spec foip1)
                                                   + minHealthyWindow (foip_spec foip1)) in
                       Return (requeue (max (time_sub ready t') second)))
                   else switch_target foip1 better))"

definition select_candidate :: "failover_ip \<Rightarrow> observation \<Rightarrow> step \<Rightarrow> step" where
  "select_candidate foip ob k =
     (case betterNode (candidateNodes (obs_nodes ob)) (target_node (foip_status foip)) of
        None \<Rightarrow>
          if phase (foip_status foip) = FailoverPhaseStabilizing
             \<and> candidate_since (foip_status foip) \<noteq> None
          then cancel_candidate foip else k
      | Some better \<Rightarrow>
          if node_name better \<noteq> target_node (foip_status foip)
          then pursue_candidate foip better else k)"

section \<open>The target\<close>

definition resolve_target ::
  "failover_ip_reconciler \<Rightarrow> failover_ip \<Rightarrow> (int \<Rightarrow> step) \<Rightarrow> step" where
  "resolve_target r foip k =
     (let targetName = target_node (foip_status foip) in
      if targetName = '''' then Return (requeue (requeueAfter r))
      else if phase (foip_status foip) = FailoverPhaseSucceeded then
        Return (requeue (requeueAfter r))
      else GetNode targetName (\<lambda>g. case g of
        Inl e \<Rightarrow> Return (failed e)
      | Inr targetNode \<Rightarrow>
          let serverIDStr = map_get (node_annotations targetNode) ServerIDAnnotation in
          if serverIDStr = '''' then
            Return (failed (GoError (''node '' @ targetName @ '' missing annotation ''
                              @ ServerIDAnnotation)))
          else (case sscanf_d serverIDStr of
                  None \<Rightarrow> Return (failed (GoError (''node '' @ targetName @ '' annotation ''
                                            @ ServerIDAnnotation @ '' is not an integer'')))
                | Some targetServerID \<Rightarrow>
                    if targetName \<notin> set (local_owners (foip_status foip)) then
                      Return (requeue preparationPollInterval)
                    else k targetServerID)))"

definition prepare_target :: "failover_ip \<Rightarrow> step \<Rightarrow> step" where
  "prepare_target foip k =
     (if phase (foip_status foip) = FailoverPhasePreparingTarget then
        Now (\<lambda>now. advanceTransition foip FailoverPhaseTargetPrepared now (\<lambda>foip1.
          patch_or_fail foip
            (set_status foip1 (SetCondition (foip_status foip1) ConditionTargetPrepared
               ConditionTrue ''NodeReportedOwnership''
               ''Target node reported local /32 ownership'' now))
            (\<lambda>served. Return (requeue preparationPollInterval))))
      else if phase (foip_status foip) = FailoverPhaseTargetPrepared
           \<or> phase (foip_status foip) = FailoverPhaseRoutingProvider then
        evaluateProbePhase True foip ProbePhasePreRoute (\<lambda>pe. case pe of
          Some e \<Rightarrow> patch_or_fail foip
                      (set_status foip ((foip_status foip)\<lparr>last_error := error_text e\<rparr>))
                      (\<lambda>served. Return (requeue preparationPollInterval))
        | None \<Rightarrow>
            if phase (foip_status foip) = FailoverPhaseTargetPrepared then
              Now (\<lambda>now. advanceTransition foip FailoverPhaseRoutingProvider now (\<lambda>foip1.
                patch_or_fail foip foip1 (\<lambda>served. Return (requeue preparationPollInterval))))
            else k)
      else k)"

section \<open>Routing\<close>

text \<open>Reading the provider until it reports the target, at most \<open>providerVerifyAttempts\<close> times.\<close>

fun verify_route :: "nat \<Rightarrow> string \<Rightarrow> int \<Rightarrow> (bool \<Rightarrow> step) \<Rightarrow> step" where
  "verify_route 0 ip targetServerID k = k False"
| "verify_route (Suc n) ip targetServerID k =
     FindFailoverIP ip (\<lambda>f.
       Observe (ObserveProviderCall ''netcup'' ''verify_failover_ip'' (isl f))
         (case f of
            Inl e \<Rightarrow> Return (failed (Wrapped ''verifying failover route: '' e))
          | Inr (i, observedServerID) \<Rightarrow>
              if observedServerID = targetServerID then k True
              else WaitInterval providerVerifyInterval (\<lambda>c. case c of
                     Some e \<Rightarrow> Return (failed e)
                   | None \<Rightarrow> verify_route n ip targetServerID k)))"

definition defer_mutation :: "failover_ip \<Rightarrow> time \<Rightarrow> step" where
  "defer_mutation foip nextMutation =
     Observe ObserveCooldownBlock
       (Now (\<lambda>now.
          let st = (foip_status foip)\<lparr>next_eligible_mutation_at := Some nextMutation\<rparr>;
              foip' = set_status foip (SetCondition st ConditionCooldown ConditionTrue
                        ''ProviderCooldown''
                        ''Provider mutation is waiting for the persisted cooldown'' now) in
          patch_or_fail foip foip' (\<lambda>served.
            Now (\<lambda>t. Return (requeue (time_sub nextMutation t))))))"

definition route_failed :: "failover_ip \<Rightarrow> go_error \<Rightarrow> step" where
  "route_failed foip e =
     (let count = wrap32 (retry_count (foip_status foip) + 1) in
      patch_or_fail foip
        (set_status foip ((foip_status foip)\<lparr>retry_count := count, last_error := error_text e\<rparr>))
        (\<lambda>served.
           RandInt64N (wrap64 (retryBackoff (foip_spec served) (retry_count (foip_status served)) + 1))
             (\<lambda>jitter.
                let delay = retryDelay jitter in
                Return (requeue (case as_provider_error e of
                  None \<Rightarrow> delay
                | Some pe \<Rightarrow> if pe_retry_after pe > delay then pe_retry_after pe else delay)))))"

definition mutate_route ::
  "failover_ip \<Rightarrow> int \<Rightarrow> int \<Rightarrow> (failover_ip \<Rightarrow> step) \<Rightarrow> step" where
  "mutate_route foip foipID targetServerID k =
     Now (\<lambda>attemptedAt.
       let st = (foip_status foip)\<lparr>last_attempted_mutation_at := Some attemptedAt\<rparr>;
           foip' = set_status foip (SetCondition st ConditionCooldown ConditionFalse
                     ''MutationEligible'' ''Provider mutation cooldown has elapsed'' attemptedAt) in
       patch_or_fail foip foip' (\<lambda>served.
         RouteFailoverIP foipID targetServerID (\<lambda>routed.
           Observe (ObserveProviderCall ''netcup'' ''route_failover_ip'' (routed \<noteq> None))
             (case routed of
                Some e \<Rightarrow> route_failed served e
              | None \<Rightarrow>
                  verify_route providerVerifyAttempts (spec_ip (foip_spec served)) targetServerID
                    (\<lambda>verified.
                       if \<not> verified then
                         Return (failed (GoError (''provider route did not converge to server ''
                           @ itoa targetServerID
                           @ ''; retaining old and new local ownership'')))
                       else Observe ObserveHandoffDuration
                         (Now (\<lambda>confirmedAt.
                           k (set_status served ((foip_status served)\<lparr>
                                last_confirmed_mutation_at := Some confirmedAt,
                                provider_observed_owner := itoa targetServerID\<rparr>)))))))))"

definition route_provider ::
  "failover_ip \<Rightarrow> observation \<Rightarrow> int \<Rightarrow> (failover_ip \<Rightarrow> step) \<Rightarrow> step" where
  "route_provider foip ob targetServerID k =
     (if obs_server_id ob \<noteq> targetServerID then
        if phase (foip_status foip) \<noteq> FailoverPhaseRoutingProvider then
          Return (requeue providerVerifyInterval)
        else Now (\<lambda>now.
          case providerMutationGate (foip_status foip) (providerCooldown (foip_spec foip)) now of
            (nextMutation, allowed) \<Rightarrow>
              if \<not> allowed then defer_mutation foip nextMutation
              else mutate_route foip (obs_foip_id ob) targetServerID k)
      else k foip)"

section \<open>Verification, commit and cleanup\<close>

definition verify_provider :: "failover_ip \<Rightarrow> observation \<Rightarrow> int \<Rightarrow> step \<Rightarrow> step" where
  "verify_provider foip ob targetServerID k =
     (if phase (foip_status foip) = FailoverPhaseRoutingProvider then
        Now (\<lambda>now. advanceTransition foip FailoverPhaseVerifyingProvider now (\<lambda>foip1.
          UpdateStatus (set_status foip1 (SetCondition (foip_status foip1)
              ConditionProviderConverged ConditionTrue ''ProviderOwnerConfirmed''
              ''Provider reports the selected target owner'' now))
            (\<lambda>u. case u of Inl e \<Rightarrow> Return (failed e)
                  | Inr served \<Rightarrow> Return (requeue providerVerifyInterval))))
      else if phase (foip_status foip) = FailoverPhaseVerifyingProvider then
        if obs_server_id ob \<noteq> targetServerID then Return (requeue providerVerifyInterval)
        else Now (\<lambda>now. advanceTransition foip FailoverPhaseVerifyingTraffic now (\<lambda>foip1.
          patch_or_fail foip foip1 (\<lambda>served. Return (requeue preparationPollInterval))))
      else k)"

definition verify_traffic :: "failover_ip \<Rightarrow> observation \<Rightarrow> (failover_ip \<Rightarrow> step) \<Rightarrow> step" where
  "verify_traffic foip ob k =
     evaluateProbePhase True foip ProbePhasePostRoute (\<lambda>pe. case pe of
       None \<Rightarrow> k foip
     | Some e \<Rightarrow>
         recoverPostRouteFailure foip (obs_foip_id ob) (\<lambda>commitDegraded recoveryResult foip'.
           if result_err recoveryResult \<noteq> None then Return recoveryResult
           else if \<not> commitDegraded then Return recoveryResult
           else k foip'))"

definition clean_owners :: "failover_ip_reconciler \<Rightarrow> failover_ip \<Rightarrow> time \<Rightarrow> step" where
  "clean_owners r foip now =
     (let attempts = wrap32 (cleanup_attempts (foip_status foip) + 1);
          st = (foip_status foip)\<lparr>cleanup_attempts := attempts\<rparr>;
          save = (\<lambda>foip'. patch_or_fail foip foip' (\<lambda>served.
            if phase (foip_status served) = FailoverPhaseDegraded
            then Return (requeue (requeueAfter r))
            else Return (requeue preparationPollInterval))) in
      if attempts \<ge> cleanupMaxAttempts (foip_spec foip) then
        Now (\<lambda>degradedAt.
          save (set_status foip (SetCondition
            (st\<lparr>phase := FailoverPhaseDegraded,
                last_error := ''stale local owners did not converge within the cleanup budget''\<rparr>)
            ConditionDegraded ConditionTrue ''CleanupTimeout''
            ''Stale local owners did not converge within the cleanup budget'' degradedAt)))
      else
        Now (\<lambda>t.
          save (set_status foip (SetCondition
            (st\<lparr>next_cleanup_at := Some (now + cleanupRetryDelay (foip_spec foip) attempts)\<rparr>)
            ConditionOwnershipConverged ConditionFalse ''OwnersPending''
            ''Waiting for exactly one local target owner'' t))))"

definition succeed :: "failover_ip_reconciler \<Rightarrow> failover_ip \<Rightarrow> step" where
  "succeed r foip =
     Now (\<lambda>now. advanceTransition foip FailoverPhaseSucceeded now (\<lambda>foip1.
       emitEvent foip1 EventTypeNormal ''HandoffSucceeded''
         ''Failover transition converged to one local owner''
         (patch_or_fail foip
            (set_status foip1 (SetCondition
               (SetCondition (foip_status foip1) ConditionOwnershipConverged ConditionTrue
                  ''SingleOwner'' ''Exactly one local target owner is confirmed'' now)
               ConditionReady ConditionTrue ''Succeeded''
               ''Failover transition completed successfully'' now))
            (\<lambda>served. Return (requeue (requeueAfter r))))))"

definition unexpected_phase :: "failover_ip \<Rightarrow> step" where
  "unexpected_phase foip =
     patch_or_fail foip
       (set_status foip ((foip_status foip)\<lparr>phase := FailoverPhaseBlocked,
          last_error := ''unexpected persisted phase ''
            @ quote (phase_string (phase (foip_status foip)))\<rparr>))
       (\<lambda>served. Return (failed (GoError ''unexpected persisted phase'')))"

definition commit_and_clean :: "failover_ip_reconciler \<Rightarrow> failover_ip \<Rightarrow> step" where
  "commit_and_clean r foip =
     (if phase (foip_status foip) = FailoverPhaseVerifyingTraffic then
        Now (\<lambda>now. advanceTransition foip FailoverPhaseCommitting now (\<lambda>foip1.
          patch_or_fail foip
            (set_status foip1 (SetCondition (foip_status foip1) ConditionTrafficVerified
               ConditionTrue ''ProbeGatePassed'' ''Post-route traffic verification passed'' now))
            (\<lambda>served. Return (requeue preparationPollInterval))))
      else if phase (foip_status foip) = FailoverPhaseCommitting then
        Now (\<lambda>now. advanceTransition
          (set_status foip ((foip_status foip)\<lparr>source_node := target_node (foip_status foip)\<rparr>))
          FailoverPhaseCleaningStaleOwners now (\<lambda>foip1.
            patch_or_fail foip foip1 (\<lambda>served. Return (requeue preparationPollInterval))))
      else if phase (foip_status foip) = FailoverPhaseCleaningStaleOwners then
        Observe (ObserveOwnerCount (phase_string (phase (foip_status foip)))
                   (int (length (local_owners (foip_status foip)))))
          (Now (\<lambda>now.
             case next_cleanup_at (foip_status foip) of
               Some due \<Rightarrow>
                 if now < due then Now (\<lambda>t. Return (requeue (time_sub due t)))
                 else if length (local_owners (foip_status foip)) \<noteq> 1
                      \<or> target_node (foip_status foip) \<notin> set (local_owners (foip_status foip))
                 then clean_owners r foip now else succeed r foip
             | None \<Rightarrow>
                 if length (local_owners (foip_status foip)) \<noteq> 1
                    \<or> target_node (foip_status foip) \<notin> set (local_owners (foip_status foip))
                 then clean_owners r foip now else succeed r foip))
      else unexpected_phase foip)"

section \<open>The method\<close>

definition handoff :: "failover_ip_reconciler \<Rightarrow> failover_ip \<Rightarrow> observation \<Rightarrow> step" where
  "handoff r foip ob =
     resolve_target r foip (\<lambda>targetServerID.
       prepare_target foip
         (route_provider foip ob targetServerID (\<lambda>foip1.
            verify_provider foip1 ob targetServerID
              (verify_traffic foip1 ob (\<lambda>foip2. commit_and_clean r foip2)))))"

definition reconcile_foip :: "failover_ip_reconciler \<Rightarrow> string \<Rightarrow> failover_ip \<Rightarrow> step" where
  "reconcile_foip r namespace foip =
     (if transition_id (foip_status foip) = '''' then begin_transition foip
      else case ValidateFailoverIpSpec (foip_spec foip) of
        Some e \<Rightarrow> persistInvalidSpec foip e
      | None \<Rightarrow>
          (case ValidateStatus (foip_status foip) of
             Some e \<Rightarrow> block_invalid_status foip e
           | None \<Rightarrow>
               if phase (foip_status foip) = FailoverPhaseBlocked
                  \<or> phase (foip_status foip) = FailoverPhaseDegraded
               then resume_halted r foip
               else with_credentials namespace foip
                      (observe_provider foip (\<lambda>foip1 ob.
                         select_candidate foip1 ob (handoff r foip1 ob)))))"

fun is_not_found :: "go_error \<Rightarrow> bool" where
  "is_not_found (NotFoundError m) = True"
| "is_not_found (Wrapped prefix e) = is_not_found e"
| "is_not_found (GoError m) = False"
| "is_not_found (ProviderError p) = False"

definition IgnoreNotFound :: "go_error \<Rightarrow> reconcile_result" where
  "IgnoreNotFound e = (if is_not_found e then requeue 0 else failed e)"

definition finish_reconcile :: "string \<Rightarrow> reconcile_result \<Rightarrow> step" where
  "finish_reconcile currentPhase res =
     Observe (ObserveReconcile ''failoverip''
                (if result_err res \<noteq> None then ''error''
                 else if requeue_after res > 0 then ''requeue_after'' else ''success''))
       (Observe (ObservePhase currentPhase) (Return res))"

definition Reconcile :: "failover_ip_reconciler \<Rightarrow> string \<Rightarrow> string \<Rightarrow> step" where
  "Reconcile r namespace name =
     GetFailoverIp namespace name (\<lambda>g. case g of
       Inl e \<Rightarrow> finish_reconcile '''' (IgnoreNotFound e)
     | Inr foip \<Rightarrow>
         let currentPhase = phase_string (phase (foip_status foip)) in
         Observe (ObservePhaseState currentPhase)
           (bind (reconcile_foip r namespace foip) (finish_reconcile currentPhase)))"

end
