(* ===== verification/Node_Interface.thy ===== *)
theory Node_Interface
  imports Failover_Controller
begin

text \<open>
  The agent that runs on every node (\<open>internal/controller/nodeinterface_controller.go\<close>): it
  puts the failover address on the node's public interface while the node is source or target
  of the transition, removes it otherwise, and reports local ownership in the status.
\<close>

section \<open>Interfaces\<close>

text \<open>
  \<open>strings.EqualFold\<close> against the text of a hardware address, which holds only hexadecimal
  digits and colons; for those, Unicode folding is ASCII folding.
\<close>

definition to_lower :: "char \<Rightarrow> char" where
  "to_lower c = (let n = of_char c :: nat in if 65 \<le> n \<and> n \<le> 90 then char_of (n + 32) else c)"

definition equal_fold :: "string \<Rightarrow> string \<Rightarrow> bool" where
  "equal_fold s t \<longleftrightarrow> map to_lower s = map to_lower t"

definition findLinkByMAC :: "string \<Rightarrow> (go_error + link \<Rightarrow> 'a prog) \<Rightarrow> 'a prog" where
  "findLinkByMAC mac k =
     LinkList (\<lambda>r. case r of
       Inl e \<Rightarrow> k (Inl (Wrapped ''listing network interfaces: '' e))
     | Inr links \<Rightarrow>
         (case find (\<lambda>l. equal_fold (link_mac l) mac) links of
            Some l \<Rightarrow> k (Inr l)
          | None \<Rightarrow> k (Inl (GoError (''no interface found with MAC '' @ mac)))))"

definition linkAndAddress :: "string \<Rightarrow> string \<Rightarrow> (go_error + link \<times> net_addr \<Rightarrow> 'a prog) \<Rightarrow> 'a prog" where
  "linkAndAddress mac ipStr k =
     findLinkByMAC mac (\<lambda>r. case r of
       Inl e \<Rightarrow> k (Inl e)
     | Inr l \<Rightarrow>
         (case parse_ip ipStr of
            None \<Rightarrow> k (Inl (GoError (''invalid IPv4 address: '' @ ipStr)))
          | Some a \<Rightarrow> if to4 a = None then k (Inl (GoError (''invalid IPv4 address: '' @ ipStr)))
                      else k (Inr (l, (a, 32)))))"

definition ensureIPAssigned :: "string \<Rightarrow> string \<Rightarrow> (go_error option \<Rightarrow> 'a prog) \<Rightarrow> 'a prog" where
  "ensureIPAssigned mac ipStr k =
     linkAndAddress mac ipStr (\<lambda>r. case r of
       Inl e \<Rightarrow> k (Some e)
     | Inr (l, addr) \<Rightarrow>
         AddrList l (\<lambda>existing. case existing of
           Inl e \<Rightarrow> k (Some (Wrapped (''listing addresses on '' @ link_name l @ '': '') e))
         | Inr addrs \<Rightarrow>
             if list_ex (\<lambda>current. ip_equal (fst current) (fst addr)) addrs then k None
             else AddrAdd l addr k))"

definition ensureIPRemoved :: "string \<Rightarrow> string \<Rightarrow> (go_error + bool \<Rightarrow> 'a prog) \<Rightarrow> 'a prog" where
  "ensureIPRemoved mac ipStr k =
     linkAndAddress mac ipStr (\<lambda>r. case r of
       Inl e \<Rightarrow> k (Inl e)
     | Inr (l, addr) \<Rightarrow>
         AddrList l (\<lambda>existing. case existing of
           Inl e \<Rightarrow> k (Inl (Wrapped (''listing addresses on '' @ link_name l @ '': '') e))
         | Inr addrs \<Rightarrow>
             (case find (\<lambda>current. ip_equal (fst current) (fst addr)) addrs of
                None \<Rightarrow> k (Inr False)
              | Some current \<Rightarrow> AddrDel l current (\<lambda>d. case d of
                    Some e \<Rightarrow> k (Inl e) | None \<Rightarrow> k (Inr True)))))"

section \<open>Reconciliation\<close>

record node_interface_reconciler =
  reconciler_node :: string

definition removeNode :: "string list \<Rightarrow> string \<Rightarrow> string list" where
  "removeNode nodes name = filter (\<lambda>n. n \<noteq> name) nodes"

definition interface_error :: "string \<Rightarrow> string \<Rightarrow> string \<Rightarrow> string \<Rightarrow> go_error \<Rightarrow> go_error" where
  "interface_error what ipStr dir mac e =
     Wrapped (what @ ipStr @ dir @ mac @ '': '') e"

definition own_address :: "string \<Rightarrow> failover_ip \<Rightarrow> string \<Rightarrow> reconcile_result prog" where
  "own_address nodeName foip mac =
     ensureIPAssigned mac (spec_ip (foip_spec foip)) (\<lambda>a. case a of
       Some e \<Rightarrow>
         Observe (ObserveInterfaceOperation ''nodeinterface'' ''assign'' True)
           (Return (failed (interface_error ''assigning '' (spec_ip (foip_spec foip))
                              '' to interface with MAC '' mac e)))
     | None \<Rightarrow>
         Observe (ObserveInterfaceOperation ''nodeinterface'' ''assign'' False)
           (if nodeName \<in> set (local_owners (foip_status foip)) then Return (requeue 0)
            else PatchStatus foip
                   (set_status foip ((foip_status foip)\<lparr>
                      local_owners := local_owners (foip_status foip) @ [nodeName]\<rparr>))
                   (\<lambda>r. case r of
                      Inl e \<Rightarrow> Return (failed (Wrapped (''marking node '' @ nodeName
                                                     @ '' prepared: '') e))
                    | Inr served \<Rightarrow> Return (requeue 0))))"

definition disown_address :: "string \<Rightarrow> failover_ip \<Rightarrow> string \<Rightarrow> reconcile_result prog" where
  "disown_address nodeName foip mac =
     ensureIPRemoved mac (spec_ip (foip_spec foip)) (\<lambda>d. case d of
       Inl e \<Rightarrow>
         Observe (ObserveInterfaceOperation ''nodeinterface'' ''remove'' True)
           (Return (failed (interface_error ''removing stale '' (spec_ip (foip_spec foip))
                              '' from interface with MAC '' mac e)))
     | Inr removed \<Rightarrow>
         Observe (ObserveInterfaceOperation ''nodeinterface'' ''remove'' False)
           (if removed \<and> nodeName \<in> set (local_owners (foip_status foip)) then
              PatchStatus foip
                (set_status foip ((foip_status foip)\<lparr>
                   local_owners := removeNode (local_owners (foip_status foip)) nodeName\<rparr>))
                (\<lambda>r. case r of
                   Inl e \<Rightarrow> Return (failed (Wrapped ''reporting stale owner removal: '' e))
                 | Inr served \<Rightarrow> Return (requeue 0))
            else Return (requeue 0)))"

definition shouldOwn :: "string \<Rightarrow> failover_ip_status \<Rightarrow> bool" where
  "shouldOwn nodeName st \<longleftrightarrow> nodeName = target_node st \<or> nodeName = source_node st"

definition interface_body ::
  "node_interface_reconciler \<Rightarrow> string \<Rightarrow> string \<Rightarrow> reconcile_result prog" where
  "interface_body r namespace name =
     GetFailoverIp namespace name (\<lambda>g. case g of
       Inl e \<Rightarrow> Return (IgnoreNotFound e)
     | Inr foip \<Rightarrow>
         GetNode (reconciler_node r) (\<lambda>n. case n of
           Inl e \<Rightarrow> Return (failed e)
         | Inr nd \<Rightarrow>
             let mac = map_get (node_annotations nd) MACAnnotation in
             if mac = '''' then
               Return (failed (GoError (''node '' @ reconciler_node r @ '' missing annotation ''
                                 @ MACAnnotation)))
             else if shouldOwn (reconciler_node r) (foip_status foip)
                  then own_address (reconciler_node r) foip mac
                  else disown_address (reconciler_node r) foip mac))"

definition NodeInterface_Reconcile ::
  "node_interface_reconciler \<Rightarrow> string \<Rightarrow> string \<Rightarrow> reconcile_result prog" where
  "NodeInterface_Reconcile r namespace name =
     bind (interface_body r namespace name) (\<lambda>res.
       Observe (ObserveReconcile ''nodeinterface''
                  (if result_err res \<noteq> None then ''error''
                   else if requeue_after res > 0 then ''requeue_after'' else ''success''))
         (Return res))"

section \<open>Watches\<close>

text \<open>What the watch hands to the predicate: a node, or an object of another type by name.\<close>

datatype watched =
  WatchedNode node
| WatchedOther string

fun watched_name :: "watched \<Rightarrow> string" where
  "watched_name (WatchedNode n) = node_name n"
| "watched_name (WatchedOther name) = name"

definition localNodeMACChanged_Create :: "string \<Rightarrow> watched \<Rightarrow> bool" where
  "localNodeMACChanged_Create nodeName obj \<longleftrightarrow> watched_name obj = nodeName"

definition localNodeMACChanged_Delete :: "string \<Rightarrow> watched \<Rightarrow> bool" where
  "localNodeMACChanged_Delete nodeName obj \<longleftrightarrow> watched_name obj = nodeName"

definition localNodeMACChanged_Update :: "string \<Rightarrow> watched \<Rightarrow> watched \<Rightarrow> bool" where
  "localNodeMACChanged_Update nodeName old new =
     (if watched_name new \<noteq> nodeName then False
      else case (old, new) of
             (WatchedNode a, WatchedNode b) \<Rightarrow>
               map_get (node_annotations a) MACAnnotation
                 \<noteq> map_get (node_annotations b) MACAnnotation
           | _ \<Rightarrow> True)"

text \<open>A reconcile request is a name and a namespace.\<close>

definition nodeToAllFoips :: "go_error + failover_ip list \<Rightarrow> (string \<times> string) list" where
  "nodeToAllFoips listed =
     (case listed of Inl e \<Rightarrow> []
      | Inr foips \<Rightarrow> map (\<lambda>f. (foip_name f, foip_namespace f)) foips)"

section \<open>What every call of the agent is preceded by\<close>

text \<open>
  The agent has read the failover IP and its own node, and found the node's interface by the
  annotated hardware address.
\<close>

definition agent_view :: "string \<Rightarrow> event set \<Rightarrow> failover_ip \<Rightarrow> string \<Rightarrow> bool" where
  "agent_view nodeName H foip mac \<longleftrightarrow>
     (\<exists>ns name nd. EvGetFailoverIp ns name (Inr foip) \<in> H \<and> EvGetNode nodeName (Inr nd) \<in> H
        \<and> mac = map_get (node_annotations nd) MACAnnotation \<and> mac \<noteq> '''')"

definition own_link :: "event set \<Rightarrow> string \<Rightarrow> link \<Rightarrow> bool" where
  "own_link H mac l \<longleftrightarrow>
     (\<exists>links. EvLinkList (Inr links) \<in> H \<and> l \<in> set links \<and> equal_fold (link_mac l) mac)"

text \<open>
  Adding: the node is source or target, the address is the one of the specification and was not
  on the interface.  Removing: the node is neither, and the address removed is that address.
  Status writes touch nothing but this node's entry among the local owners, and follow the
  state of the interface.
\<close>

definition may_add :: "string \<Rightarrow> event set \<Rightarrow> link \<Rightarrow> net_addr \<Rightarrow> bool" where
  "may_add nodeName H l a \<longleftrightarrow>
     (\<exists>foip mac addrs. agent_view nodeName H foip mac \<and> own_link H mac l
        \<and> shouldOwn nodeName (foip_status foip) \<and> parse_ip (spec_ip (foip_spec foip)) = Some (fst a)
        \<and> to4 (fst a) \<noteq> None \<and> snd a = 32 \<and> EvAddrList l (Inr addrs) \<in> H
        \<and> list_all (\<lambda>current. \<not> ip_equal (fst current) (fst a)) addrs)"

definition may_delete :: "string \<Rightarrow> event set \<Rightarrow> link \<Rightarrow> net_addr \<Rightarrow> bool" where
  "may_delete nodeName H l current \<longleftrightarrow>
     (\<exists>foip mac a. agent_view nodeName H foip mac \<and> own_link H mac l
        \<and> \<not> shouldOwn nodeName (foip_status foip) \<and> parse_ip (spec_ip (foip_spec foip)) = Some a
        \<and> ip_equal (fst current) a)"

definition assigned :: "event set \<Rightarrow> link \<Rightarrow> ip \<Rightarrow> bool" where
  "assigned H l a \<longleftrightarrow> EvAddrAdd l (a, 32) None \<in> H
     \<or> (\<exists>addrs current. EvAddrList l (Inr addrs) \<in> H \<and> current \<in> set addrs \<and> ip_equal (fst current) a)"

definition joins :: "string \<Rightarrow> event set \<Rightarrow> failover_ip \<Rightarrow> failover_ip \<Rightarrow> bool" where
  "joins nodeName H b f \<longleftrightarrow>
     shouldOwn nodeName (foip_status b) \<and> nodeName \<notin> set (local_owners (foip_status b))
     \<and> f = set_status b ((foip_status b)\<lparr>local_owners := local_owners (foip_status b) @ [nodeName]\<rparr>)
     \<and> (\<exists>l a mac. agent_view nodeName H b mac \<and> own_link H mac l
          \<and> parse_ip (spec_ip (foip_spec b)) = Some a \<and> assigned H l a)"

definition leaves :: "string \<Rightarrow> event set \<Rightarrow> failover_ip \<Rightarrow> failover_ip \<Rightarrow> bool" where
  "leaves nodeName H b f \<longleftrightarrow>
     \<not> shouldOwn nodeName (foip_status b) \<and> nodeName \<in> set (local_owners (foip_status b))
     \<and> f = set_status b ((foip_status b)\<lparr>
             local_owners := removeNode (local_owners (foip_status b)) nodeName\<rparr>)
     \<and> (\<exists>l a current mac. agent_view nodeName H b mac \<and> own_link H mac l
          \<and> parse_ip (spec_ip (foip_spec b)) = Some a \<and> ip_equal (fst current) a
          \<and> EvAddrDel l current None \<in> H)"

fun agent_call :: "string \<Rightarrow> event set \<Rightarrow> event \<Rightarrow> bool" where
  "agent_call nodeName H (EvAddrAdd l a r) \<longleftrightarrow> may_add nodeName H l a"
| "agent_call nodeName H (EvAddrDel l a r) \<longleftrightarrow> may_delete nodeName H l a"
| "agent_call nodeName H (EvPatchStatus b f r) \<longleftrightarrow> joins nodeName H b f \<or> leaves nodeName H b f"
| "agent_call nodeName H (EvUpdateStatus f r) \<longleftrightarrow> False"
| "agent_call nodeName H (EvRouteFailoverIP i s r) \<longleftrightarrow> False"
| "agent_call nodeName H _ \<longleftrightarrow> True"

lemma own_link_mono: "own_link H mac l \<Longrightarrow> H \<subseteq> H' \<Longrightarrow> own_link H' mac l"
  by (auto simp: own_link_def)

lemma agent_view_mono: "agent_view n H foip mac \<Longrightarrow> H \<subseteq> H' \<Longrightarrow> agent_view n H' foip mac"
  by (auto simp: agent_view_def)

lemma assignedI:
  "EvAddrAdd l (a, 32) None \<in> H \<Longrightarrow> assigned H l a"
  "EvAddrList l (Inr addrs) \<in> H \<Longrightarrow> current \<in> set addrs \<Longrightarrow> ip_equal (fst current) a \<Longrightarrow> assigned H l a"
  unfolding assigned_def by blast+

lemma wp_linkAndAddress:
  assumes err: "\<And>H' e. H \<subseteq> H' \<Longrightarrow> wp (agent_call n) Q H' (k (Inl e))"
    and ok: "\<And>H' l a. H \<subseteq> H' \<Longrightarrow> own_link H' mac l \<Longrightarrow> parse_ip ipStr = Some a \<Longrightarrow> to4 a \<noteq> None \<Longrightarrow>
      wp (agent_call n) Q H' (k (Inr (l, (a, 32))))"
  shows "wp (agent_call n) Q H (linkAndAddress mac ipStr k)"
proof -
  have own: "own_link (insert (EvLinkList (Inr links)) H) mac l"
    if "find (\<lambda>l. equal_fold (link_mac l) mac) links = Some l" for links l
    using find_name_mem [OF that] by (auto simp: own_link_def)
  show ?thesis
    by (auto simp: linkAndAddress_def findLinkByMAC_def intro!: err ok own
        split: sum.split option.split)
qed

lemma wp_own_address:
  assumes view: "agent_view n H foip mac" and own: "shouldOwn n (foip_status foip)"
  shows "wp (agent_call n) (\<lambda>_ _. True) H (own_address n foip mac)"
proof -
  have joins: "joins n H' foip (set_status foip ((foip_status foip)\<lparr>
      local_owners := local_owners (foip_status foip) @ [n]\<rparr>))"
    if "H \<subseteq> H'" "own_link H' mac l" "parse_ip (spec_ip (foip_spec foip)) = Some a" "assigned H' l a"
      "n \<notin> set (local_owners (foip_status foip))" for H' l a
    unfolding joins_def using that own agent_view_mono [OF view that(1)] by auto
  have add: "may_add n H' l (a, 32)"
    if "H \<subseteq> H'" "own_link H' mac l" "parse_ip (spec_ip (foip_spec foip)) = Some a" "to4 a \<noteq> None"
      "EvAddrList l (Inr addrs) \<in> H'" "\<not> list_ex (\<lambda>current. ip_equal (fst current) a) addrs" for H' l a addrs
    unfolding may_add_def using that own agent_view_mono [OF view that(1)]
    by (auto simp: list_all_iff list_ex_iff)
  show ?thesis
    unfolding own_address_def ensureIPAssigned_def
  proof (rule wp_linkAndAddress, goal_cases)
    case (1 H' e)
    then show ?case by simp
  next
    case (2 H' l a)
    then show ?case
      by (auto simp: list_ex_iff intro!: joins [where l = l and a = a] add
          intro: own_link_mono assignedI split: sum.split option.split)
  qed
qed

lemma wp_disown_address:
  assumes view: "agent_view n H foip mac" and own: "\<not> shouldOwn n (foip_status foip)"
  shows "wp (agent_call n) (\<lambda>_ _. True) H (disown_address n foip mac)"
proof -
  have leaves: "leaves n H' foip (set_status foip ((foip_status foip)\<lparr>
      local_owners := removeNode (local_owners (foip_status foip)) n\<rparr>))"
    if "H \<subseteq> H'" "own_link H' mac l" "parse_ip (spec_ip (foip_spec foip)) = Some a"
      "ip_equal (fst current) a" "EvAddrDel l current None \<in> H'" "n \<in> set (local_owners (foip_status foip))"
    for H' l a current
    unfolding leaves_def using that own agent_view_mono [OF view that(1)] by blast
  have delete: "may_delete n H' l current"
    if "H \<subseteq> H'" "own_link H' mac l" "parse_ip (spec_ip (foip_spec foip)) = Some a"
      "find (\<lambda>c. ip_equal (fst c) a) addrs = Some current" for H' l a addrs current
    unfolding may_delete_def
    using that own agent_view_mono [OF view that(1)] find_name_mem [OF that(4)] by blast
  show ?thesis
    unfolding disown_address_def ensureIPRemoved_def
  proof (rule wp_linkAndAddress, goal_cases)
    case (1 H' e)
    then show ?case by simp
  next
    case (2 H' l a)
    then show ?case
      by (auto intro!: leaves [where l = l and a = a] delete dest: find_name_mem
          intro: own_link_mono split: sum.split option.split)
  qed
qed

lemma wp_NodeInterface_Reconcile:
  "wp (agent_call (reconciler_node r)) (\<lambda>_ _. True) {} (NodeInterface_Reconcile r ns name)"
proof -
  have "wp (agent_call (reconciler_node r)) (\<lambda>_ _. True) {} (interface_body r ns name)"
    by (auto simp: interface_body_def Let_def agent_view_def
        intro!: wp_own_address wp_disown_address split: sum.split)
  then show ?thesis by (simp add: NodeInterface_Reconcile_def wp_bind)
qed

lemma agent_calls_ok:
  "steps (NodeInterface_Reconcile r ns name) (pre @ e # post) p \<Longrightarrow>
     agent_call (reconciler_node r) (set pre) e"
  by (rule wp_call [OF wp_NodeInterface_Reconcile])

section \<open>Properties\<close>

text \<open>The failover IP, the node and the interface of the examples.\<close>

definition moved_foip :: failover_ip where
  "moved_foip = \<lparr> foip_name = ''ip'', foip_namespace = ''ns'', foip_uid = '''',
     foip_annotations = [], foip_spec = empty_spec\<lparr>spec_ip := ''192.0.2.7''\<rparr>,
     foip_status = empty_status\<lparr>transition_id := ''t'', target_node := ''b'',
       local_owners := [''a'']\<rparr> \<rparr>"

definition moved_address :: net_addr where
  "moved_address = (v4_in_v6_prefix @ [192, 0, 2, 7], 32)"

definition nic :: link where
  "nic = \<lparr> link_name = ''eth0'', link_mac = ''52:54:00:00:00:01'' \<rparr>"

lemma parse_moved: "parse_ip ''192.0.2.7'' = Some (fst moved_address)"
  by (simp add: parse_ip_def parse_addr_def parse_ipv4_def parse_octet_def digit_value_def
      moved_address_def Let_def)

lemma moved_simps:
  "equal_fold (link_mac nic) ''52:54:00:00:00:01''"
  "to4 (fst moved_address) \<noteq> None" "(fst moved_address, 32) = moved_address" "spec_ip (foip_spec moved_foip) = ''192.0.2.7''"
  "local_owners (foip_status moved_foip) = [''a'']"
  "shouldOwn n (foip_status moved_foip) \<longleftrightarrow> n = ''b'' \<or> n = ''''"
  by (simp_all add: nic_def equal_fold_def to4_def moved_address_def v4_in_v6_prefix_def
      moved_foip_def empty_spec_def empty_status_def shouldOwn_def)

text \<open>The calls of the target's agent up to the assignment, and of the former owner's up to the report.\<close>

definition arriving :: "event list" where
  "arriving = [EvGetFailoverIp ''ns'' ''ip'' (Inr moved_foip),
     EvGetNode ''b'' (Inr (plain_node ''b'' ''12'' ConditionTrue)),
     EvLinkList (Inr [nic]), EvAddrList nic (Inr [])]"

definition departing :: "event list" where
  "departing = [EvGetFailoverIp ''ns'' ''ip'' (Inr moved_foip),
     EvGetNode ''a'' (Inr (plain_node ''a'' ''11'' ConditionTrue)),
     EvLinkList (Inr [nic]), EvAddrList nic (Inr [moved_address])]"

lemmas agent_defs = NodeInterface_Reconcile_def interface_body_def own_address_def
  disown_address_def ensureIPAssigned_def ensureIPRemoved_def linkAndAddress_def
  findLinkByMAC_def Let_def

lemma arriving_run:
  "\<exists>p. steps (NodeInterface_Reconcile \<lparr>reconciler_node = ''b''\<rparr> ''ns'' ''ip'')
     (arriving @ EvAddrAdd nic moved_address None # []) p"
  by (simp add: arriving_def agent_defs steps_simps pstep_simps moved_simps parse_moved)

lemma departing_run:
  "\<exists>p f. steps (NodeInterface_Reconcile \<lparr>reconciler_node = ''a''\<rparr> ''ns'' ''ip'')
     (departing @ EvAddrDel nic moved_address None
        # [EvObserve (ObserveInterfaceOperation ''nodeinterface'' ''remove'' False),
           EvPatchStatus moved_foip f (Inr f)]) p"
  by (simp add: departing_def agent_defs steps_simps pstep_simps moved_simps parse_moved)

text \<open>
  C10: The agent adds an address only if it has read a failover IP of which its node is source
  or target, the address is the IPv4 address of that failover IP with a mask of 32 bits, the interface is the one with
  the node's annotated hardware address, and the interface did not have the address.
\<close>

theorem agent_adds_only_owned_address:
  assumes "steps (NodeInterface_Reconcile r ns name) (pre @ EvAddrAdd l a res # post) p"
  shows "may_add (reconciler_node r) (set pre) l a"
  using agent_calls_ok [OF assms] by simp

theorem agent_adds_only_owned_address_witness:
  "may_add ''b'' (set arriving) nic moved_address"
proof -
  obtain p where "steps (NodeInterface_Reconcile \<lparr>reconciler_node = ''b''\<rparr> ''ns'' ''ip'')
     (arriving @ EvAddrAdd nic moved_address None # []) p"
    using arriving_run by blast
  from agent_adds_only_owned_address [OF this] show ?thesis by simp
qed

text \<open>
  C11: The agent removes an address only if its node is neither source nor target of the failover
  IP it has read, and only the address of that failover IP, on its own interface: never the
  address of an owner, and never an unrelated address.
\<close>

theorem agent_removes_only_stale_address:
  assumes "steps (NodeInterface_Reconcile r ns name) (pre @ EvAddrDel l a res # post) p"
  shows "may_delete (reconciler_node r) (set pre) l a"
  using agent_calls_ok [OF assms] by simp

theorem agent_removes_only_stale_address_witness:
  "may_delete ''a'' (set departing) nic moved_address"
proof -
  obtain p f where "steps (NodeInterface_Reconcile \<lparr>reconciler_node = ''a''\<rparr> ''ns'' ''ip'')
     (departing @ EvAddrDel nic moved_address None
        # [EvObserve (ObserveInterfaceOperation ''nodeinterface'' ''remove'' False),
           EvPatchStatus moved_foip f (Inr f)]) p"
    using departing_run by blast
  from agent_removes_only_stale_address [OF this] show ?thesis by simp
qed

text \<open>
  C25: Every status write of the agent changes the local owners by its own node only: it joins
  as source or target once the address is on its interface, or leaves once the address has been
  removed.  The agent makes no other status write and never routes the provider.
\<close>

theorem agent_reports_its_own_state:
  assumes "steps (NodeInterface_Reconcile r ns name) (pre @ e # post) p"
    and "e = EvPatchStatus b f res \<or> e = EvUpdateStatus f res \<or> e = EvRouteFailoverIP i s res'"
  shows "e = EvPatchStatus b f res
    \<and> (joins (reconciler_node r) (set pre) b f \<or> leaves (reconciler_node r) (set pre) b f)"
  using agent_calls_ok [OF assms(1)] assms(2) by auto

theorem agent_reports_its_own_state_witness:
  "\<exists>pre f. joins ''a'' pre moved_foip f \<or> leaves ''a'' pre moved_foip f"
proof -
  obtain p f where run: "steps (NodeInterface_Reconcile \<lparr>reconciler_node = ''a''\<rparr> ''ns'' ''ip'')
     ((departing @ [EvAddrDel nic moved_address None,
           EvObserve (ObserveInterfaceOperation ''nodeinterface'' ''remove'' False)])
        @ EvPatchStatus moved_foip f (Inr f) # []) p"
    using departing_run by auto
  from agent_reports_its_own_state [OF run] show ?thesis by auto
qed

text \<open>
  A node that no longer owns the address takes itself off the list of local owners only in
  the very run that removed the address from its interface.  When that run fails to write the
  status, or the address is gone for another reason, no later run delists the node.
\<close>

theorem stale_owner_is_delisted_only_on_removal:
  assumes "steps (NodeInterface_Reconcile r ns name) es p"
    and "EvPatchStatus b f res \<in> set es" "\<not> shouldOwn (reconciler_node r) (foip_status b)"
  shows "\<exists>l a. EvAddrDel l a None \<in> set es"
proof -
  obtain pre post where es: "es = pre @ EvPatchStatus b f res # post"
    using assms(2) by (auto simp: in_set_conv_decomp)
  have "leaves (reconciler_node r) (set pre) b f"
    using agent_calls_ok [OF assms(1) [unfolded es]] assms(3) by (simp add: joins_def)
  then show ?thesis by (auto simp: leaves_def es)
qed

theorem stale_owner_is_delisted_only_on_removal_witness:
  "\<exists>f l a. EvAddrDel l a None \<in> set (departing @ EvAddrDel nic moved_address None
        # [EvObserve (ObserveInterfaceOperation ''nodeinterface'' ''remove'' False),
           EvPatchStatus moved_foip f (Inr f)])"
proof -
  obtain p f where run: "steps (NodeInterface_Reconcile \<lparr>reconciler_node = ''a''\<rparr> ''ns'' ''ip'')
     (departing @ EvAddrDel nic moved_address None
        # [EvObserve (ObserveInterfaceOperation ''nodeinterface'' ''remove'' False),
           EvPatchStatus moved_foip f (Inr f)]) p"
    using departing_run by blast
  have "\<not> shouldOwn (reconciler_node \<lparr>reconciler_node = ''a''\<rparr>) (foip_status moved_foip)"
    by (simp add: moved_simps)
  moreover have "EvPatchStatus moved_foip f (Inr f) \<in> set (departing @ EvAddrDel nic moved_address None
        # [EvObserve (ObserveInterfaceOperation ''nodeinterface'' ''remove'' False),
           EvPatchStatus moved_foip f (Inr f)])"
    by simp
  ultimately show ?thesis using stale_owner_is_delisted_only_on_removal [OF run] by blast
qed

end
