(* ===== verification/Watches.thy ===== *)
theory Watches
  imports Node_Interface
begin

text \<open>
  What wakes the failover controller up besides its own objects
  (\<open>internal/controller/failoverip_controller.go\<close>): the predicate on node updates and the maps
  from nodes, probes and secrets to the failover IPs to reconcile.
\<close>

section \<open>Node updates\<close>

text \<open>\<open>predicate.Funcs\<close> without the other three functions accepts those events.\<close>

definition nodeChange_conditions :: "string list" where
  "nodeChange_conditions = [NodeNetworkUnavailable, NodeReady, NodePIDPressure,
     NodeMemoryPressure, NodeDiskPressure]"

definition nodeChangePredicate_Update :: "watched \<Rightarrow> watched \<Rightarrow> bool" where
  "nodeChangePredicate_Update objectOld objectNew =
     (case (objectOld, objectNew) of
        (WatchedNode old, WatchedNode new) \<Rightarrow>
          if unschedulable old \<noteq> unschedulable new then True
          else if map_get (node_annotations old) MACAnnotation
                    \<noteq> map_get (node_annotations new) MACAnnotation
               \<or> map_get (node_annotations old) ServerIDAnnotation
                    \<noteq> map_get (node_annotations new) ServerIDAnnotation then True
          else list_ex (\<lambda>t. conditionIs old t ConditionTrue \<noteq> conditionIs new t ConditionTrue
                 \<or> conditionIs old t ConditionUnknown \<noteq> conditionIs new t ConditionUnknown)
                 nodeChange_conditions
      | _ \<Rightarrow> True)"

section \<open>Requests\<close>

text \<open>
  A reconcile request.  The order is that of the comparison function of \<open>secretToFoips\<close>:
  \<open>strings.Compare\<close> on the namespace, then on the name.
\<close>

datatype request = Request (request_name: string) (request_namespace: string)

text \<open>The order the requests of a secret are sorted by: namespace first, then name.\<close>

definition request_before :: "request \<Rightarrow> request \<Rightarrow> bool" where
  "request_before a b \<longleftrightarrow>
     (if request_namespace a \<noteq> request_namespace b then request_namespace a < request_namespace b
      else request_name a < request_name b)"

instantiation request :: linorder
begin

definition less_eq_request :: "request \<Rightarrow> request \<Rightarrow> bool" where
  "less_eq_request a b \<longleftrightarrow> a = b \<or> request_before a b"

definition less_request :: "request \<Rightarrow> request \<Rightarrow> bool" where
  "less_request = request_before"

instance
  by standard
    (auto simp: less_eq_request_def less_request_def request_before_def intro: request.expand
      split: if_splits)

end

text \<open>The lists of the API server, or its error, are arguments.\<close>

definition request_of :: "failover_ip \<Rightarrow> request" where
  "request_of foip = Request (foip_name foip) (foip_namespace foip)"

definition nodeToFoips :: "go_error + failover_ip list \<Rightarrow> request list" where
  "nodeToFoips listed = (case listed of Inl e \<Rightarrow> [] | Inr foips \<Rightarrow> map request_of foips)"

definition probeToFoips :: "string \<Rightarrow> string \<Rightarrow> go_error + failover_ip list \<Rightarrow> request list" where
  "probeToFoips probeName probeNamespace listed =
     (case listed of Inl e \<Rightarrow> []
      | Inr foips \<Rightarrow>
          map request_of
            (filter (\<lambda>foip. list_ex (\<lambda>ref. ref = probeName \<and> foip_namespace foip = probeNamespace)
                              (spec_probes (foip_spec foip))) foips))"

definition uses_secret :: "string \<Rightarrow> failover_probe \<Rightarrow> bool" where
  "uses_secret secretName p \<longleftrightarrow>
     map_option selector_name (credential_secret_ref (probe_spec p)) = Some secretName
     \<or> map_option selector_name (ca_bundle_secret_ref (probe_spec p)) = Some secretName"

definition secretToFoips ::
  "string \<Rightarrow> go_error + failover_ip list \<Rightarrow> go_error + failover_probe list \<Rightarrow> request list" where
  "secretToFoips secretName listedFoips listedProbes =
     (case listedFoips of Inl e \<Rightarrow> []
      | Inr foips \<Rightarrow>
          (case listedProbes of Inl e \<Rightarrow> []
           | Inr probes \<Rightarrow>
               let probeNames = map probe_name (filter (uses_secret secretName) probes) in
               sort (map request_of
                 (filter (\<lambda>foip. secret_name (foip_spec foip) = secretName
                            \<or> list_ex (\<lambda>ref. ref \<in> set probeNames) (spec_probes (foip_spec foip)))
                    foips))))"

section \<open>Registration\<close>

text \<open>
  What a controller asks the manager to watch: the kind, the predicate that filters its events and
  the map from an object to requests.  The kind a controller is for is mapped to itself.
\<close>

datatype watched_kind = FailoverIpKind | NodeKind | FailoverProbeKind | SecretKind

datatype event_filter =
  ResourceVersionChanged
| NodeChange
| LocalNodeMACChanged string

datatype event_map = Itself | NodeToFoips | ProbeToFoips | SecretToFoips | NodeToAllFoips

datatype watch = Watch watched_kind event_filter event_map

definition failoverip_watches :: "watch list" where
  "failoverip_watches =
     [Watch FailoverIpKind ResourceVersionChanged Itself,
      Watch NodeKind NodeChange NodeToFoips,
      Watch FailoverProbeKind ResourceVersionChanged ProbeToFoips,
      Watch SecretKind ResourceVersionChanged SecretToFoips]"

definition nodeinterface_watches :: "string \<Rightarrow> watch list" where
  "nodeinterface_watches nodeName =
     [Watch FailoverIpKind ResourceVersionChanged Itself,
      Watch NodeKind (LocalNodeMACChanged nodeName) NodeToAllFoips]"

section \<open>What an ignored update cannot change\<close>

text \<open>The node reports one of the three condition values for Ready.\<close>

definition reports_ready :: "node \<Rightarrow> bool" where
  "reports_ready n \<longleftrightarrow> conditionIs n NodeReady ConditionTrue \<or> conditionIs n NodeReady ConditionFalse
     \<or> conditionIs n NodeReady ConditionUnknown"

lemma conditionIs_unique: "conditionIs n t s \<Longrightarrow> conditionIs n t s' \<Longrightarrow> s = s'"
proof -
  have "condition_is cs t s \<Longrightarrow> condition_is cs t s' \<Longrightarrow> s = s'" for cs
    by (induction cs t s rule: condition_is.induct) (auto split: if_splits)
  then show "conditionIs n t s \<Longrightarrow> conditionIs n t s' \<Longrightarrow> s = s'"
    by (simp add: conditionIs_def)
qed

lemma ready_false_iff:
  "reports_ready n \<Longrightarrow> conditionIs n NodeReady ConditionFalse \<longleftrightarrow>
     \<not> conditionIs n NodeReady ConditionTrue \<and> \<not> conditionIs n NodeReady ConditionUnknown"
  unfolding reports_ready_def by (blast dest: conditionIs_unique)

text \<open>An update of the same node that the predicate drops.\<close>

definition ignored_update :: "node \<Rightarrow> node \<Rightarrow> bool" where
  "ignored_update old new \<longleftrightarrow> node_name new = node_name old
     \<and> \<not> nodeChangePredicate_Update (WatchedNode old) (WatchedNode new)"

lemma ignored_update_views:
  assumes "ignored_update old new" "reports_ready old" "reports_ready new"
  shows "scoreNode new = scoreNode old" "nodeAcceptable new = nodeAcceptable old"
    "map_get (node_annotations new) ServerIDAnnotation = map_get (node_annotations old) ServerIDAnnotation"
    "map_get (node_annotations new) MACAnnotation = map_get (node_annotations old) MACAnnotation"
proof -
  have same: "list_all (\<lambda>t. conditionIs old t ConditionTrue = conditionIs new t ConditionTrue
       \<and> conditionIs old t ConditionUnknown = conditionIs new t ConditionUnknown) nodeChange_conditions"
    and rest: "unschedulable old = unschedulable new"
    "map_get (node_annotations new) ServerIDAnnotation = map_get (node_annotations old) ServerIDAnnotation"
    "map_get (node_annotations new) MACAnnotation = map_get (node_annotations old) MACAnnotation"
    and name: "node_name new = node_name old"
    using assms(1)
    by (auto simp: ignored_update_def nodeChangePredicate_Update_def list_ex_iff list_all_iff
        split: if_splits)
  have ready: "conditionIs new NodeReady ConditionFalse = conditionIs old NodeReady ConditionFalse"
    using same by (simp add: ready_false_iff [OF assms(2)] ready_false_iff [OF assms(3)]
        nodeChange_conditions_def)
  show "scoreNode new = scoreNode old"
    using same rest name ready by (simp add: scoreNode_def nodeChange_conditions_def)
  show "nodeAcceptable new = nodeAcceptable old"
    using same rest by (simp add: nodeAcceptable_def nodeChange_conditions_def)
qed (use assms in \<open>auto simp: ignored_update_def nodeChangePredicate_Update_def split: if_splits\<close>)

text \<open>The selection reads a node only through its score.\<close>

lemma best_node_scores:
  "list_all2 (\<lambda>a b. scoreNode a = scoreNode b) xs ys \<Longrightarrow> scoreNode x = scoreNode y \<Longrightarrow>
     scoreNode (best_node x xs) = scoreNode (best_node y ys)"
  by (induction xs ys arbitrary: x y rule: list_all2_induct) auto

lemma same_name: "scoreNode a = scoreNode b \<Longrightarrow> node_name a = node_name b"
  by (simp add: scoreNode_def)

lemma find_scores:
  "list_all2 (\<lambda>a b. scoreNode a = scoreNode b) xs ys \<Longrightarrow>
     map_option scoreNode (find (\<lambda>n. node_name n = c) xs)
     = map_option scoreNode (find (\<lambda>n. node_name n = c) ys)"
  by (induction xs ys rule: list_all2_induct) (auto dest: same_name)

lemma betterNode_scores:
  assumes "list_all2 (\<lambda>a b. scoreNode a = scoreNode b) xs ys"
  shows "map_option scoreNode (betterNode xs c) = map_option scoreNode (betterNode ys c)"
  using assms
proof (cases xs ys rule: list.exhaust [case_product list.exhaust])
  case (Cons_Cons x xs' y ys')
  have best: "scoreNode (best_node x xs') = scoreNode (best_node y ys')"
    using assms best_node_scores Cons_Cons by auto
  have "map_option scoreNode (find (\<lambda>n. node_name n = c) xs)
      = map_option scoreNode (find (\<lambda>n. node_name n = c) ys)"
    by (rule find_scores) (rule assms)
  with best show ?thesis
    unfolding Cons_Cons betterNode_def
    by (cases "find (\<lambda>n. node_name n = c) (x # xs')"; cases "find (\<lambda>n. node_name n = c) (y # ys')")
      (simp_all add: Let_def del: find.simps)
qed (auto simp: betterNode_def)

lemma candidates_scores:
  assumes "ignored_update old new" "reports_ready old" "reports_ready new"
  shows "list_all2 (\<lambda>a b. scoreNode a = scoreNode b) (candidateNodes (xs @ old # ys))
     (candidateNodes (xs @ new # ys))"
proof -
  have refl: "list_all2 (\<lambda>a b. scoreNode a = scoreNode b) zs zs" for zs
    by (simp add: list_all2_refl)
  show ?thesis
    using ignored_update_views [OF assms]
    by (auto simp: candidateNodes_def refl intro!: list_all2_appendI)
qed

text \<open>
  A node update that the watch ignores cannot change the selection: whatever the other
  nodes, the node proposed for a hand-over is the same before and after, and so is whether the
  updated node is acceptable.  Both versions must report a Ready condition.
\<close>

theorem ignored_update_keeps_selection:
  assumes "ignored_update old new" "reports_ready old" "reports_ready new"
  shows "map_option node_name (betterNode (candidateNodes (xs @ new # ys)) current)
       = map_option node_name (betterNode (candidateNodes (xs @ old # ys)) current)
    \<and> nodeAcceptable new = nodeAcceptable old"
proof -
  have name: "map_option scoreNode m = map_option scoreNode m' \<Longrightarrow> map_option node_name m = map_option node_name m'"
    for m m' by (cases m; cases m') (auto dest: same_name)
  show ?thesis
    using name [OF betterNode_scores [OF candidates_scores [OF assms, of xs ys], of current]]
      ignored_update_views(2) [OF assms] by simp
qed

theorem ignored_update_keeps_selection_witness:
  "map_option node_name (betterNode (candidateNodes ([plain_node ''a'' ''11'' ConditionFalse]
       @ (plain_node ''b'' ''12'' ConditionTrue)\<lparr>node_addresses := []\<rparr> # [])) ''a'')
   = map_option node_name (betterNode (candidateNodes ([plain_node ''a'' ''11'' ConditionFalse]
       @ plain_node ''b'' ''12'' ConditionTrue # [])) ''a'')"
proof -
  let ?b = "plain_node ''b'' ''12'' ConditionTrue"
  have "ignored_update ?b (?b\<lparr>node_addresses := []\<rparr>)"
    by (simp add: ignored_update_def nodeChangePredicate_Update_def nodeChange_conditions_def
        conditionIs_def)
  moreover have "reports_ready ?b" "reports_ready (?b\<lparr>node_addresses := []\<rparr>)"
    by (simp_all add: reports_ready_def plain_node_def conditionIs_def)
  ultimately show ?thesis using ignored_update_keeps_selection by blast
qed

text \<open>
  The condition on Ready cannot be dropped.  A node that reports Ready for the first time,
  and reports it False, is now ranked as failed, but the update does not wake the controller.
\<close>

theorem first_unready_report_is_ignored:
  "ignored_update (plain_node ''b'' ''12'' st\<lparr>node_conditions := []\<rparr>)
     (plain_node ''b'' ''12'' ConditionFalse)
   \<and> worseThan (scoreNode (plain_node ''b'' ''12'' ConditionFalse))
        (scoreNode (plain_node ''b'' ''12'' st\<lparr>node_conditions := []\<rparr>))"
  by (simp add: ignored_update_def nodeChangePredicate_Update_def nodeChange_conditions_def
      plain_node_def map_get_def conditionIs_def scoreNode_def worseThan_def)

text \<open>
  A changed secret wakes exactly the failover IPs that use it, for the provider or through
  one of their probes, in the order of namespace and name.
\<close>

theorem secret_change_requests:
  "sorted (secretToFoips s (Inr foips) (Inr probes))
   \<and> set (secretToFoips s (Inr foips) (Inr probes)) =
       {request_of foip | foip. foip \<in> set foips
          \<and> (secret_name (foip_spec foip) = s
             \<or> (\<exists>p ref. p \<in> set probes \<and> uses_secret s p \<and> ref \<in> set (spec_probes (foip_spec foip))
                  \<and> ref = probe_name p))}"
  by (auto simp: secretToFoips_def Let_def list_ex_iff)

end
