(* ===== verification/Entry_Points.thy ===== *)
theory Entry_Points
  imports Telemetry Watches Flags
begin

text \<open>
  The two binaries of the operator (\<open>cmd/foip/main.go\<close>, \<open>cmd/node-interface/main.go\<close>): their
  flags, the order in which they bring up telemetry, manager, controller and health checks, and
  what they register with the manager.  The manager of controller-runtime and the flags of its
  logger are parameters.
\<close>

section \<open>Bringing a process up\<close>

record manager_options =
  metrics_bind_address :: string
  secure_serving :: bool
  health_probe_bind_address :: string
  leader_election :: bool
  leader_election_id :: string
  default_namespaces :: "string list"

text \<open>What a process does until it serves, and the flush of the telemetry at its end.\<close>

datatype boot_call =
  SetupTelemetry telemetry_config
| LoadConfig
| NewManager manager_options
| AddController string "watch list"
| AddHealthzCheck string
| AddReadyzCheck string
| StartManager
| ShutdownTelemetry

text \<open>
  The statements of a \<open>main\<close>: to return, \<open>os.Exit\<close>, \<open>defer\<close>, and a call with what follows an error
  and what follows otherwise.
\<close>

datatype boot_prog =
  Return
| Exit nat
| Defer boot_call boot_prog
| Try boot_call boot_prog boot_prog

text \<open>
  The calls made and the exit code, as Go runs the statements: a return runs what was deferred,
  the last first, and \<open>os.Exit\<close> does not.
\<close>

fun boot :: "(boot_call \<Rightarrow> bool) \<Rightarrow> boot_call list \<Rightarrow> boot_prog \<Rightarrow> boot_call list \<times> nat" where
  "boot fails deferred Return = (deferred, 0)"
| "boot fails deferred (Exit n) = ([], n)"
| "boot fails deferred (Defer c p) = boot fails (c # deferred) p"
| "boot fails deferred (Try c onError p) =
     (case boot fails deferred (if fails c then onError else p) of (calls, exit) \<Rightarrow> (c # calls, exit))"

definition run_main ::
  "(string \<rightharpoonup> flag_kind) \<Rightarrow> (flag_values \<Rightarrow> boot_prog) \<Rightarrow> (boot_call \<Rightarrow> bool) \<Rightarrow> string list
     \<Rightarrow> boot_call list \<times> nat" where
  "run_main known program fails args =
     (case parse_flags known Map.empty args of
        Inl exit \<Rightarrow> ([], exit)
      | Inr vals \<Rightarrow> boot fails [] (program vals))"

section \<open>The failover controller\<close>

definition foip_flags :: "(string \<rightharpoonup> flag_kind) \<Rightarrow> (string \<rightharpoonup> flag_kind)" where
  "foip_flags others = others(''metrics-bind-address'' \<mapsto> TextFlag,
     ''health-probe-bind-address'' \<mapsto> TextFlag, ''leader-elect'' \<mapsto> BoolFlag)"

definition foip_options :: "environ \<Rightarrow> flag_values \<Rightarrow> manager_options" where
  "foip_options env vals =
     (let watchNamespace = env ''WATCH_NAMESPACE'' in
      \<lparr> metrics_bind_address = text_flag vals ''metrics-bind-address'' ''0'',
        secure_serving = True,
        health_probe_bind_address = text_flag vals ''health-probe-bind-address'' '':8081'',
        leader_election = bool_flag vals ''leader-elect'' True,
        leader_election_id = ''controller.foip.noshoes.xyz'',
        default_namespaces = (if watchNamespace \<noteq> [] then [watchNamespace] else []) \<rparr>)"

definition foip_program :: "environ \<Rightarrow> flag_values \<Rightarrow> boot_prog" where
  "foip_program env vals =
     Try (SetupTelemetry \<lparr> config_service_name = ''foip-operator-foip'', config_component = ''foip'' \<rparr>)
       (Exit 1)
     (Defer ShutdownTelemetry
     (Try LoadConfig
       (Exit 1)
     (Try (NewManager (foip_options env vals))
       (Exit 1)
     (Try (AddController ''failoverip'' failoverip_watches)
       (Exit 1)
     (Try (AddHealthzCheck ''healthz'')
       (Exit 1)
     (Try (AddReadyzCheck ''readyz'')
       (Exit 1)
     (Try StartManager
       (Exit 1)
     Return)))))))"

definition foip_main ::
  "(string \<rightharpoonup> flag_kind) \<Rightarrow> (boot_call \<Rightarrow> bool) \<Rightarrow> environ \<Rightarrow> string list \<Rightarrow> boot_call list \<times> nat" where
  "foip_main others fails env args = run_main (foip_flags others) (foip_program env) fails args"

section \<open>The node agent\<close>

definition agent_flags :: "(string \<rightharpoonup> flag_kind) \<Rightarrow> (string \<rightharpoonup> flag_kind)" where
  "agent_flags others = others(''metrics-bind-address'' \<mapsto> TextFlag,
     ''health-probe-bind-address'' \<mapsto> TextFlag)"

definition agent_options :: "flag_values \<Rightarrow> manager_options" where
  "agent_options vals =
     \<lparr> metrics_bind_address = text_flag vals ''metrics-bind-address'' ''0'',
       secure_serving = True,
       health_probe_bind_address = text_flag vals ''health-probe-bind-address'' '':8082'',
       leader_election = False,
       leader_election_id = [],
       default_namespaces = [] \<rparr>"

definition agent_program :: "environ \<Rightarrow> flag_values \<Rightarrow> boot_prog" where
  "agent_program env vals =
     Try (SetupTelemetry \<lparr> config_service_name = ''foip-operator-node-interface'',
                           config_component = ''node-interface'' \<rparr>)
       (Exit 1)
     (Defer ShutdownTelemetry
     (let nodeName = env ''NODE_NAME'' in
      if nodeName = [] then Exit 1
      else
     (Try LoadConfig
       (Exit 1)
     (Try (NewManager (agent_options vals))
       (Exit 1)
     (Try (AddController ''nodeinterface'' (nodeinterface_watches nodeName))
       (Exit 1)
     (Try (AddHealthzCheck ''healthz'')
       (Exit 1)
     (Try (AddReadyzCheck ''readyz'')
       (Exit 1)
     (Try StartManager
       (Exit 1)
     Return))))))))"

definition agent_main ::
  "(string \<rightharpoonup> flag_kind) \<Rightarrow> (boot_call \<Rightarrow> bool) \<Rightarrow> environ \<Rightarrow> string list \<Rightarrow> boot_call list \<times> nat" where
  "agent_main others fails env args = run_main (agent_flags others) (agent_program env) fails args"

section \<open>What the two processes promise\<close>

text \<open>What the end of a process promises, given its calls and its exit code.\<close>

definition ends_well :: "(boot_call \<Rightarrow> bool) \<Rightarrow> boot_call list \<times> nat \<Rightarrow> bool" where
  "ends_well fails r \<longleftrightarrow>
     (snd r = 0 \<and> StartManager \<in> set (fst r) \<and> last (fst r) = ShutdownTelemetry
        \<and> (\<forall>c \<in> set (butlast (fst r)). \<not> fails c \<and> c \<noteq> ShutdownTelemetry))
     \<or> (snd r = 1 \<and> ShutdownTelemetry \<notin> set (fst r) \<and> \<not> (StartManager \<in> set (fst r) \<and> \<not> fails StartManager))"

text \<open>
  C37: Once their flags are read, both processes end in one of two ways.  Either every call has
  succeeded, that of the manager included, then the traces are flushed as the last call and the
  exit code is 0; or something failed, then the exit code is 1 and the buffered traces are not
  flushed, since every error path ends in \<open>os.Exit\<close>, which skips the deferred shutdown.  A manager
  that ends with an error always means the latter.
\<close>

theorem telemetry_is_flushed_only_on_success:
  assumes "parse_flags (foip_flags others) Map.empty args = Inr vals"
    and "parse_flags (agent_flags others) Map.empty args' = Inr vals'"
  shows "ends_well fails (foip_main others fails env args)
    \<and> ends_well fails (agent_main others fails env args')
    \<and> (fails StartManager \<longrightarrow> snd (foip_main others fails env args) = 1
         \<and> snd (agent_main others fails env args') = 1)"
proof -
  have "ends_well fails (boot fails [] (foip_program env vals))"
    by (simp add: ends_well_def foip_program_def)
  moreover have "ends_well fails (boot fails [] (agent_program env vals'))"
    by (simp add: ends_well_def agent_program_def Let_def)
  moreover have "snd r = 1" if "ends_well fails r" "fails StartManager" for r
    using that by (cases "fst r" rule: rev_cases) (auto simp: ends_well_def)
  ultimately show ?thesis
    by (simp add: foip_main_def agent_main_def run_main_def assms)
qed

lemma run_main_runs:
  assumes "c \<in> set (fst (run_main known program fails args))"
  obtains vals where "parse_flags known Map.empty args = Inr vals"
    "run_main known program fails args = boot fails [] (program vals)"
  using assms by (auto simp: run_main_def split: sum.splits)

text \<open>
  The failover controller runs without leader election only if its command line says so: some
  argument sets the flag to a false value.  By default, and for every other command line, at most
  one replica acts at a time.
\<close>

theorem leader_election_is_only_disabled_explicitly:
  assumes "NewManager opts \<in> set (fst (foip_main others fails env args))" "\<not> leader_election opts"
  shows "\<exists>a \<in> set args. \<exists>v. flag_name a = Some (''leader-elect='' @ v) \<and> parse_bool v = Some False"
proof -
  obtain vals where vals: "parse_flags (foip_flags others) Map.empty args = Inr vals"
    and "NewManager opts \<in> set (fst (boot fails [] (foip_program env vals)))"
    using run_main_runs assms(1) unfolding foip_main_def by metis
  then have "opts = foip_options env vals"
    by (auto simp: foip_program_def split: if_splits)
  then have "\<not> bool_flag vals ''leader-elect'' True"
    using assms(2) by (simp add: foip_options_def Let_def)
  then obtain v where v: "vals ''leader-elect'' = Some v" "parse_bool v = Some False"
    by (auto simp: bool_flag_def split: option.splits)
  moreover have "v \<noteq> ''true''" using v(2) by (auto simp: parse_bool_def)
  moreover have "foip_flags others ''leader-elect'' = Some BoolFlag" by (simp add: foip_flags_def)
  ultimately have "\<exists>a \<in> set args. flag_name a = Some (''leader-elect'' @ ''='' @ v)"
    using parse_flags_bool [OF vals, of "''leader-elect''"] by auto
  with v(2) show ?thesis by (metis append_Cons append_Nil)
qed

theorem leader_election_is_only_disabled_explicitly_witness:
  "\<exists>a \<in> set [''--leader-elect=f'']. \<exists>v. flag_name a = Some (''leader-elect='' @ v)
     \<and> parse_bool v = Some False"
proof (rule leader_election_is_only_disabled_explicitly)
  let ?vals = "[''leader-elect'' \<mapsto> ''f'']"
  show "NewManager (foip_options (\<lambda>k. []) ?vals)
      \<in> set (fst (foip_main Map.empty (\<lambda>c. False) (\<lambda>k. []) [''--leader-elect=f'']))"
    by (simp add: foip_main_def run_main_def flag_name_def cut_def foip_flags_def parse_bool_def
        foip_program_def)
  show "\<not> leader_election (foip_options (\<lambda>k. []) ?vals)"
    by (simp add: foip_options_def bool_flag_def parse_bool_def Let_def)
qed

text \<open>
  A node agent that serves knows its node: NODE_NAME was set, every call before the start has
  succeeded, and the watches it registered follow the MAC annotation of exactly that node.
\<close>

theorem serving_agent_knows_its_node:
  assumes "StartManager \<in> set (fst (agent_main others fails env args))"
  shows "env ''NODE_NAME'' \<noteq> []
    \<and> AddController ''nodeinterface'' (nodeinterface_watches (env ''NODE_NAME''))
         \<in> set (fst (agent_main others fails env args))
    \<and> (\<forall>c \<in> set (takeWhile (\<lambda>c. c \<noteq> StartManager) (fst (agent_main others fails env args))). \<not> fails c)"
proof -
  obtain vals where "agent_main others fails env args = boot fails [] (agent_program env vals)"
    using run_main_runs assms unfolding agent_main_def by metis
  with assms show ?thesis by (simp add: agent_program_def Let_def split: if_splits)
qed

definition node_env :: "string \<Rightarrow> environ" where
  "node_env name k = (if k = ''NODE_NAME'' then name else [])"

theorem serving_agent_knows_its_node_witness:
  "StartManager \<in> set (fst (agent_main Map.empty (\<lambda>c. False) (node_env ''n1'') []))
   \<and> node_env ''n1'' ''NODE_NAME'' \<noteq> []"
proof -
  have "StartManager \<in> set (fst (agent_main Map.empty (\<lambda>c. False) (node_env ''n1'') []))"
    by (simp add: agent_main_def run_main_def agent_program_def node_env_def Let_def)
  with serving_agent_knows_its_node [OF this] show ?thesis by blast
qed

section \<open>An endpoint that keeps the operator from starting\<close>

text \<open>The set-up of telemetry fails exactly if \<open>Setup\<close> returns an error.\<close>

definition telemetry_fails ::
  "(string \<Rightarrow> bool \<Rightarrow> go_error + 'exporter) \<Rightarrow> environ \<Rightarrow> string option \<Rightarrow> boot_call \<Rightarrow> bool" where
  "telemetry_fails new env hostname c =
     (case c of
        SetupTelemetry cfg \<Rightarrow>
          isl (fst (Setup (\<lambda>attrs. Inr attrs) new env hostname cfg
                \<lparr> text_map_propagators = [], global_provider = None \<rparr>))
      | _ \<Rightarrow> False)"

text \<open>
  C36: With a trace endpoint given as host name and port, without a scheme, neither binary
  starts: the host name is taken for the scheme of a URL, the set-up of telemetry fails with
  "unsupported OTLP endpoint scheme", and both exit with code 1 before they make a manager.
\<close>

theorem endpoint_without_scheme_stops_the_operator:
  assumes "raw_endpoint env = h @ CHR '':'' # port" "host_name h" "list_all is_digit port"
    and "lower h \<notin> {''http'', ''https''}"
    and "parse_flags (foip_flags others) Map.empty args = Inr vals"
    and "parse_flags (agent_flags others) Map.empty args' = Inr vals'"
  shows "foip_main others (telemetry_fails new env hostname) env args
      = ([SetupTelemetry \<lparr> config_service_name = ''foip-operator-foip'', config_component = ''foip'' \<rparr>], 1)
    \<and> agent_main others (telemetry_fails new env hostname) env args'
      = ([SetupTelemetry \<lparr> config_service_name = ''foip-operator-node-interface'',
                           config_component = ''node-interface'' \<rparr>], 1)"
proof -
  have "telemetry_fails new env hostname (SetupTelemetry cfg)" for cfg
    by (simp add: telemetry_fails_def endpoint_without_scheme_is_rejected [OF assms(1-4)])
  then show ?thesis
    by (simp add: foip_main_def agent_main_def run_main_def assms(5,6) foip_program_def
        agent_program_def Let_def)
qed

theorem endpoint_without_scheme_stops_the_operator_witness:
  "snd (foip_main Map.empty
      (telemetry_fails (\<lambda>endpoint insecure. Inr (endpoint, insecure))
         (exporter_env ''otel-collector:4317'') None)
      (exporter_env ''otel-collector:4317'') []) = 1"
proof -
  have "list_all visible ''otel-collector:4317''" "host_name ''otel-collector''"
    "list_all is_digit ''4317''" "lower ''otel-collector'' \<notin> {''http'', ''https''}"
    by (simp_all add: visible_def code_def host_name_def is_letter_def is_digit_code lower_def byte_def)
  then show ?thesis
    using endpoint_without_scheme_stops_the_operator
      [of "exporter_env ''otel-collector:4317''" "''otel-collector''" "''4317''" Map.empty "[]"
        Map.empty "[]" Map.empty "\<lambda>endpoint insecure. Inr (endpoint, insecure)" None]
    by (simp add: raw_endpoint_env)
qed

theorem telemetry_is_flushed_only_on_success_witness:
  "snd (foip_main Map.empty (\<lambda>c. c = StartManager) (\<lambda>k. []) []) = 1
   \<and> StartManager \<in> set (fst (foip_main Map.empty (\<lambda>c. c = StartManager) (\<lambda>k. []) []))
   \<and> ends_well (\<lambda>c. c = StartManager) (foip_main Map.empty (\<lambda>c. c = StartManager) (\<lambda>k. []) [])
   \<and> snd (foip_main Map.empty (\<lambda>c. False) (\<lambda>k. []) []) = 0"
  using telemetry_is_flushed_only_on_success [of Map.empty "[]" Map.empty "[]" Map.empty
      "\<lambda>c. c = StartManager" "\<lambda>k. []"]
  by (simp add: foip_main_def run_main_def foip_program_def)

end
