(* ===== verification/Controller_Safety.thy ===== *)
theory Controller_Safety
  imports Failover_Controller
begin

text \<open>
  Safety of \<open>Reconcile\<close> against every environment: what each status write and each route
  mutation of the provider is preceded by.  The evidence predicates speak only of completed
  calls and their answers; one weakest-precondition lemma per stretch of the method carries
  them to the call sites.
\<close>

section \<open>Evidence\<close>

text \<open>The calls that change nothing the operator is responsible for.\<close>

fun harmless :: "event \<Rightarrow> bool" where
  "harmless (EvPatchStatus b f r) = False"
| "harmless (EvUpdateStatus f r) = False"
| "harmless (EvRouteFailoverIP i s r) = False"
| "harmless _ = True"

definition quiet :: "(event set \<Rightarrow> event \<Rightarrow> bool) \<Rightarrow> bool" where
  "quiet P \<longleftrightarrow> (\<forall>H e. harmless e \<longrightarrow> P H e)"

lemma quietD [simp]: "quiet P \<Longrightarrow> harmless e \<Longrightarrow> P H e"
  by (simp add: quiet_def)

text \<open>What became of one referenced probe: it does not take part in the phase, or it ran.\<close>

definition executed :: "event set \<Rightarrow> failover_probe_spec \<Rightarrow> probe_result \<Rightarrow> bool" where
  "executed H spec raw \<longleftrightarrow>
     (\<exists>resolved. resolved_from spec resolved
        \<and> (if probe_kind spec = ProbeTypeKubernetes
           then EvExecuteKubernetes (kubernetes spec) raw \<in> H
           else \<exists>cred ca. EvExecuteProbe resolved cred ca raw \<in> H))"

lemma resolved_kept:
  "resolved_from spec resolved \<Longrightarrow> probe_kind resolved = probe_kind spec
     \<and> kubernetes resolved = kubernetes spec \<and> network_policy resolved = network_policy spec"
  by (auto simp: resolved_from_def dest: arg_cong [of _ _ probe_kind] arg_cong [of _ _ kubernetes]
      arg_cong [of _ _ network_policy])

lemma executedI:
  "EvExecuteProbe resolved cred ca raw \<in> H \<Longrightarrow> resolved_from spec resolved \<Longrightarrow>
     probe_kind resolved \<noteq> ProbeTypeKubernetes \<Longrightarrow> executed H spec raw"
  "EvExecuteKubernetes (kubernetes resolved) raw \<in> H \<Longrightarrow> resolved_from spec resolved \<Longrightarrow>
     probe_kind resolved = ProbeTypeKubernetes \<Longrightarrow> executed H spec raw"
  using resolved_kept [of spec resolved] by (auto simp: executed_def)

lemma executed_mono: "executed H spec raw \<Longrightarrow> H \<subseteq> H' \<Longrightarrow> executed H' spec raw"
  by (auto simp: executed_def split: if_splits)

definition takes_part :: "failover_probe \<Rightarrow> probe_phase \<Rightarrow> bool" where
  "takes_part p ph \<longleftrightarrow>
     probe_spec_phase (probe_spec p) = ph \<or> probe_spec_phase (probe_spec p) = ProbePhaseContinuous"

text \<open>
  What an execution counts for: a success from the success threshold on, a failure as long as the
  probe was last seen to work and the failure threshold is not reached.
\<close>

definition counts_as_success :: "failover_probe \<Rightarrow> bool \<Rightarrow> bool" where
  "counts_as_success p ok \<longleftrightarrow>
     (if ok then
        max 1 (success_threshold (probe_spec p))
          \<le> wrap32 (obs_consecutive_successes (last_observation p) + 1)
      else
        obs_success (last_observation p)
        \<and> wrap32 (obs_consecutive_failures (last_observation p) + 1)
            < max 1 (probe_failure_threshold (probe_spec p)))"

lemma thresholds_count:
  "result_success (fst (applyProbeThresholds (probe_spec p) (probe_status p) (probe_name p) raw))
     \<longleftrightarrow> counts_as_success p (result_success raw)"
  by (auto simp: applyProbeThresholds_def counts_as_success_def last_observation_def Let_def
      max.commute)

inductive probe_outcome ::
  "event set \<Rightarrow> failover_ip \<Rightarrow> probe_phase \<Rightarrow> string \<Rightarrow> (failover_probe_spec \<times> bool) option \<Rightarrow> bool"
  for H :: "event set" and foip :: failover_ip and ph :: probe_phase
where
  skipped: "EvGetProbe (foip_namespace foip) ref (Inr p) \<in> H \<Longrightarrow> \<not> takes_part p ph \<Longrightarrow>
     probe_outcome H foip ph ref None"
| ran: "EvGetProbe (foip_namespace foip) ref (Inr p) \<in> H \<Longrightarrow> takes_part p ph \<Longrightarrow>
     executed H (probe_spec p) raw \<Longrightarrow>
     probe_outcome H foip ph ref (Some (probe_spec p, counts_as_success p (result_success raw)))"

lemma probe_outcome_mono: "probe_outcome H foip ph ref x \<Longrightarrow> H \<subseteq> H' \<Longrightarrow> probe_outcome H' foip ph ref x"
  by (induction rule: probe_outcome.induct) (blast intro: probe_outcome.intros executed_mono)+

definition outcomes_of ::
  "event set \<Rightarrow> failover_ip \<Rightarrow> probe_phase \<Rightarrow> string list
     \<Rightarrow> (failover_probe_spec \<times> bool) option list \<Rightarrow> bool" where
  "outcomes_of H foip ph refs outs \<longleftrightarrow> list_all2 (probe_outcome H foip ph) refs outs"

fun reported :: "'a option list \<Rightarrow> 'a list" where
  "reported [] = []"
| "reported (None # xs) = reported xs"
| "reported (Some x # xs) = x # reported xs"

text \<open>
  The composition in force: the one of the failover IP; if it names none, the one its probes that
  take part agree on; and All if they name none either.
\<close>

definition in_force ::
  "failover_ip_spec \<Rightarrow> failover_probe_spec list \<Rightarrow> probe_composition \<Rightarrow> int \<Rightarrow> bool" where
  "in_force spec probes pc quo \<longleftrightarrow>
     (if spec_probe_composition spec \<noteq> ProbeCompositionEmpty then
        pc = spec_probe_composition spec \<and> quo = spec_probe_quorum spec
      else
        (\<forall>s \<in> set probes. composition s \<noteq> ProbeCompositionEmpty \<longrightarrow> pc = composition s \<and> quo = quorum s)
        \<and> ((\<forall>s \<in> set probes. composition s = ProbeCompositionEmpty) \<longrightarrow> pc = ProbeCompositionAll))"

text \<open>When a composition is satisfied.\<close>

definition composed :: "probe_composition \<Rightarrow> int \<Rightarrow> bool list \<Rightarrow> bool" where
  "composed pc quo oks \<longleftrightarrow>
     (case pc of
        ProbeCompositionEmpty \<Rightarrow> False \<notin> set oks
      | ProbeCompositionAll \<Rightarrow> False \<notin> set oks
      | ProbeCompositionAny \<Rightarrow> True \<in> set oks
      | ProbeCompositionQuorum \<Rightarrow> quo \<le> int (length (filter (\<lambda>ok. ok) oks))
      | ProbeCompositionOther s \<Rightarrow> False)"

lemma Aggregate_composed:
  "result_success (Aggregate pc quo rs) \<longleftrightarrow> rs \<noteq> [] \<and> composed pc quo (map result_success rs)"
  by (auto simp: Aggregate_iff composed_def list_all_iff list_ex_iff filter_map comp_def
      split: probe_composition.split)

text \<open>
  The gate of a phase was passed: every referenced probe was read, those that take part were
  executed, and either there is none or what their executions count for satisfies the composition
  in force.
\<close>

definition gate_passed :: "event set \<Rightarrow> failover_ip \<Rightarrow> probe_phase \<Rightarrow> bool" where
  "gate_passed H foip ph \<longleftrightarrow>
     (\<exists>outs pc quo. outcomes_of H foip ph (sort (spec_probes (foip_spec foip))) outs
        \<and> in_force (foip_spec foip) (map fst (reported outs)) pc quo
        \<and> (reported outs = [] \<or> composed pc quo (map snd (reported outs))))"

lemma gate_passed_mono: "gate_passed H foip ph \<Longrightarrow> H \<subseteq> H' \<Longrightarrow> gate_passed H' foip ph"
  unfolding gate_passed_def outcomes_of_def
  by (blast intro: list_all2_mono probe_outcome_mono)

section \<open>Events and probe gates\<close>

text \<open>
  Continuation rules: the completed calls only grow, so a fact about any larger set of calls
  discharges the continuation of a helper.
\<close>

lemmas grow = subset_insertI2 order_refl

lemma wp_emitEvent:
  assumes "quiet P" and "\<And>H'. H \<subseteq> H' \<Longrightarrow> wp P Q H' k"
  shows "wp P Q H (emitEvent foip ty rs m k)"
  by (simp add: emitEvent_def eventAllowed_def Let_def assms grow split: prod.split option.split)

lemma wp_patch_or_fail [simp]:
  "wp P Q H (patch_or_fail b f k) \<longleftrightarrow>
     (\<forall>r. P H (EvPatchStatus b f r)
        \<and> (case r of Inl e \<Rightarrow> Q (insert (EvPatchStatus b f r) H) (failed e)
           | Inr f' \<Rightarrow> wp P Q (insert (EvPatchStatus b f r) H) (k f')))"
  by (auto simp: patch_or_fail_def split: sum.splits)

lemma wp_resolveProbeSpec:
  assumes "quiet P" and "\<And>H' e. H \<subseteq> H' \<Longrightarrow> wp P Q H' (k (Inl e))"
    and "\<And>H' resolved. H \<subseteq> H' \<Longrightarrow> resolved_from spec resolved \<Longrightarrow> wp P Q H' (k (Inr resolved))"
  shows "wp P Q H (resolveProbeSpec foip spec k)"
  by (rule wp_resolve) (simp_all add: assms)

lemma wp_load_ca_bundle:
  assumes "quiet P" and "\<And>H' r. H \<subseteq> H' \<Longrightarrow> wp P Q H' (k r)"
  shows "wp P Q H (load_ca_bundle ns spec k)"
  by (simp add: load_ca_bundle_def Let_def assms grow split: sum.split option.split)

lemma wp_execute_resolved:
  assumes "quiet P" and "\<And>H' e. H \<subseteq> H' \<Longrightarrow> wp P Q H' (k (Inl e))"
    and "\<And>H' raw. H \<subseteq> H' \<Longrightarrow> executed H' spec raw \<Longrightarrow> wp P Q H' (k (Inr raw))"
    and "resolved_from spec resolved"
  shows "wp P Q H (execute_resolved ns resolved ca k)"
  by (simp add: execute_resolved_def Let_def assms grow executedI [OF insertI1 assms(4)]
      split: sum.split option.split)

lemma wp_persistProbeObservation:
  assumes "quiet P" and "\<And>H' e. H \<subseteq> H' \<Longrightarrow> wp P Q H' (k e)"
  shows "wp P Q H (persistProbeObservation resource result s f k)"
  by (simp add: persistProbeObservation_def assms grow)

lemma wp_judge_probe:
  assumes quiet: "quiet P" and err: "\<And>H' e. H \<subseteq> H' \<Longrightarrow> wp P Q H' (k (Inl e))"
    and ok: "\<And>H' result. H \<subseteq> H' \<Longrightarrow>
      probe_outcome H' foip ph ref (Some (probe_spec resource, result_success result)) \<Longrightarrow>
      wp P Q H' (k (Inr result))"
    and probe: "EvGetProbe (foip_namespace foip) ref (Inr resource) \<in> H" "takes_part resource ph"
    and resolved: "resolved_from (probe_spec resource) resolved"
  shows "wp P Q H (judge_probe w foip resource resolved k)"
proof -
  have judged: "wp P Q H' (case applyProbeThresholds (probe_spec resource) (probe_status resource)
        (probe_name resource) raw of
      (result, successCount, failureCount) \<Rightarrow>
        if w then persistProbeObservation resource result successCount failureCount
               (\<lambda>pe. case pe of Some e \<Rightarrow> k (Inl e) | None \<Rightarrow> k (Inr result))
        else k (Inr result))"
    if sub: "H \<subseteq> H'" and raw: "executed H' (probe_spec resource) raw" for H' raw
  proof -
    obtain result sc fc where res: "applyProbeThresholds (probe_spec resource)
        (probe_status resource) (probe_name resource) raw = (result, sc, fc)"
      by (cases "applyProbeThresholds (probe_spec resource) (probe_status resource)
        (probe_name resource) raw") auto
    have "EvGetProbe (foip_namespace foip) ref (Inr resource) \<in> H'" using probe(1) sub by blast
    from probe_outcome.ran [OF this probe(2) raw]
    have out: "probe_outcome H' foip ph ref (Some (probe_spec resource, result_success result))"
      using thresholds_count [of resource raw] by (simp add: res)
    have "wp P Q H'' (k (Inr result))" "wp P Q H'' (k (Inl e))" if "H' \<subseteq> H''" for H'' e
      using subset_trans [OF sub that] out that by (auto intro: ok err probe_outcome_mono)
    then show ?thesis by (auto simp: res intro!: wp_persistProbeObservation quiet split: option.split)
  qed
  have "wp P Q H' (execute_resolved (foip_namespace foip) resolved ca (\<lambda>x. case x of
           Inl e \<Rightarrow> k (Inl e)
         | Inr raw \<Rightarrow>
             (case applyProbeThresholds (probe_spec resource) (probe_status resource)
                     (probe_name resource) raw of
                (result, successCount, failureCount) \<Rightarrow>
                  if w then persistProbeObservation resource result successCount failureCount
                      (\<lambda>pe. case pe of Some e \<Rightarrow> k (Inl e) | None \<Rightarrow> k (Inr result))
                  else k (Inr result))))" if "H \<subseteq> H'" for H' ca
    using that by (intro wp_execute_resolved [OF quiet _ _ resolved]) (simp_all add: err judged)
  then show ?thesis
    unfolding judge_probe_def
    by (intro wp_load_ca_bundle quiet) (simp split: sum.split add: err)
qed

lemma reported_append [simp]: "reported (xs @ ys) = reported xs @ reported ys"
  by (induction xs rule: reported.induct) auto

text \<open>
  What the loop knows after the specifications \<open>before\<close> have taken part: \<open>rcomp\<close> and \<open>rquo\<close> are
  the composition in force once one of them has named it.
\<close>

definition composing :: "failover_ip_spec \<Rightarrow> failover_probe_spec list \<Rightarrow> probe_composition \<Rightarrow> int
    \<Rightarrow> probe_composition \<Rightarrow> int \<Rightarrow> bool" where
  "composing spec before pc quo rcomp rquo \<longleftrightarrow> in_force spec before pc quo
     \<and> (spec_probe_composition spec = ProbeCompositionEmpty \<longrightarrow>
          (if \<forall>s \<in> set before. composition s = ProbeCompositionEmpty
           then rcomp = ProbeCompositionEmpty else rcomp = pc \<and> rquo = quo \<and> pc \<noteq> ProbeCompositionEmpty))"

lemma composing_step:
  assumes "composing fs before pc quo rcomp rquo"
    and "inherits = (spec_probe_composition fs = ProbeCompositionEmpty
      \<and> composition spec \<noteq> ProbeCompositionEmpty)"
    and "\<not> (inherits \<and> rcomp \<noteq> ProbeCompositionEmpty \<and> (rcomp \<noteq> composition spec \<or> rquo \<noteq> quorum spec))"
  shows "composing fs (before @ [spec]) (if inherits then composition spec else pc)
    (if inherits then quorum spec else quo) (if inherits then composition spec else rcomp)
    (if inherits then quorum spec else rquo)"
  using assms by (auto simp: composing_def in_force_def split: if_splits)

text \<open>
  Every way through the loop over the references either fails the gate with an error or has
  read every reference and executed those that take part, with results that satisfy
  \<open>finish_gate\<close> for the composition in force.
\<close>

lemma wp_evaluate_refs:
  assumes quiet: "quiet P"
    and err: "\<And>H' e. H \<subseteq> H' \<Longrightarrow> wp P Q H' (k (Some e))"
    and ok: "\<And>H' outs pc' quo' results'. H \<subseteq> H' \<Longrightarrow> outcomes_of H' foip ph refs outs \<Longrightarrow>
       in_force (foip_spec foip) (map fst (before @ reported outs)) pc' quo' \<Longrightarrow>
       map result_success results' = map snd (before @ reported outs) \<Longrightarrow>
       finish_gate ph pc' quo' results' = None \<Longrightarrow> wp P Q H' (k None)"
    and composing: "composing (foip_spec foip) (map fst before) pc quo rcomp rquo"
    and results: "map result_success results = map snd before"
  shows "wp P Q H (evaluate_refs w foip ph refs pc quo rcomp rquo results k)"
  using err ok composing results
proof (induction refs arbitrary: H pc quo rcomp rquo results before)
  case Nil
  then show ?case
    by (cases "finish_gate ph pc quo results") (auto simp: outcomes_of_def composing_def)
next
  case (Cons ref refs)
  have continue: "wp P Q H' (evaluate_refs w foip ph refs pc' quo' rcomp' rquo' results' k)"
    if sub: "H \<subseteq> H'" and x: "probe_outcome H' foip ph ref x"
      and c: "composing (foip_spec foip) (map fst (before @ reported [x])) pc' quo' rcomp' rquo'"
      and r: "map result_success results' = map snd (before @ reported [x])"
    for H' x pc' quo' rcomp' rquo' results'
  proof (rule Cons.IH [OF _ _ c r])
    show "wp P Q H'' (k (Some e))" if "H' \<subseteq> H''" for H'' e
      using that sub by (intro Cons.prems(1)) simp
    show "wp P Q H'' (k None)"
      if "H' \<subseteq> H''" "outcomes_of H'' foip ph refs outs"
        "in_force (foip_spec foip) (map fst ((before @ reported [x]) @ reported outs)) pc'' quo''"
        "map result_success results'' = map snd ((before @ reported [x]) @ reported outs)"
        "finish_gate ph pc'' quo'' results'' = None"
      for H'' outs pc'' quo'' results''
    proof (rule Cons.prems(2) [of H'' "x # outs"])
      show "outcomes_of H'' foip ph (ref # refs) (x # outs)"
        using that x by (auto simp: outcomes_of_def intro: probe_outcome_mono)
      show "in_force (foip_spec foip) (map fst (before @ reported (x # outs))) pc'' quo''"
        "map result_success results'' = map snd (before @ reported (x # outs))"
        using that(3,4) by (cases x; simp)+
    qed (use that sub in auto)
  qed
  have other: "wp P Q H' (k (Some e))" if "H \<subseteq> H'" for H' e
    using that by (rule Cons.prems(1))
  show ?case
  proof (simp only: evaluate_refs.simps wp.simps, intro allI conjI, goal_cases)
    case (1 g)
    then show ?case using quiet by simp
  next
    case (2 g)
    let ?H = "insert (EvGetProbe (foip_namespace foip) ref g) H"
    have sub: "H \<subseteq> H'" if "?H \<subseteq> H'" for H' using that by blast
    show ?case
    proof (cases g)
      case (Inl e)
      then show ?thesis by (simp add: other grow)
    next
      case (Inr resource)
      have seen: "EvGetProbe (foip_namespace foip) ref (Inr resource) \<in> H'" if "?H \<subseteq> H'" for H'
        using that Inr by blast
      show ?thesis
      proof (cases "takes_part resource ph")
        case False
        then have "probe_outcome ?H foip ph ref None"
          using seen [OF order_refl] by (intro probe_outcome.skipped)
        then have "wp P Q ?H (evaluate_refs w foip ph refs pc quo rcomp rquo results k)"
          using Cons.prems(3,4) by (intro continue [of _ None]) auto
        with False Inr show ?thesis by (simp add: takes_part_def)
      next
        case True
        then have not: "\<not> (probe_spec_phase (probe_spec resource) \<noteq> ph
            \<and> probe_spec_phase (probe_spec resource) \<noteq> ProbePhaseContinuous)"
          by (simp add: takes_part_def)
        show ?thesis
          unfolding Inr sum.case Let_def if_not_P [OF not]
        proof (rule wp_resolveProbeSpec [OF quiet], goal_cases)
          case (1 H' e)
          then have "?H \<subseteq> H'" using Inr by simp
          then show ?case using sub by (simp add: other)
        next
          case (2 H' resolved)
          then have H': "?H \<subseteq> H'" using Inr by simp
          show ?case
            unfolding sum.case
          proof (split if_split, intro conjI impI, goal_cases)
            case 1
            then show ?case using sub [OF H'] by (simp add: other)
          next
            case 2
            note step = composing_step [OF Cons.prems(3) refl 2]
            show ?case
            proof (rule wp_judge_probe [OF quiet _ _ seen [OF H'] True \<open>resolved_from _ _\<close>],
                goal_cases)
              case (1 H'' e)
              then show ?case using sub [OF H'] by (simp add: other)
            next
              case (2 H'' result)
              show ?case
                unfolding sum.case
                by (rule continue [OF _ 2(2)])
                  (use 2 sub [OF H'] step Cons.prems(4) in auto)
            qed
          qed
        qed
      qed
    qed
  qed
qed

lemma wp_evaluateProbePhase:
  assumes "quiet P"
    and err: "\<And>H' e. H \<subseteq> H' \<Longrightarrow> wp P Q H' (k (Some e))"
    and ok: "\<And>H'. H \<subseteq> H' \<Longrightarrow> gate_passed H' foip ph \<Longrightarrow> wp P Q H' (k None)"
  shows "wp P Q H (evaluateProbePhase w foip ph k)"
proof (cases "spec_probes (foip_spec foip) = []")
  case True
  have "\<exists>pc quo. in_force (foip_spec foip) [] pc quo"
    by (auto simp: in_force_def)
  with True have "gate_passed H foip ph"
    by (auto simp: gate_passed_def outcomes_of_def intro!: exI [of _ "[]"])
  with True show ?thesis
    by (simp add: evaluateProbePhase_def ok)
next
  case False
  show ?thesis
    unfolding evaluateProbePhase_def Let_def if_not_P [OF False]
  proof (rule wp_evaluate_refs [OF assms(1), where before = "[]"], goal_cases)
    case (1 H' e)
    then show ?case by (simp add: err)
  next
    case (2 H' outs pc quo results)
    then have "results = [] \<longleftrightarrow> reported outs = []" by (metis append_Nil map_is_Nil_conv)
    with 2 have "gate_passed H' foip ph"
      unfolding gate_passed_def
      by (intro exI [of _ outs] exI [of _ pc] exI [of _ quo] conjI)
        (auto simp: finish_gate_def Let_def Aggregate_composed split: if_splits)
    with 2(1) show ?case by (rule ok)
  qed (auto simp: composing_def in_force_def)
qed

section \<open>What a call must be preceded by\<close>

definition cooldown_elapsed :: "failover_ip \<Rightarrow> time \<Rightarrow> bool" where
  "cooldown_elapsed foip t =
     snd (providerMutationGate (foip_status foip) (providerCooldown (foip_spec foip)) t)"

text \<open>The node was read and carries the server id.\<close>

definition target_server :: "event set \<Rightarrow> string \<Rightarrow> int \<Rightarrow> bool" where
  "target_server H name sid \<longleftrightarrow>
     (\<exists>nd. EvGetNode name (Inr nd) \<in> H
        \<and> sscanf_d (map_get (node_annotations nd) ServerIDAnnotation) = Some sid)"

text \<open>The target reported the address.\<close>

definition target_prepared :: "event set \<Rightarrow> failover_ip \<Rightarrow> int \<Rightarrow> bool" where
  "target_prepared H foip sid \<longleftrightarrow>
     target_node (foip_status foip) \<in> set (local_owners (foip_status foip))
     \<and> target_server H (target_node (foip_status foip)) sid"

definition provider_reported :: "event set \<Rightarrow> int \<Rightarrow> int \<Rightarrow> bool" where
  "provider_reported H foipID sid \<longleftrightarrow> (\<exists>ip. EvFindFailoverIP ip (Inr (foipID, sid)) \<in> H)"

text \<open>The provider's owner \<open>cur\<close> passed the ownership fence of the object the method started from.\<close>

definition fence_passed :: "event set \<Rightarrow> int \<Rightarrow> bool" where
  "fence_passed H cur \<longleftrightarrow>
     (\<exists>ns name foip nodes. EvGetFailoverIp ns name (Inr foip) \<in> H \<and> EvListNodes (Inr nodes) \<in> H
        \<and> validateProviderFence (foip_status foip) (itoa cur)
            (serverIDForNode nodes (target_node (foip_status foip))) = None)"

text \<open>
  A forward route: in phase \<open>RoutingProvider\<close>, the target prepared, the pre-route probes passed,
  the provider reporting another owner that passes the fence, the cooldown elapsed, and the
  attempt persisted.
\<close>

definition forward_route_ok :: "event set \<Rightarrow> int \<Rightarrow> int \<Rightarrow> bool" where
  "forward_route_ok H foipID sid \<longleftrightarrow>
     (\<exists>base obj served t attempted cur.
        EvPatchStatus base obj (Inr served) \<in> H
        \<and> phase (foip_status base) = FailoverPhaseRoutingProvider
        \<and> last_attempted_mutation_at (foip_status obj) = Some attempted
        \<and> EvNow attempted \<in> H \<and> EvNow t \<in> H \<and> cooldown_elapsed base t
        \<and> target_prepared H base sid \<and> gate_passed H base ProbePhasePreRoute
        \<and> provider_reported H foipID cur \<and> cur \<noteq> sid \<and> fence_passed H cur)"

text \<open>
  A rollback route: the policy asks for it, it goes to the persisted source node's server, the
  provider's owner was read and passes the recovery fence, the cooldown has elapsed, and the
  attempt is persisted.
\<close>

definition rollback_route_ok :: "event set \<Rightarrow> int \<Rightarrow> int \<Rightarrow> bool" where
  "rollback_route_ok H foipID sid \<longleftrightarrow>
     (\<exists>base obj served t attempted source i cur any.
        EvPatchStatus base obj (Inr served) \<in> H
        \<and> spec_recovery_policy (foip_spec base) = RecoveryPolicyRollbackProvider
        \<and> last_attempted_mutation_at (foip_status obj) = Some attempted
        \<and> EvNow attempted \<in> H \<and> EvNow t \<in> H \<and> cooldown_elapsed base t
        \<and> source_node (foip_status base) \<noteq> ''''
        \<and> EvGetNode (source_node (foip_status base)) (Inr source) \<in> H
        \<and> atoi (map_get (node_annotations source) ServerIDAnnotation) = Some sid
        \<and> provider_reported H i cur \<and> cur \<noteq> sid
        \<and> validateProviderRecoveryFence (foip_status base) (itoa cur) (itoa sid) = None
        \<and> provider_reported H foipID any)"

text \<open>Phase changes: along the table, or into a safety state, or the very first write.\<close>

definition legal_write :: "failover_ip_status \<Rightarrow> failover_ip_status \<Rightarrow> bool" where
  "legal_write sb sf \<longleftrightarrow>
     phase sf = phase sb
     \<or> CanTransition (phase sb) (phase sf)
     \<or> phase sf = FailoverPhaseBlocked \<or> phase sf = FailoverPhaseDegraded
     \<or> transition_id sb = '''' \<and> phase sf = FailoverPhaseSelecting"

text \<open>Entering \<open>Succeeded\<close>: the target is the one local owner.\<close>

definition single_owner_write :: "failover_ip_status \<Rightarrow> failover_ip_status \<Rightarrow> bool" where
  "single_owner_write sb sf \<longleftrightarrow>
     (phase sf = FailoverPhaseSucceeded \<and> phase sb \<noteq> FailoverPhaseSucceeded \<longrightarrow>
        phase sb = FailoverPhaseCleaningStaleOwners \<and> local_owners sf = [target_node sf])"

text \<open>Changing the target: adopting the provider's owner, or handing over to a candidate.\<close>

definition adopts :: "event set \<Rightarrow> failover_ip_status \<Rightarrow> failover_ip_status \<Rightarrow> bool" where
  "adopts H sb sf \<longleftrightarrow> target_node sb = ''''
     \<and> (\<exists>nodes foipID sid owner. EvListNodes (Inr nodes) \<in> H \<and> provider_reported H foipID sid
          \<and> nodeForServerID nodes sid = Some owner \<and> target_node sf = node_name owner)"

definition hands_over :: "event set \<Rightarrow> failover_ip \<Rightarrow> failover_ip_status \<Rightarrow> bool" where
  "hands_over H b sf \<longleftrightarrow>
     (\<exists>nodes better t. EvListNodes (Inr nodes) \<in> H \<and> EvNow t \<in> H
        \<and> betterNode (candidateNodes nodes) (target_node (foip_status b)) = Some better
        \<and> candidateReadyForHandoff (foip_spec b) (foip_status b) better t
        \<and> failureThreshold (foip_spec b) \<le> candidate_failure_count (foip_status b)
        \<and> target_node sf = node_name better \<and> source_node sf = target_node (foip_status b)
        \<and> local_owners sf = [])"

text \<open>
  The written target is the one the API server answered an earlier status write with: the
  rollback policy writes its outcome over the object the server returned.
\<close>

definition served_target :: "event set \<Rightarrow> failover_ip_status \<Rightarrow> bool" where
  "served_target H sf \<longleftrightarrow>
     (\<exists>base obj served. EvPatchStatus base obj (Inr served) \<in> H
        \<and> target_node sf = target_node (foip_status served))"

definition target_write_ok :: "event set \<Rightarrow> failover_ip \<Rightarrow> failover_ip_status \<Rightarrow> bool" where
  "target_write_ok H b sf \<longleftrightarrow>
     target_node sf = target_node (foip_status b) \<or> served_target H sf
     \<or> adopts H (foip_status b) sf \<or> hands_over H b sf"

text \<open>Entering \<open>Committing\<close>: traffic was verified, or the policy commits in degraded mode.\<close>

definition traffic_verified :: "event set \<Rightarrow> failover_ip \<Rightarrow> bool" where
  "traffic_verified H b \<longleftrightarrow> gate_passed H b ProbePhasePostRoute
     \<or> (\<exists>base obj. EvPatchStatus base obj (Inr b) \<in> H
          \<and> spec_recovery_policy (foip_spec base) = RecoveryPolicyCommitDegraded)"

definition commit_write_ok :: "event set \<Rightarrow> failover_ip \<Rightarrow> failover_ip_status \<Rightarrow> bool" where
  "commit_write_ok H b sf \<longleftrightarrow>
     (phase sf = FailoverPhaseCommitting \<and> phase (foip_status b) \<noteq> FailoverPhaseCommitting \<longrightarrow>
        phase (foip_status b) = FailoverPhaseVerifyingTraffic \<and> traffic_verified H b)"

definition provider_converged :: "event set \<Rightarrow> bool" where
  "provider_converged H \<longleftrightarrow>
     (\<exists>name sid foipID. target_server H name sid \<and> provider_reported H foipID sid)"

fun safe_call :: "event set \<Rightarrow> event \<Rightarrow> bool" where
  "safe_call H (EvPatchStatus b f r) \<longleftrightarrow>
     legal_write (foip_status b) (foip_status f)
     \<and> single_owner_write (foip_status b) (foip_status f)
     \<and> target_write_ok H b (foip_status f)
     \<and> commit_write_ok H b (foip_status f)"
| "safe_call H (EvUpdateStatus f r) \<longleftrightarrow>
     phase (foip_status f) = FailoverPhaseVerifyingProvider
     \<and> last_successful_phase (foip_status f) = FailoverPhaseRoutingProvider
     \<and> provider_converged H"
| "safe_call H (EvRouteFailoverIP foipID sid r) \<longleftrightarrow>
     forward_route_ok H foipID sid \<or> rollback_route_ok H foipID sid"
| "safe_call H _ = True"

lemma quiet_safe_call [simp]: "quiet safe_call"
  unfolding quiet_def
proof (intro allI impI)
  fix H e
  show "harmless e \<Longrightarrow> safe_call H e" by (cases e) simp_all
qed

lemmas safe_patch = safe_call.simps(1)
  and safe_update = safe_call.simps(2)
  and safe_route = safe_call.simps(3)

declare safe_patch [simp del] safe_update [simp del] safe_route [simp del]

lemma provider_reported_mono:
  "provider_reported H i s \<Longrightarrow> H \<subseteq> H' \<Longrightarrow> provider_reported H' i s"
  by (auto simp: provider_reported_def)

lemma fence_passed_mono: "fence_passed H c \<Longrightarrow> H \<subseteq> H' \<Longrightarrow> fence_passed H' c"
  unfolding fence_passed_def by blast

lemma target_server_mono: "target_server H n s \<Longrightarrow> H \<subseteq> H' \<Longrightarrow> target_server H' n s"
  by (auto simp: target_server_def)

lemma target_prepared_mono: "target_prepared H f s \<Longrightarrow> H \<subseteq> H' \<Longrightarrow> target_prepared H' f s"
  by (auto simp: target_prepared_def intro: target_server_mono)

lemmas evidence_mono =
  provider_reported_mono fence_passed_mono target_server_mono target_prepared_mono
  gate_passed_mono

section \<open>The stretches of the method\<close>

text \<open>A write that keeps phase and target, or enters a safety state, needs no evidence.\<close>

definition calm_write :: "failover_ip_status \<Rightarrow> failover_ip_status \<Rightarrow> bool" where
  "calm_write sb sf \<longleftrightarrow> target_node sf = target_node sb
     \<and> (phase sf = phase sb \<or> phase sf = FailoverPhaseBlocked \<or> phase sf = FailoverPhaseDegraded
        \<or> CanTransition (phase sb) (phase sf) \<and> phase sf \<noteq> FailoverPhaseCommitting
          \<and> phase sf \<noteq> FailoverPhaseSucceeded)"

lemmas write_defs = safe_patch legal_write_def single_owner_write_def target_write_ok_def
  commit_write_ok_def

lemma safe_calm_write [simp]:
  "calm_write (foip_status b) (foip_status f) \<Longrightarrow> safe_call H (EvPatchStatus b f r)"
  by (auto simp: calm_write_def write_defs)

abbreviation always :: "event set \<Rightarrow> 'a \<Rightarrow> bool" where
  "always H x \<equiv> True"

lemma wp_advanceTransition:
  "quiet P \<Longrightarrow> wp P always H (advanceTransition foip to now k) \<longleftrightarrow>
     (\<forall>st. AdvanceTransition (foip_status foip) to now = Inr st \<longrightarrow>
        wp P always (insert (EvObserve (ObservePhaseTransition
             (phase_string (phase (foip_status foip))) (phase_string to))) H)
          (k (set_status foip st)))"
  by (auto simp: advanceTransition_def split: sum.split)

lemma AdvanceTransition_Inr:
  "AdvanceTransition st to now = Inr st' \<longleftrightarrow>
     CanTransition (phase st) to
     \<and> st' = st\<lparr>last_successful_phase := phase st, phase := to, phase_started_at := Some now,
                last_transition_at := Some now, last_error := ''''\<rparr>"
  by (auto simp: AdvanceTransition_def CanTransition_def)

lemmas stretch_simps =
  wp_advanceTransition AdvanceTransition_Inr calm_write_def Let_def

lemma wp_begin_transition:
  "transition_id (foip_status foip) = '''' \<Longrightarrow> wp safe_call always H (begin_transition foip)"
  by (auto simp: begin_transition_def Let_def write_defs StartTransition_def intro!: wp_emitEvent split: sum.split)

lemma wp_persistInvalidSpec: "wp safe_call always H (persistInvalidSpec foip e)"
  by (auto simp: persistInvalidSpec_def stretch_simps intro!: wp_emitEvent split: sum.split)

lemma wp_block_invalid_status: "wp safe_call always H (block_invalid_status foip e)"
  by (auto simp: block_invalid_status_def stretch_simps intro!: wp_emitEvent split: sum.split)

lemma wp_resume_halted: "wp safe_call always H (resume_halted r foip)"
  by (auto simp: resume_halted_def stretch_simps intro!: wp_emitEvent split: sum.split)

lemma wp_block_fenced: "wp safe_call always H (block_fenced foip e)"
  by (auto simp: block_fenced_def stretch_simps intro!: wp_emitEvent split: sum.split)

lemma wp_cancel_candidate: "wp safe_call always H (cancel_candidate foip)"
  by (auto simp: cancel_candidate_def stretch_simps split: sum.split)

lemma wp_reopen_selection: "wp safe_call always H (reopen_selection foip)"
  by (auto simp: reopen_selection_def stretch_simps split: sum.split)

lemma wp_open_window: "wp safe_call always H (open_window foip)"
  by (auto simp: open_window_def stretch_simps split: sum.split)

lemma wp_unexpected_phase: "wp safe_call always H (unexpected_phase foip)"
  by (auto simp: unexpected_phase_def stretch_simps split: sum.split)

lemma wp_clean_owners: "wp safe_call always H (clean_owners r foip now)"
  by (auto simp: clean_owners_def stretch_simps split: sum.split)

lemma wp_defer_mutation: "wp safe_call always H (defer_mutation foip t)"
  by (auto simp: defer_mutation_def stretch_simps split: sum.split)

lemma wp_route_failed: "wp safe_call always H (route_failed foip e)"
  by (auto simp: route_failed_def stretch_simps split: sum.split)

lemma wp_with_credentials:
  assumes "\<And>H'. H \<subseteq> H' \<Longrightarrow> wp safe_call always H' k"
  shows "wp safe_call always H (with_credentials ns foip k)"
  by (simp add: with_credentials_def Let_def assms grow split: sum.split option.split)

section \<open>Observation and candidates\<close>

text \<open>The nodes and the provider's owner that the rest of the method works with were read.\<close>

definition observed :: "event set \<Rightarrow> observation \<Rightarrow> bool" where
  "observed H ob \<longleftrightarrow> EvListNodes (Inr (obs_nodes ob)) \<in> H
     \<and> provider_reported H (obs_foip_id ob) (obs_server_id ob)
     \<and> fence_passed H (obs_server_id ob)"

lemma observed_mono: "observed H ob \<Longrightarrow> H \<subseteq> H' \<Longrightarrow> observed H' ob"
  by (auto simp: observed_def intro: evidence_mono)

lemma adoptsI:
  "observed H ob \<Longrightarrow> target_node sb = '''' \<Longrightarrow>
   nodeForServerID (obs_nodes ob) (obs_server_id ob) = Some owner \<Longrightarrow>
   target_node sf = node_name owner \<Longrightarrow> adopts H sb sf"
  by (unfold adopts_def observed_def) blast

lemma safe_adoption:
  assumes "observed H ob"
    and "adopted_status (foip_status foip) (obs_nodes ob) (obs_server_id ob) = (st, adopted)"
  shows "safe_call H (EvPatchStatus foip (set_status foip st) r)"
proof -
  have "target_write_ok H foip st"
    using assms by (auto simp: adopted_status_def Let_def target_write_ok_def
        split: if_splits option.splits intro: adoptsI)
  moreover have "phase st = phase (foip_status foip)"
    using assms(2) by (auto simp: adopted_status_def Let_def split: if_splits option.splits)
  ultimately show ?thesis by (simp add: write_defs)
qed

lemma wp_adopt_owner:
  assumes "observed H ob" and "\<And>H' f. H \<subseteq> H' \<Longrightarrow> wp safe_call always H' (k f)"
  shows "wp safe_call always H (adopt_owner foip (obs_nodes ob) (obs_server_id ob) k)"
  using assms(1)
  by (simp add: adopt_owner_def assms(2) grow safe_adoption split: prod.split sum.split)

lemma wp_observe_provider:
  assumes read: "EvGetFailoverIp ns name (Inr foip) \<in> H"
    and k: "\<And>H' f ob. H \<subseteq> H' \<Longrightarrow> observed H' ob \<Longrightarrow> wp safe_call always H' (k f ob)"
  shows "wp safe_call always H (observe_provider foip k)"
proof -
  have adopt: "wp safe_call always H' (adopt_owner foip nodes sid
      (\<lambda>foip'. k foip' \<lparr>obs_foip_id = fid, obs_server_id = sid, obs_nodes = nodes\<rparr>))"
    if "H \<subseteq> H'" "EvFindFailoverIP ip (Inr (fid, sid)) \<in> H'" "EvListNodes (Inr nodes) \<in> H'"
      "validateProviderFence (foip_status foip) (itoa sid)
         (serverIDForNode nodes (target_node (foip_status foip))) = None"
    for H' ip fid sid nodes
  proof -
    let ?ob = "\<lparr>obs_foip_id = fid, obs_server_id = sid, obs_nodes = nodes\<rparr>"
    have "fence_passed H' sid"
      unfolding fence_passed_def using that read by blast
    then have "observed H' ?ob" using that by (auto simp: observed_def provider_reported_def)
    then show ?thesis
      using wp_adopt_owner [of H' ?ob "\<lambda>f. k f ?ob"] that(1) k observed_mono
      by (metis (no_types, lifting) observation.select_convs(2,3) order_trans)
  qed
  show ?thesis
    by (auto simp: observe_provider_def intro!: adopt wp_block_fenced split: sum.split option.split)
qed

lemma wp_switch_target:
  assumes "EvListNodes (Inr nodes) \<in> H" "EvNow t \<in> H"
    and "betterNode (candidateNodes nodes) (target_node (foip_status foip)) = Some better"
    and "candidateReadyForHandoff (foip_spec foip) (foip_status foip) better t"
    and "failureThreshold (foip_spec foip) \<le> candidate_failure_count (foip_status foip)"
  shows "wp safe_call always H (switch_target foip better)"
proof -
  have "target_write_ok H' foip sf"
    if "target_node sf = node_name better" "source_node sf = target_node (foip_status foip)"
      "local_owners sf = []" "H \<subseteq> H'" for H' sf
    unfolding target_write_ok_def hands_over_def using assms that by blast
  then show ?thesis
    by (simp add: switch_target_def wp_advanceTransition AdvanceTransition_Inr Let_def safe_patch
        legal_write_def single_owner_write_def commit_write_ok_def grow split: sum.split)
qed

lemma wp_pursue_candidate:
  assumes "EvListNodes (Inr nodes) \<in> H"
    and "betterNode (candidateNodes nodes) (target_node (foip_status foip)) = Some better"
  shows "wp safe_call always H (pursue_candidate foip better)"
  using assms
  by (auto simp: pursue_candidate_def Let_def calm_write_def
      intro!: wp_reopen_selection wp_open_window wp_switch_target split: sum.split option.split)

lemma wp_select_candidate:
  assumes "observed H ob" and "\<And>H'. H \<subseteq> H' \<Longrightarrow> wp safe_call always H' k"
  shows "wp safe_call always H (select_candidate foip ob k)"
  using assms(1)
  by (auto simp: select_candidate_def observed_def assms(2)
      intro: wp_cancel_candidate wp_pursue_candidate split: option.split)

section \<open>Preparing and routing\<close>

lemma target_preparedI:
  "EvGetNode (target_node (foip_status foip)) (Inr nd) \<in> H \<Longrightarrow>
   sscanf_d (map_get (node_annotations nd) ServerIDAnnotation) = Some sid \<Longrightarrow>
   target_node (foip_status foip) \<in> set (local_owners (foip_status foip)) \<Longrightarrow>
   target_prepared H foip sid"
  by (auto simp: target_prepared_def target_server_def)

lemma wp_resolve_target:
  assumes "\<And>H' sid. H \<subseteq> H' \<Longrightarrow> target_prepared H' foip sid \<Longrightarrow> wp safe_call always H' (k sid)"
  shows "wp safe_call always H (resolve_target r foip k)"
  by (auto simp: resolve_target_def Let_def intro!: assms
      intro: target_preparedI [OF insertI1] split: sum.split option.split)

lemma wp_prepare_target:
  assumes "\<And>H'. H \<subseteq> H' \<Longrightarrow>
    (phase (foip_status foip) = FailoverPhaseRoutingProvider \<Longrightarrow>
       gate_passed H' foip ProbePhasePreRoute) \<Longrightarrow> wp safe_call always H' k"
  shows "wp safe_call always H (prepare_target foip k)"
  by (auto simp: prepare_target_def stretch_simps intro!: wp_evaluateProbePhase assms
      split: sum.split)

lemma wp_verify_route:
  assumes "\<And>H'. H \<subseteq> H' \<Longrightarrow> wp safe_call always H' (k False)"
    and "\<And>H' foipID. H \<subseteq> H' \<Longrightarrow> provider_reported H' foipID sid \<Longrightarrow>
      wp safe_call always H' (k True)"
  shows "wp safe_call always H (verify_route n ip sid k)"
  using assms
proof (induction n arbitrary: H)
  case (Suc n)
  have True: "wp safe_call always H' (k True)"
    if "H \<subseteq> H'" "EvFindFailoverIP ip (Inr (foipID, sid)) \<in> H'" for H' foipID
    using that by (intro Suc.prems(2) [of _ foipID]) (auto simp: provider_reported_def)
  have again: "wp safe_call always H' (verify_route n ip sid k)" if "H \<subseteq> H'" for H'
    using that by (intro Suc.IH Suc.prems) auto
  show ?case
    by (auto intro!: True again split: sum.split option.split)
qed simp

lemma forward_route_okI:
  "EvPatchStatus base obj (Inr served) \<in> H \<Longrightarrow>
   phase (foip_status base) = FailoverPhaseRoutingProvider \<Longrightarrow>
   last_attempted_mutation_at (foip_status obj) = Some attempted \<Longrightarrow>
   EvNow attempted \<in> H \<Longrightarrow> EvNow t \<in> H \<Longrightarrow> cooldown_elapsed base t \<Longrightarrow>
   target_prepared H base sid \<Longrightarrow> gate_passed H base ProbePhasePreRoute \<Longrightarrow>
   provider_reported H foipID cur \<Longrightarrow> cur \<noteq> sid \<Longrightarrow> fence_passed H cur \<Longrightarrow>
   forward_route_ok H foipID sid"
  by (unfold forward_route_ok_def) blast

lemma wp_mutate_route:
  assumes "phase (foip_status foip) = FailoverPhaseRoutingProvider"
    and "EvNow t \<in> H" "cooldown_elapsed foip t" "target_prepared H foip sid"
    and "gate_passed H foip ProbePhasePreRoute" "provider_reported H foipID cur" "cur \<noteq> sid"
      "fence_passed H cur"
    and k: "\<And>H' f i. H \<subseteq> H' \<Longrightarrow> provider_reported H' i sid \<Longrightarrow> wp safe_call always H' (k f)"
  shows "wp safe_call always H (mutate_route foip foipID sid k)"
proof -
  have route: "safe_call H' (EvRouteFailoverIP foipID sid e)"
    if "H \<subseteq> H'" "EvPatchStatus foip obj (Inr served) \<in> H'"
      "last_attempted_mutation_at (foip_status obj) = Some attempted" "EvNow attempted \<in> H'"
    for H' e obj served attempted
    using assms that
    by (auto simp: safe_route intro: forward_route_okI evidence_mono)
  have verified: "wp safe_call always H' (verify_route n ip sid
      (\<lambda>verified. if \<not> verified then Return e else Observe m (Now (\<lambda>c. k (g c)))))"
    if "H \<subseteq> H'" for H' n ip e g m
    using that by (intro wp_verify_route) (auto intro!: k intro: provider_reported_mono)
  show ?thesis
    by (simp add: mutate_route_def Let_def calm_write_def wp_route_failed verified grow
        split: sum.split option.split)
      (auto intro!: route)
qed

text \<open>After routing, a step still in \<open>RoutingProvider\<close> has seen the provider report the target.\<close>

lemma wp_route_provider:
  assumes "target_prepared H foip sid" "observed H ob"
    and "phase (foip_status foip) = FailoverPhaseRoutingProvider \<Longrightarrow>
      gate_passed H foip ProbePhasePreRoute"
    and k: "\<And>H' f i. H \<subseteq> H' \<Longrightarrow> provider_reported H' i sid \<Longrightarrow> wp safe_call always H' (k f)"
  shows "wp safe_call always H (route_provider foip ob sid k)"
proof -
  have routed: "wp safe_call always (insert (EvNow t) H) (mutate_route foip (obs_foip_id ob) sid k)"
    if "phase (foip_status foip) = FailoverPhaseRoutingProvider" "obs_server_id ob \<noteq> sid"
      "cooldown_elapsed foip t" for t
    using assms that observed_mono [OF assms(2), of "insert (EvNow t) H"]
    by (intro wp_mutate_route [where cur = "obs_server_id ob" and t = t])
      (auto simp: observed_def intro: evidence_mono)
  show ?thesis
    using assms(2)
    by (auto simp: route_provider_def cooldown_elapsed_def [symmetric] observed_def
        intro!: wp_defer_mutation routed k split: prod.split)
      (auto simp: cooldown_elapsed_def)
qed

lemma wp_verify_provider:
  assumes "provider_converged H" and "wp safe_call always H k"
  shows "wp safe_call always H (verify_provider foip ob sid k)"
proof -
  have "provider_converged H'" if "H \<subseteq> H'" for H'
    using assms(1) that unfolding provider_converged_def by (blast intro: evidence_mono)
  then show ?thesis
    by (simp add: verify_provider_def stretch_simps safe_update assms(2) grow split: sum.split)
qed

section \<open>Recovery, commit and cleanup\<close>

text \<open>
  The recovery policies: without permission to commit, nothing is known of the continuation;
  with it, the policy is \<open>CommitDegraded\<close> and the decision was persisted.
\<close>

definition recovery_kept :: "event set \<Rightarrow> (bool \<Rightarrow> reconcile_result \<Rightarrow> failover_ip \<Rightarrow> step) \<Rightarrow> bool" where
  "recovery_kept H k \<longleftrightarrow>
     (\<forall>H' res f. H \<subseteq> H' \<longrightarrow> wp safe_call always H' (k False res f)
        \<and> (traffic_verified H' f \<longrightarrow> wp safe_call always H' (k True res f)))"

lemma recovery_keptD:
  "recovery_kept H k \<Longrightarrow> H \<subseteq> H' \<Longrightarrow> wp safe_call always H' (k False res f)"
  "recovery_kept H k \<Longrightarrow> H \<subseteq> H' \<Longrightarrow> traffic_verified H' f \<Longrightarrow>
     wp safe_call always H' (k True res f)"
  by (simp_all add: recovery_kept_def)

lemma recovery_kept_mono: "recovery_kept H k \<Longrightarrow> H \<subseteq> H' \<Longrightarrow> recovery_kept H' k"
  unfolding recovery_kept_def by (meson order_trans)

lemma wp_persistRecoveryState:
  assumes kept: "recovery_kept H k"
    and halted: "ph = FailoverPhaseBlocked \<or> ph = FailoverPhaseDegraded"
    and target: "target_node (foip_status foip) = target_node (foip_status base)
      \<or> served_target H (foip_status foip)"
  shows "wp safe_call always H (persistRecoveryState foip base ph message reason now k)"
proof -
  have "safe_call H (EvPatchStatus base (set_status foip st) r)"
    if "phase st = ph" "target_node st = target_node (foip_status foip)" for st r
    using that halted target by (auto simp: write_defs served_target_def)
  then show ?thesis
    by (simp add: persistRecoveryState_def Let_def recovery_keptD [OF kept] grow split: sum.split)
qed

lemma wp_commit_degraded:
  assumes "recovery_kept H k" "spec_recovery_policy (foip_spec base) = RecoveryPolicyCommitDegraded"
    and "phase (foip_status foip) = phase (foip_status base)"
    and "target_node (foip_status foip) = target_node (foip_status base)"
  shows "wp safe_call always H (commit_degraded foip base now k)"
proof -
  have "traffic_verified H' served" if "EvPatchStatus base obj (Inr served) \<in> H'" for H' obj served
    using assms(2) that by (auto simp: traffic_verified_def)
  from this [OF insertI1] show ?thesis
    using assms
    by (auto simp: commit_degraded_def Let_def calm_write_def
        intro!: recovery_keptD [OF assms(1)] split: sum.split)
qed

lemma wp_manual_intervention:
  assumes "recovery_kept H k" "target_node (foip_status foip) = target_node (foip_status base)"
  shows "wp safe_call always H (manual_intervention foip base now k)"
  using assms
  by (auto simp: manual_intervention_def Let_def calm_write_def recovery_keptD grow
      split: sum.split)

lemma rollback_route_okI:
  "EvPatchStatus base obj (Inr served) \<in> H \<Longrightarrow>
   spec_recovery_policy (foip_spec base) = RecoveryPolicyRollbackProvider \<Longrightarrow>
   last_attempted_mutation_at (foip_status obj) = Some attempted \<Longrightarrow>
   EvNow attempted \<in> H \<Longrightarrow> EvNow t \<in> H \<Longrightarrow> cooldown_elapsed base t \<Longrightarrow>
   source_node (foip_status base) \<noteq> '''' \<Longrightarrow>
   EvGetNode (source_node (foip_status base)) (Inr source) \<in> H \<Longrightarrow>
   atoi (map_get (node_annotations source) ServerIDAnnotation) = Some sid \<Longrightarrow>
   provider_reported H i cur \<Longrightarrow> cur \<noteq> sid \<Longrightarrow>
   validateProviderRecoveryFence (foip_status base) (itoa cur) (itoa sid) = None \<Longrightarrow>
   provider_reported H foipID any \<Longrightarrow> rollback_route_ok H foipID sid"
  by (unfold rollback_route_ok_def) blast

text \<open>A write over \<open>base\<close> that records the attempt at \<open>t\<close>, and what the server answered.\<close>

definition attempted :: "event set \<Rightarrow> failover_ip \<Rightarrow> time \<Rightarrow> failover_ip \<Rightarrow> bool" where
  "attempted H base t served \<longleftrightarrow> (\<exists>obj. EvPatchStatus base obj (Inr served) \<in> H
     \<and> last_attempted_mutation_at (foip_status obj) = Some t)"

lemma attempted_insert [simp]:
  "attempted H base t served \<Longrightarrow> attempted (insert e H) base t served"
  "last_attempted_mutation_at (foip_status obj) = Some t \<Longrightarrow>
     attempted (insert (EvPatchStatus base obj (Inr served)) H) base t served"
  by (auto simp: attempted_def)

lemma wp_rollback_route:
  assumes kept: "recovery_kept H k"
    and same: "target_node (foip_status foip) = target_node (foip_status base)"
      "phase (foip_status foip) = phase (foip_status base)"
    and route: "\<And>H' served e. H \<subseteq> H' \<Longrightarrow> attempted H' base now served \<Longrightarrow>
      safe_call H' (EvRouteFailoverIP foipID sid e)"
  shows "wp safe_call always H (rollback_route foip base foipID sid now k)"
proof -
  have finish: "wp safe_call always H' (persistRecoveryState f base ph message reason t k)"
    if "H \<subseteq> H'" "attempted H' base now served"
      "ph = FailoverPhaseBlocked \<or> ph = FailoverPhaseDegraded"
      "target_node (foip_status f) = target_node (foip_status served)"
    for H' served f ph message reason t
    using that
    by (intro wp_persistRecoveryState recovery_kept_mono [OF kept])
      (auto simp: served_target_def attempted_def)
  have continue: "wp safe_call always H' (RouteFailoverIP foipID sid (\<lambda>routed. case routed of
       Some e \<Rightarrow> persistRecoveryState served base FailoverPhaseBlocked m1 r1 now k
     | None \<Rightarrow> FindFailoverIP ip (\<lambda>f.
         if \<not> (case f of Inl e \<Rightarrow> False | Inr (i, s) \<Rightarrow> s = sid) then
           persistRecoveryState served base FailoverPhaseBlocked m2 r2 now k
         else Now (\<lambda>c. persistRecoveryState (set_status served ((foip_status served)\<lparr>
                  last_confirmed_mutation_at := Some c, provider_observed_owner := o3\<rparr>))
                base FailoverPhaseDegraded m3 r3 now k))))"
    if "H \<subseteq> H'" "attempted H' base now served" for H' served ip m1 r1 m2 r2 m3 r3 o3
  proof -
    note finish = finish [where served = served]
    show ?thesis
      using that
      by (simp add: finish route [where served = served] grow split: option.split)
  qed
  show ?thesis
    unfolding rollback_route_def Let_def
    by (simp add: continue same calm_write_def recovery_keptD [OF kept] grow del: wp.simps(15)
        split: sum.split)
qed

text \<open>Recovery works on the object with the policy and the attempt recorded in its status.\<close>

definition recorded :: "failover_ip \<Rightarrow> failover_ip \<Rightarrow> bool" where
  "recorded base foip \<longleftrightarrow>
     (\<exists>pol n. foip = set_status base ((foip_status base)\<lparr>recovery_action := pol,
                       recovery_attempts := n\<rparr>))"

lemma recorded_same:
  assumes "recorded base foip"
  shows "foip_spec foip = foip_spec base"
    and "target_node (foip_status foip) = target_node (foip_status base)"
    and "source_node (foip_status foip) = source_node (foip_status base)"
    and "phase (foip_status foip) = phase (foip_status base)"
    and "providerMutationGate (foip_status foip) d t = providerMutationGate (foip_status base) d t"
    and "validateProviderRecoveryFence (foip_status foip) a b
      = validateProviderRecoveryFence (foip_status base) a b"
  using assms
  by (auto simp: recorded_def providerMutationGate_def validateProviderRecoveryFence_def)

lemma wp_rollback_gated:
  assumes kept: "recovery_kept H k" and recorded: "recorded base foip"
    and route: "\<And>H' t served e. H \<subseteq> H' \<Longrightarrow> EvNow t \<in> H' \<Longrightarrow> cooldown_elapsed base t \<Longrightarrow>
      attempted H' base now served \<Longrightarrow> safe_call H' (EvRouteFailoverIP foipID sid e)"
  shows "wp safe_call always H (rollback_gated foip base foipID sid now k)"
proof -
  note same = recorded_same [OF recorded]
  have "wp safe_call always (insert (EvNow t) H) (rollback_route foip base foipID sid now k)"
    if "cooldown_elapsed base t" for t
    using that
    by (intro wp_rollback_route recovery_kept_mono [OF kept] same) (auto intro: route)
  then show ?thesis
    by (auto simp: rollback_gated_def Let_def same calm_write_def cooldown_elapsed_def
        recovery_keptD [OF kept] grow split: prod.split sum.split)
qed

lemma wp_rollback_provider:
  assumes kept: "recovery_kept H k" and recorded: "recorded base foip"
    and policy: "spec_recovery_policy (foip_spec base) = RecoveryPolicyRollbackProvider"
    and now: "EvNow now \<in> H" and id: "provider_reported H foipID any"
  shows "wp safe_call always H (rollback_provider foip base foipID now k)"
proof -
  note same = recorded_same [OF recorded]
  have blocked: "wp safe_call always H' (persistRecoveryState f base ph message reason t k)"
    if "H \<subseteq> H'" "target_node (foip_status f) = target_node (foip_status foip)"
      "ph = FailoverPhaseBlocked \<or> ph = FailoverPhaseDegraded" for H' f ph message reason t
    using that by (intro wp_persistRecoveryState recovery_kept_mono [OF kept]) (simp_all add: same)
  have gated: "wp safe_call always H' (rollback_gated foip base foipID sid now k)"
    if "H \<subseteq> H'" "EvGetNode (source_node (foip_status base)) (Inr source) \<in> H'"
      "source_node (foip_status base) \<noteq> ''''"
      "atoi (map_get (node_annotations source) ServerIDAnnotation) = Some sid"
      "EvFindFailoverIP (spec_ip (foip_spec base)) (Inr (i, cur)) \<in> H'"
      "validateProviderRecoveryFence (foip_status base) (itoa cur) (itoa sid) = None" "cur \<noteq> sid"
    for H' source i cur sid
  proof (rule wp_rollback_gated [OF recovery_kept_mono [OF kept that(1)] recorded])
    fix H'' t served e
    assume "H' \<subseteq> H''" "EvNow t \<in> H''" "cooldown_elapsed base t" "attempted H'' base now served"
    moreover from this obtain obj where "EvPatchStatus base obj (Inr served) \<in> H''"
      "last_attempted_mutation_at (foip_status obj) = Some now"
      by (auto simp: attempted_def)
    moreover have "provider_reported H'' i cur"
      using that(5) \<open>H' \<subseteq> H''\<close> by (auto simp: provider_reported_def)
    ultimately show "safe_call H'' (EvRouteFailoverIP foipID sid e)"
      unfolding safe_route using that now id policy
      by (intro disjI2 rollback_route_okI [where base = base and t = t and attempted = now])
        (auto intro: evidence_mono)
  qed
  show ?thesis
    by (auto simp: rollback_provider_def Let_def same intro!: blocked gated
        split: sum.split option.split)
qed

lemma wp_recoverPostRouteFailure:
  assumes kept: "recovery_kept H k" and id: "provider_reported H foipID any"
  shows "wp safe_call always H (recoverPostRouteFailure foip foipID k)"
proof -
  have step: "wp safe_call always H'' (case policy of
        RecoveryPolicyCommitDegraded \<Rightarrow> commit_degraded foip1 foip t k
      | RecoveryPolicyManualIntervention \<Rightarrow> manual_intervention foip1 foip t k
      | RecoveryPolicyRollbackProvider \<Rightarrow> rollback_provider foip1 foip foipID t k
      | _ \<Rightarrow> persistRecoveryState foip1 foip FailoverPhaseDegraded conditionMessage
               ''HoldDualOwnership'' t k)"
    if "H \<subseteq> H''" "EvNow t \<in> H''" "recorded foip foip1"
      "policy = spec_recovery_policy (foip_spec foip) \<or> policy = RecoveryPolicyHoldDualOwnership"
    for H'' policy foip1 t
  proof -
    note kept' = recovery_kept_mono [OF kept that(1)] and same = recorded_same [OF that(3)]
    show ?thesis
      using that(4) id that(1)
      by (auto split: recovery_policy.split
          intro!: wp_commit_degraded [OF kept'] wp_manual_intervention [OF kept'] same
            wp_persistRecoveryState [OF kept'] wp_rollback_provider [OF kept' that(3) _ that(2)]
          intro: evidence_mono)
  qed
  have "recorded foip (set_status foip ((foip_status foip)\<lparr>recovery_action := pol,
      recovery_attempts := n\<rparr>))" for pol n
    by (auto simp: recorded_def)
  then show ?thesis
    unfolding recoverPostRouteFailure_def Let_def wp.simps
    by (intro conjI wp_emitEvent quiet_safe_call) (simp, unfold wp.simps,
        intro allI conjI step, auto)
qed

text \<open>
  Past \<open>verify_traffic\<close>, either the post-route gate was passed or committing in degraded mode
  was decided and persisted.
\<close>

lemma wp_verify_traffic:
  assumes "observed H ob"
    and k: "\<And>H' f. H \<subseteq> H' \<Longrightarrow> traffic_verified H' f \<Longrightarrow> wp safe_call always H' (k f)"
  shows "wp safe_call always H (verify_traffic foip ob k)"
  unfolding verify_traffic_def
proof (rule wp_evaluateProbePhase [OF quiet_safe_call], goal_cases)
  case (1 H' e)
  then have "recovery_kept H' (\<lambda>commitDegraded recoveryResult foip'.
      if result_err recoveryResult \<noteq> None then Return recoveryResult
      else if \<not> commitDegraded then Return recoveryResult else k foip')"
    by (auto simp: recovery_kept_def intro: k)
  moreover have "provider_reported H' (obs_foip_id ob) (obs_server_id ob)"
    using assms(1) 1 by (auto simp: observed_def intro: evidence_mono)
  ultimately show ?case by (simp add: wp_recoverPostRouteFailure)
next
  case (2 H')
  then show ?case by (simp add: k traffic_verified_def)
qed

lemma wp_succeed:
  assumes "length (local_owners (foip_status foip)) = 1"
    and "target_node (foip_status foip) \<in> set (local_owners (foip_status foip))"
    and "phase (foip_status foip) = FailoverPhaseCleaningStaleOwners"
  shows "wp safe_call always H (succeed r foip)"
proof -
  have "local_owners (foip_status foip) = [target_node (foip_status foip)]"
    using assms(1,2) by (auto simp: length_Suc_conv)
  then show ?thesis
    using assms(3)
    by (auto simp: succeed_def wp_advanceTransition AdvanceTransition_Inr write_defs
        intro!: wp_emitEvent split: sum.split)
qed

lemma wp_commit_and_clean:
  assumes "traffic_verified H foip"
  shows "wp safe_call always H (commit_and_clean r foip)"
proof -
  have verified: "traffic_verified H' foip" if "H \<subseteq> H'" for H'
    using assms that unfolding traffic_verified_def by (blast intro: evidence_mono)
  show ?thesis
    by (auto simp: commit_and_clean_def wp_advanceTransition AdvanceTransition_Inr write_defs
        intro!: wp_unexpected_phase wp_clean_owners wp_succeed verified
        split: sum.split option.split)
qed

lemma wp_handoff:
  assumes "observed H ob"
  shows "wp safe_call always H (handoff r foip ob)"
  unfolding handoff_def
proof (intro wp_resolve_target wp_prepare_target, goal_cases)
  case (1 H1 sid H2)
  then have H2: "observed H2 ob" "target_prepared H2 foip sid"
    by (auto intro: observed_mono [OF assms] evidence_mono)
  show ?case
  proof (rule wp_route_provider [OF H2(2,1) 1(4)])
    fix H3 f i
    assume H3: "H2 \<subseteq> H3" "provider_reported H3 i sid"
    then have "provider_converged H3"
      using target_prepared_mono [OF H2(2)]
      by (auto simp: provider_converged_def target_prepared_def)
    moreover have "wp safe_call always H3 (verify_traffic f ob (commit_and_clean r))"
      using observed_mono [OF H2(1) H3(1)] by (intro wp_verify_traffic wp_commit_and_clean)
    ultimately show "wp safe_call always H3 (verify_provider f ob sid
        (verify_traffic f ob (\<lambda>foip2. commit_and_clean r foip2)))"
      by (rule wp_verify_provider)
  qed
qed

lemma wp_reconcile_foip:
  "EvGetFailoverIp ns' name (Inr foip) \<in> H \<Longrightarrow> wp safe_call always H (reconcile_foip r ns foip)"
  unfolding reconcile_foip_def
  by (auto intro!: wp_begin_transition wp_persistInvalidSpec wp_block_invalid_status
      wp_resume_halted wp_with_credentials wp_observe_provider wp_select_candidate wp_handoff
      intro: observed_mono split: option.split)

theorem wp_Reconcile: "wp safe_call always {} (Reconcile r ns name)"
proof -
  have "wp safe_call always H (finish_reconcile ph res)" for H ph res
    by (simp add: finish_reconcile_def)
  moreover from this have "wp safe_call (\<lambda>H' x. wp safe_call always H' (finish_reconcile ph x)) H
      (reconcile_foip r ns foip)"
    if "EvGetFailoverIp ns name (Inr foip) \<in> H" for H ph foip
    using wp_reconcile_foip [OF that] by simp
  ultimately show ?thesis
    by (simp add: Reconcile_def Let_def wp_bind split: sum.split)
qed

lemma Reconcile_safe:
  "steps (Reconcile r ns name) (pre @ e # post) p \<Longrightarrow> safe_call (set pre) e"
  by (rule wp_call [OF wp_Reconcile])

section \<open>Properties\<close>

text \<open>
  C8: Probe gates fail closed.  Whenever evaluateProbePhase reports success, every referenced
  probe was read, each one of the phase was executed, and the verdicts, softened by the
  thresholds, satisfy the composition of the specification.
\<close>

theorem gate_fails_closed:
  assumes "steps (evaluateProbePhase w foip ph Return) es (Return None)"
  shows "gate_passed (set es) foip ph"
proof -
  have "wp (\<lambda>_ _. True) (\<lambda>H x. x = None \<longrightarrow> gate_passed H foip ph) {}
      (evaluateProbePhase w foip ph Return)"
    by (rule wp_evaluateProbePhase) (simp_all add: quiet_def)
  from wp_result [OF this assms] show ?thesis by simp
qed

definition probed_foip :: failover_ip where
  "probed_foip = \<lparr> foip_name = ''ip'', foip_namespace = ''ns'', foip_uid = '''',
     foip_annotations = [], foip_spec = empty_spec\<lparr>spec_probes := [''p'']\<rparr>,
     foip_status = empty_status \<rparr>"

theorem gate_fails_closed_witness:
  "gate_passed {EvGetProbe ''ns'' ''p'' (Inr (tcp_probe ''p'' 1 1)),
     EvExecuteProbe (probe_spec (tcp_probe ''p'' 1 1)) '''' '''' passing} probed_foip ProbePhasePreRoute"
proof -
  let ?p = "tcp_probe ''p'' 1 1"
  have same: "replace_all (CHR ''$'' # n) m ''a'' = ''a''" "replace_all (c # n) m '''' = ''''" for c n m
    by (simp_all add: replace_all.simps)
  have "steps (evaluateProbePhase False probed_foip ProbePhasePreRoute Return)
      [EvGetProbe ''ns'' ''p'' (Inr ?p), EvExecuteProbe (probe_spec ?p) '''' '''' passing] (Return None)"
    by (simp add: evaluateProbePhase_def probed_foip_def empty_spec_def steps_simps pstep_simps
          resolveProbeSpec_def substitute_def Let_def mentions_def reject_placeholders_def
          placeholder_def judge_probe_def load_ca_bundle_def execute_resolved_def same
          tcp_probe_def)
      (simp add: applyProbeThresholds_def passing_def Let_def empty_observation_def wrap32_def
        finish_gate_def Aggregate_def)
  from gate_fails_closed [OF this] show ?thesis by simp
qed

end
