(* ===== verification/Cluster.thy ===== *)
theory Cluster
  imports Controller_Safety Node_Interface Provider_Contract
begin

section \<open>A concrete cluster\<close>

text \<open>
  One concrete environment for the two controllers: an API server that keeps one failover IP
  and applies merge patches to its status, a fixed set of nodes, a provider that knows the one
  owner of the address, the interface table of every node, and a clock.  It instantiates the
  calls for the witnesses and for the end-to-end runs.
\<close>

record cluster =
  clock :: time
  stored :: failover_ip
  cluster_nodes :: "node list"
  owner :: int
  tables :: "string \<Rightarrow> net_addr list"

text \<open>
  \<open>client.MergeFrom(base)\<close>: the JSON merge patch holds the fields in which the object differs
  from the base, and the server sets those.
\<close>

definition merge_field :: "'a \<Rightarrow> 'a \<Rightarrow> 'a \<Rightarrow> 'a" where
  "merge_field base new cur = (if new = base then cur else new)"

definition merge_status ::
  "failover_ip_status \<Rightarrow> failover_ip_status \<Rightarrow> failover_ip_status \<Rightarrow> failover_ip_status" where
  "merge_status b n s = \<lparr>
     transition_id = merge_field (transition_id b) (transition_id n) (transition_id s),
     phase = merge_field (phase b) (phase n) (phase s),
     source_node = merge_field (source_node b) (source_node n) (source_node s),
     target_node = merge_field (target_node b) (target_node n) (target_node s),
     provider_observed_owner = merge_field (provider_observed_owner b)
       (provider_observed_owner n) (provider_observed_owner s),
     local_owners = merge_field (local_owners b) (local_owners n) (local_owners s),
     phase_started_at = merge_field (phase_started_at b) (phase_started_at n) (phase_started_at s),
     last_successful_phase = merge_field (last_successful_phase b) (last_successful_phase n)
       (last_successful_phase s),
     retry_count = merge_field (retry_count b) (retry_count n) (retry_count s),
     last_error = merge_field (last_error b) (last_error n) (last_error s),
     last_attempted_mutation_at = merge_field (last_attempted_mutation_at b)
       (last_attempted_mutation_at n) (last_attempted_mutation_at s),
     last_confirmed_mutation_at = merge_field (last_confirmed_mutation_at b)
       (last_confirmed_mutation_at n) (last_confirmed_mutation_at s),
     next_eligible_mutation_at = merge_field (next_eligible_mutation_at b)
       (next_eligible_mutation_at n) (next_eligible_mutation_at s),
     last_transition_at = merge_field (last_transition_at b) (last_transition_at n)
       (last_transition_at s),
     candidate_since = merge_field (candidate_since b) (candidate_since n) (candidate_since s),
     candidate_reason = merge_field (candidate_reason b) (candidate_reason n) (candidate_reason s),
     candidate_failure_count = merge_field (candidate_failure_count b)
       (candidate_failure_count n) (candidate_failure_count s),
     candidate_recovery_count = merge_field (candidate_recovery_count b)
       (candidate_recovery_count n) (candidate_recovery_count s),
     recovery_action = merge_field (recovery_action b) (recovery_action n) (recovery_action s),
     recovery_attempts = merge_field (recovery_attempts b) (recovery_attempts n)
       (recovery_attempts s),
     cleanup_attempts = merge_field (cleanup_attempts b) (cleanup_attempts n) (cleanup_attempts s),
     next_cleanup_at = merge_field (next_cleanup_at b) (next_cleanup_at n) (next_cleanup_at s),
     manual_reconcile_token = merge_field (manual_reconcile_token b) (manual_reconcile_token n)
       (manual_reconcile_token s),
     conditions = merge_field (conditions b) (conditions n) (conditions s) \<rparr>"

definition patch_stored :: "failover_ip \<Rightarrow> failover_ip \<Rightarrow> cluster \<Rightarrow> (go_error + failover_ip) \<times> cluster"
where
  "patch_stored base foip w =
     (let served = (stored w)\<lparr>foip_status := merge_status (foip_status base) (foip_status foip)
                                (foip_status (stored w))\<rparr>
      in (Inr served, w\<lparr>stored := served\<rparr>))"

fun find_node :: "node list \<Rightarrow> string \<Rightarrow> go_error + node" where
  "find_node [] n = Inl (NotFoundError n)"
| "find_node (nd # nds) n = (if node_name nd = n then Inr nd else find_node nds n)"

text \<open>The calls, for a process that runs on the given node.\<close>

definition cluster_env :: "string \<Rightarrow> cluster environment" where
  "cluster_env here = \<lparr>
     env_now = (\<lambda>w. (clock w, w)),
     env_get_foip = (\<lambda>ns n w. (Inr (stored w), w)),
     env_patch = patch_stored,
     env_update = (\<lambda>f w. (Inr f, w\<lparr>stored := f\<rparr>)),
     env_secret = (\<lambda>ns n w. (Inr [(''refreshToken'', ''token''), (''userId'', ''7'')], w)),
     env_nodes = (\<lambda>w. (Inr (cluster_nodes w), w)),
     env_node = (\<lambda>n w. (find_node (cluster_nodes w) n, w)),
     env_probe = (\<lambda>ns n w. (Inl (NotFoundError n), w)),
     env_patch_probe = (\<lambda>b p w. (None, w)),
     env_execute = (\<lambda>sp cred ca w. (failing, w)),
     env_kubernetes = (\<lambda>tgt w. (failing, w)),
     env_client = (\<lambda>uid tok w. w),
     env_find = (\<lambda>ip w. (Inr (1, owner w), w)),
     env_route = (\<lambda>fid sid w. (None, w\<lparr>owner := sid\<rparr>)),
     env_wait = (\<lambda>d w. (None, w\<lparr>clock := clock w + d\<rparr>)),
     env_rand = (\<lambda>n w. (0, w)),
     env_uuid = (\<lambda>w. (''t'', w)),
     env_recorder = (\<lambda>w. False),
     env_events = (\<lambda>w. None),
     env_set_events = (\<lambda>d w. w),
     env_record = (\<lambda>f ty rs m w. w),
     env_observe = (\<lambda>ms w. w),
     env_links = (\<lambda>w. (Inr [nic], w)),
     env_addrs = (\<lambda>l w. (Inr (tables w here), w)),
     env_addr_add = (\<lambda>l a w. (None, w\<lparr>tables := (tables w)(here := tables w here @ [a])\<rparr>)),
     env_addr_del = (\<lambda>l a w. (None, w\<lparr>tables := (tables w)(here := removeAll a (tables w here))\<rparr>)) \<rparr>"

section \<open>Running the controllers\<close>

definition operator_config :: failover_ip_reconciler where
  "operator_config = SetupWithManager \<lparr>requeueAfter = 0\<rparr>"

definition controller_run :: "cluster \<Rightarrow> event list \<times> reconcile_result \<times> cluster" where
  "controller_run w = run (cluster_env '''') (Reconcile operator_config ''ns'' ''ip'') w"

definition agent_run :: "string \<Rightarrow> cluster \<Rightarrow> event list \<times> reconcile_result \<times> cluster" where
  "agent_run n w = run (cluster_env n) (NodeInterface_Reconcile \<lparr>reconciler_node = n\<rparr> ''ns'' ''ip'') w"

datatype turn =
  Controller
| Agent string
| Wait duration

fun take_turn :: "turn \<Rightarrow> cluster \<Rightarrow> cluster" where
  "take_turn Controller w = snd (snd (controller_run w))"
| "take_turn (Agent n) w = snd (snd (agent_run n w))"
| "take_turn (Wait d) w = w\<lparr>clock := clock w + d\<rparr>"

definition take_turns :: "turn list \<Rightarrow> cluster \<Rightarrow> cluster" where
  "take_turns turns w = fold take_turn turns w"

section \<open>Evaluating a run\<close>

text \<open>
  Rules that run code call by call.  The congruence rule keeps the simplifier out of the code
  still to run, so that only the calls actually made are evaluated.
\<close>

lemma run_weak: "w = w' \<Longrightarrow> run E p w = run E p w'"
  by simp

lemma run_cases:
  "run E (if b then p else q) w = (if b then run E p w else run E q w)"
  "run E (case s of Inl a \<Rightarrow> f a | Inr c \<Rightarrow> g c) w =
     (case s of Inl a \<Rightarrow> run E (f a) w | Inr c \<Rightarrow> run E (g c) w)"
  "run E (case x of None \<Rightarrow> p | Some c \<Rightarrow> h c) w =
     (case x of None \<Rightarrow> run E p w | Some c \<Rightarrow> run E (h c) w)"
  "run E (case z of (a, c) \<Rightarrow> k a c) w = (case z of (a, c) \<Rightarrow> run E (k a c) w)"
  "run E (Let v m) w = (let v' = v in run E (m v') w)"
  by (simp_all split: sum.split option.split prod.split)

lemma run_eq: "p = q \<Longrightarrow> run E p w = run E q w"
  by simp

lemma logged_pair: "logged e (es, y) = (e # es, y)"
  by (simp add: logged_def)

lemmas run_controller =
  Reconcile_def [THEN run_eq] reconcile_foip_def [THEN run_eq] begin_transition_def [THEN run_eq]
  with_credentials_def [THEN run_eq] observe_provider_def [THEN run_eq]
  adopt_owner_def [THEN run_eq] select_candidate_def [THEN run_eq]
  pursue_candidate_def [THEN run_eq] open_window_def [THEN run_eq]
  switch_target_def [THEN run_eq] handoff_def [THEN run_eq] resolve_target_def [THEN run_eq]
  prepare_target_def [THEN run_eq] route_provider_def [THEN run_eq] mutate_route_def [THEN run_eq]
  verify_provider_def [THEN run_eq] verify_traffic_def [THEN run_eq]
  commit_and_clean_def [THEN run_eq] succeed_def [THEN run_eq] unexpected_phase_def [THEN run_eq]
  reopen_selection_def [THEN run_eq] block_invalid_status_def [THEN run_eq]
  evaluateProbePhase_def [THEN run_eq] advanceTransition_def [THEN run_eq]
  finish_reconcile_def [THEN run_eq] patch_or_fail_def [THEN run_eq] emitEvent_def [THEN run_eq]

lemma run_verify_route:
  "run E (verify_route providerVerifyAttempts ip sid k) w = run E (verify_route (Suc 14) ip sid k) w"
  "run E (verify_route (Suc n) ip sid k) w =
     run E (FindFailoverIP ip (\<lambda>f.
       Observe (ObserveProviderCall ''netcup'' ''verify_failover_ip'' (isl f))
         (case f of
            Inl e \<Rightarrow> Return (failed (Wrapped ''verifying failover route: '' e))
          | Inr (i, observedServerID) \<Rightarrow>
              if observedServerID = sid then k True
              else WaitInterval providerVerifyInterval (\<lambda>c. case c of
                     Some e \<Rightarrow> Return (failed e)
                   | None \<Rightarrow> verify_route n ip sid k)))) w"
  by (simp_all add: providerVerifyAttempts_def eval_nat_numeral)

lemmas run_agent =
  NodeInterface_Reconcile_def [THEN run_eq] interface_body_def [THEN run_eq]
  own_address_def [THEN run_eq] disown_address_def [THEN run_eq]
  ensureIPAssigned_def [THEN run_eq] ensureIPRemoved_def [THEN run_eq]
  linkAndAddress_def [THEN run_eq] findLinkByMAC_def [THEN run_eq]

lemma cluster_calls:
  "env_now (cluster_env here) w = (clock w, w)"
  "env_get_foip (cluster_env here) ns n w = (Inr (stored w), w)"
  "env_patch (cluster_env here) b f w = patch_stored b f w"
  "env_update (cluster_env here) f w = (Inr f, w\<lparr>stored := f\<rparr>)"
  "env_secret (cluster_env here) ns n w =
     (Inr [(''refreshToken'', ''token''), (''userId'', ''7'')], w)"
  "env_nodes (cluster_env here) w = (Inr (cluster_nodes w), w)"
  "env_node (cluster_env here) n w = (find_node (cluster_nodes w) n, w)"
  "env_client (cluster_env here) uid tok w = w"
  "env_find (cluster_env here) ip w = (Inr (1, owner w), w)"
  "env_route (cluster_env here) fid sid w = (None, w\<lparr>owner := sid\<rparr>)"
  "env_uuid (cluster_env here) w = (''t'', w)"
  "env_recorder (cluster_env here) w = False"
  "env_observe (cluster_env here) ms w = w"
  "env_links (cluster_env here) w = (Inr [nic], w)"
  "env_addrs (cluster_env here) l w = (Inr (tables w here), w)"
  "env_addr_add (cluster_env here) l a w =
     (None, w\<lparr>tables := (tables w)(here := tables w here @ [a])\<rparr>)"
  "env_addr_del (cluster_env here) l a w =
     (None, w\<lparr>tables := (tables w)(here := removeAll a (tables w here))\<rparr>)"
  by (simp_all add: cluster_env_def)

text \<open>Its provider is one in the sense of the contract.\<close>

interpretation cluster_service: provider_contract "env_find (cluster_env here)"
    "\<lambda>fid sid w. apfst Some (env_route (cluster_env here) fid sid w)" "\<lambda>w. True" owner for here
  by unfold_locales (auto simp: cluster_calls)

lemma merge_same [simp]: "merge_status b n b = n"
  by (simp add: merge_status_def merge_field_def)

lemma texts:
  "sscanf_d ''7'' = Some 7" "sscanf_d ''11'' = Some 11" "sscanf_d ''12'' = Some 12"
  "itoa 11 = ''11''" "itoa 12 = ''12''"
  by (simp_all add: sscanf_digits is_digit_def digit_value_def parse_int_def is_int64_def Let_def
      itoa_def nat_text.simps digits_def)

lemmas run_rules = run_cases run_bind run_controller run_verify_route run_agent cluster_calls
  patch_stored_def logged_pair texts parse_moved moved_simps Let_def

lemmas run_congs = run_weak let_weak_cong prod.case_cong_weak sum.case_cong_weak
  option.case_cong_weak

section \<open>A cluster of two nodes\<close>

definition pair :: "node list" where
  "pair = [plain_node ''a'' ''11'' ConditionFalse, plain_node ''b'' ''12'' ConditionTrue]"

definition foip_with :: "failover_ip_status \<Rightarrow> failover_ip" where
  "foip_with st = \<lparr> foip_name = ''ip'', foip_namespace = ''ns'', foip_uid = ''u'',
     foip_annotations = [],
     foip_spec = empty_spec\<lparr>spec_ip := ''192.0.2.7'', secret_name := ''s'',
       spec_failure_threshold := 1, stabilization_seconds := 10\<rparr>,
     foip_status = st \<rparr>"

definition cluster_at :: "time \<Rightarrow> failover_ip_status \<Rightarrow> int \<Rightarrow> (string \<Rightarrow> net_addr list) \<Rightarrow> cluster" where
  "cluster_at t st sid tabs = \<lparr> clock = t, stored = foip_with st, cluster_nodes = pair, owner = sid,
     tables = tabs \<rparr>"

lemma cluster_at_simps [simp]:
  "clock (cluster_at t st sid tabs) = t" "stored (cluster_at t st sid tabs) = foip_with st"
  "cluster_nodes (cluster_at t st sid tabs) = pair" "owner (cluster_at t st sid tabs) = sid"
  "tables (cluster_at t st sid tabs) = tabs"
  "(cluster_at t st sid tabs)\<lparr>clock := u\<rparr> = cluster_at u st sid tabs"
  "(cluster_at t st sid tabs)\<lparr>stored := foip_with st'\<rparr> = cluster_at t st' sid tabs"
  "(cluster_at t st sid tabs)\<lparr>owner := sid'\<rparr> = cluster_at t st sid' tabs"
  "(cluster_at t st sid tabs)\<lparr>tables := tabs'\<rparr> = cluster_at t st sid tabs'"
  by (simp_all add: cluster_at_def)

lemma foip_with_simps [simp]:
  "foip_status (foip_with st) = st" "foip_annotations (foip_with st) = []"
  "set_status (foip_with st) st' = foip_with st'"
  "foip_namespace (foip_with st) = ''ns''"
  "spec_ip (foip_spec (foip_with st)) = ''192.0.2.7''"
  "secret_name (foip_spec (foip_with st)) = ''s''"
  "spec_probes (foip_spec (foip_with st)) = []"
  "ValidateFailoverIpSpec (foip_spec (foip_with st)) = None"
  "failureThreshold (foip_spec (foip_with st)) = 1"
  "stabilizationWindow (foip_spec (foip_with st)) = 10 * second"
  "minHealthyWindow (foip_spec (foip_with st)) = 0"
  "providerCooldown (foip_spec (foip_with st)) = minute"
  by (simp_all add: foip_with_def empty_spec_def ValidateFailoverIpSpec_def failureThreshold_def
      stabilizationWindow_def minHealthyWindow_def providerCooldown_def defaultProviderCooldown_def
      seconds_int32 is_int32_def)

lemma cluster_at_inject [simp]:
  "cluster_at t st sid tabs = cluster_at t' st' sid' tabs' \<longleftrightarrow>
     t = t' \<and> st = st' \<and> sid = sid' \<and> tabs = tabs'"
  by (auto simp: cluster_at_def foip_with_def)

lemma pair_simps [simp]:
  "betterNode (candidateNodes pair) ''a'' = Some (plain_node ''b'' ''12'' ConditionTrue)"
  "betterNode (candidateNodes pair) ''b'' = None"
  "serverIDForNode pair ''a'' = ''11''" "serverIDForNode pair ''b'' = ''12''"
  "find_node pair ''a'' = Inr (plain_node ''a'' ''11'' ConditionFalse)"
  "find_node pair ''b'' = Inr (plain_node ''b'' ''12'' ConditionTrue)"
  "nodeAcceptable (plain_node ''b'' ''12'' ConditionTrue)"
  "nodeForServerID pair 12 = Some (plain_node ''b'' ''12'' ConditionTrue)"
  by (simp_all add: pair_def betterNode_def candidateNodes_def serverIDForNode_def
      nodeForServerID_def itoa_def nat_text.simps digits_def
      worseThan_severity sameIssues_severity nodeAcceptable_def NodeReady_def
      NodeNetworkUnavailable_def NodePIDPressure_def NodeMemoryPressure_def NodeDiskPressure_def)

lemma secret_simps [simp]:
  "map_get [(''refreshToken'', ''token''), (''userId'', ''7'')] ''refreshToken'' = ''token''"
  "map_get [(''refreshToken'', ''token''), (''userId'', ''7'')] ''userId'' = ''7''"
  "map_get [] k = ''''"
  by (simp_all add: map_get_def)

lemmas status_rules = ValidateStatus_def validateProviderFence_def adopted_status_def
  AdvanceTransition_def CanTransition_def StartTransition_def providerMutationGate_def
  candidateReadyForHandoff_def wrap32_def wrap64_def second_def

lemmas merge_rules = merge_status_def merge_field_def

section \<open>A hand-over from the first failure to its success\<close>

text \<open>
  Node a owns the address, on its interface and at the provider, and has stopped being ready.
  The statuses after each turn, up to their conditions, on which no decision depends.
\<close>

definition st0 :: failover_ip_status where
  "st0 = empty_status\<lparr>transition_id := ''t'', phase := FailoverPhaseSelecting,
     target_node := ''a'', provider_observed_owner := ''11'', local_owners := [''a'']\<rparr>"

definition entered ::
  "failover_phase \<Rightarrow> time \<Rightarrow> failover_ip_status \<Rightarrow> failover_ip_status" where
  "entered ph t st = st\<lparr>last_successful_phase := phase st, phase := ph, phase_started_at := Some t,
     last_transition_at := Some t\<rparr>"

definition st1 :: failover_ip_status where
  "st1 = entered FailoverPhaseStabilizing 0 (st0\<lparr>candidate_since := Some 0,
     candidate_reason := ''healthiest candidate selected''\<rparr>)"

abbreviation t1 :: time where "t1 \<equiv> 10 * second"

definition st2 :: failover_ip_status where
  "st2 = entered FailoverPhasePreparingTarget t1 (st1\<lparr>source_node := ''a'', target_node := ''b'',
     local_owners := [], candidate_since := None, candidate_reason := ''''\<rparr>)"

definition st3 :: failover_ip_status where
  "st3 = entered FailoverPhaseTargetPrepared t1 (st2\<lparr>local_owners := [''a'', ''b'']\<rparr>)"

definition st4 :: failover_ip_status where
  "st4 = entered FailoverPhaseRoutingProvider t1 st3"

definition st5 :: failover_ip_status where
  "st5 = entered FailoverPhaseVerifyingProvider t1 (st4\<lparr>last_attempted_mutation_at := Some t1,
     last_confirmed_mutation_at := Some t1, provider_observed_owner := ''12''\<rparr>)"

definition st6 :: failover_ip_status where
  "st6 = entered FailoverPhaseVerifyingTraffic t1 st5"

definition st7 :: failover_ip_status where
  "st7 = entered FailoverPhaseCommitting t1 st6"

definition st8 :: failover_ip_status where
  "st8 = entered FailoverPhaseCleaningStaleOwners t1 (st7\<lparr>source_node := ''b''\<rparr>)"

definition st9 :: failover_ip_status where
  "st9 = entered FailoverPhaseSucceeded t1 (st8\<lparr>local_owners := [''b'']\<rparr>)"

lemmas statuses = st9_def st8_def st7_def st6_def st5_def st4_def st3_def st2_def st1_def st0_def
  entered_def empty_status_def

definition on_nodes :: "net_addr list \<Rightarrow> net_addr list \<Rightarrow> string \<Rightarrow> net_addr list" where
  "on_nodes a b = (\<lambda>_. [])(''a'' := a, ''b'' := b)"

lemma on_nodes_simps [simp]:
  "on_nodes x y ''a'' = x" "on_nodes x y ''b'' = y"
  "(on_nodes x y)(''a'' := z) = on_nodes z y" "(on_nodes x y)(''b'' := z) = on_nodes x z"
  by (auto simp: on_nodes_def)

abbreviation only_a :: "string \<Rightarrow> net_addr list" where "only_a \<equiv> on_nodes [moved_address] []"
abbreviation both :: "string \<Rightarrow> net_addr list" where "both \<equiv> on_nodes [moved_address] [moved_address]"
abbreviation only_b :: "string \<Rightarrow> net_addr list" where "only_b \<equiv> on_nodes [] [moved_address]"

lemma turn1:
  "\<exists>cs'. take_turn Controller (cluster_at 0 st0 11 tabs)
     = cluster_at 0 (st1\<lparr>conditions := cs'\<rparr>) 11 tabs"
  by (simp add: controller_run_def run_rules status_rules st0_def empty_status_def cong: run_congs)
    (simp add: merge_rules statuses)

lemma turn2:
  "\<exists>cs'. take_turn Controller (cluster_at t1 (st1\<lparr>conditions := cs\<rparr>) 11 tabs)
     = cluster_at t1 (st2\<lparr>conditions := cs'\<rparr>) 11 tabs"
  by (simp add: controller_run_def run_rules status_rules statuses cong: run_congs)
    (simp add: merge_rules statuses second_def)

lemma turn3:
  "take_turn (Agent ''a'') (cluster_at t (st2\<lparr>conditions := cs\<rparr>) 11 only_a)
     = cluster_at t (st2\<lparr>local_owners := [''a''], conditions := cs\<rparr>) 11 only_a"
  "take_turn (Agent ''b'') (cluster_at t (st2\<lparr>local_owners := [''a''], conditions := cs\<rparr>) 11 only_a)
     = cluster_at t (st2\<lparr>local_owners := [''a'', ''b''], conditions := cs\<rparr>) 11 both"
  by (simp_all add: agent_run_def run_rules shouldOwn_def statuses cong: run_congs)

lemma turn4:
  "\<exists>cs'. take_turn Controller
       (cluster_at t1 (st2\<lparr>local_owners := [''a'', ''b''], conditions := cs\<rparr>) 11 tabs)
     = cluster_at t1 (st3\<lparr>conditions := cs'\<rparr>) 11 tabs"
  by (simp add: controller_run_def run_rules status_rules statuses cong: run_congs;
      simp add: SetCondition_def Let_def)

lemma turn5:
  "\<exists>cs'. take_turn Controller (cluster_at t1 (st3\<lparr>conditions := cs\<rparr>) 11 tabs)
     = cluster_at t1 (st4\<lparr>conditions := cs'\<rparr>) 11 tabs"
  by (simp add: controller_run_def run_rules status_rules statuses cong: run_congs;
      simp add: SetCondition_def Let_def)

lemma turn6:
  "\<exists>cs'. take_turn Controller (cluster_at t1 (st4\<lparr>conditions := cs\<rparr>) 11 tabs)
     = cluster_at t1 (st5\<lparr>conditions := cs'\<rparr>) 12 tabs"
  by (simp add: controller_run_def run_rules status_rules statuses cong: run_congs;
      simp add: SetCondition_def Let_def)

lemma turn7:
  "\<exists>cs'. take_turn Controller (cluster_at t1 (st5\<lparr>conditions := cs\<rparr>) 12 tabs)
     = cluster_at t1 (st6\<lparr>conditions := cs'\<rparr>) 12 tabs"
  by (simp add: controller_run_def run_rules status_rules statuses cong: run_congs;
      simp add: SetCondition_def Let_def)

lemma turn8:
  "\<exists>cs'. take_turn Controller (cluster_at t1 (st6\<lparr>conditions := cs\<rparr>) 12 tabs)
     = cluster_at t1 (st7\<lparr>conditions := cs'\<rparr>) 12 tabs"
  by (simp add: controller_run_def run_rules status_rules statuses cong: run_congs;
      simp add: SetCondition_def Let_def)

lemma turn9:
  "\<exists>cs'. take_turn Controller (cluster_at t1 (st7\<lparr>conditions := cs\<rparr>) 12 tabs)
     = cluster_at t1 (st8\<lparr>conditions := cs'\<rparr>) 12 tabs"
  by (simp add: controller_run_def run_rules status_rules statuses cong: run_congs;
      simp add: SetCondition_def Let_def)

lemma turn10:
  "take_turn (Agent ''a'') (cluster_at t (st8\<lparr>conditions := cs\<rparr>) 12 both)
     = cluster_at t (st8\<lparr>local_owners := [''b''], conditions := cs\<rparr>) 12 only_b"
  by (simp add: agent_run_def run_rules shouldOwn_def statuses removeNode_def cong: run_congs)

lemma turn11:
  "\<exists>cs'. take_turn Controller
       (cluster_at t1 (st8\<lparr>local_owners := [''b''], conditions := cs\<rparr>) 12 tabs)
     = cluster_at t1 (st9\<lparr>conditions := cs'\<rparr>) 12 tabs"
  by (simp add: controller_run_def run_rules status_rules statuses cong: run_congs;
      simp add: SetCondition_def Let_def)

text \<open>
  C9: After the target's node a becomes unready, the two controllers, run in turns, hand the
  address over to the ready node b: the transition ends Succeeded with the provider routing to
  b, the address on b's interface only and b as the one local owner.
\<close>

theorem handoff_completes:
  "\<exists>st. take_turns [Controller, Wait t1, Controller, Agent ''a'', Agent ''b'', Controller,
        Controller, Controller, Controller, Controller, Controller, Agent ''a'', Controller]
      (cluster_at 0 st0 11 only_a) = cluster_at t1 st 12 only_b
     \<and> phase st = FailoverPhaseSucceeded \<and> target_node st = ''b'' \<and> local_owners st = [''b'']
     \<and> provider_observed_owner st = ''12''"
proof -
  obtain cs1 where 1: "take_turn Controller (cluster_at 0 st0 11 only_a)
      = cluster_at 0 (st1\<lparr>conditions := cs1\<rparr>) 11 only_a"
    using turn1 by blast
  obtain cs2 where 2: "take_turn Controller (cluster_at t1 (st1\<lparr>conditions := cs1\<rparr>) 11 only_a)
     = cluster_at t1 (st2\<lparr>conditions := cs2\<rparr>) 11 only_a"
    using turn2 by blast
  obtain cs3 where 3: "take_turn Controller
       (cluster_at t1 (st2\<lparr>local_owners := [''a'', ''b''], conditions := cs2\<rparr>) 11 both)
     = cluster_at t1 (st3\<lparr>conditions := cs3\<rparr>) 11 both"
    using turn4 by blast
  obtain cs4 where 4: "take_turn Controller (cluster_at t1 (st3\<lparr>conditions := cs3\<rparr>) 11 both)
     = cluster_at t1 (st4\<lparr>conditions := cs4\<rparr>) 11 both"
    using turn5 by blast
  obtain cs5 where 5: "take_turn Controller (cluster_at t1 (st4\<lparr>conditions := cs4\<rparr>) 11 both)
     = cluster_at t1 (st5\<lparr>conditions := cs5\<rparr>) 12 both"
    using turn6 by blast
  obtain cs6 where 6: "take_turn Controller (cluster_at t1 (st5\<lparr>conditions := cs5\<rparr>) 12 both)
     = cluster_at t1 (st6\<lparr>conditions := cs6\<rparr>) 12 both"
    using turn7 by blast
  obtain cs7 where 7: "take_turn Controller (cluster_at t1 (st6\<lparr>conditions := cs6\<rparr>) 12 both)
     = cluster_at t1 (st7\<lparr>conditions := cs7\<rparr>) 12 both"
    using turn8 by blast
  obtain cs8 where 8: "take_turn Controller (cluster_at t1 (st7\<lparr>conditions := cs7\<rparr>) 12 both)
     = cluster_at t1 (st8\<lparr>conditions := cs8\<rparr>) 12 both"
    using turn9 by blast
  obtain cs9 where 9: "take_turn Controller
       (cluster_at t1 (st8\<lparr>local_owners := [''b''], conditions := cs8\<rparr>) 12 only_b)
     = cluster_at t1 (st9\<lparr>conditions := cs9\<rparr>) 12 only_b"
    using turn11 by blast
  have "take_turns [Controller, Wait t1, Controller, Agent ''a'', Agent ''b'', Controller,
        Controller, Controller, Controller, Controller, Controller, Agent ''a'', Controller]
      (cluster_at 0 st0 11 only_a) = cluster_at t1 (st9\<lparr>conditions := cs9\<rparr>) 12 only_b"
    unfolding take_turns_def
    by (simp only: fold_simps 1 2 3 4 5 6 7 8 9 turn3 turn10 take_turn.simps(3) cluster_at_simps
        add_0)
  then show ?thesis by (auto simp: statuses)
qed

end
