(* ===== verification/Controller_Properties.thy ===== *)
theory Controller_Properties
  imports Cluster
begin

text \<open>
  What a run of \<open>FailoverIpReconciler.Reconcile\<close> may do, for every environment: each property
  is one conjunct of \<open>safe_call\<close>, read off at a call of the run.  The witnesses are runs of the
  controller in the cluster of two nodes.
\<close>

section \<open>The calls of a run in the cluster\<close>

abbreviation calls_of :: "cluster \<Rightarrow> event list" where
  "calls_of w \<equiv> fst (controller_run w)"

lemma call_of_run:
  assumes "e \<in> set (calls_of w)"
  obtains pre post p where "steps (Reconcile operator_config ''ns'' ''ip'') (pre @ e # post) p"
    and "calls_of w = pre @ e # post"
  using split_list [OF assms] fst_run_steps unfolding controller_run_def by metis

lemma routing_call:
  "EvRouteFailoverIP 1 12 None \<in> set (calls_of (cluster_at t1 st4 11 both))"
  by (simp add: controller_run_def run_rules status_rules statuses cong: run_congs)

lemma converged_call:
  "\<exists>f r. EvUpdateStatus f r \<in> set (calls_of (cluster_at t1 st4 11 both))"
  by (simp add: controller_run_def run_rules status_rules statuses cong: run_congs)

lemma start_call:
  "\<exists>f r. EvPatchStatus (foip_with empty_status) f r \<in> set (calls_of (cluster_at 0 empty_status 12 only_b))
     \<and> phase (foip_status f) = FailoverPhaseSelecting"
  by (simp add: controller_run_def run_rules status_rules statuses cong: run_congs)

lemma commit_call:
  "\<exists>f r. EvPatchStatus (foip_with st6) f r \<in> set (calls_of (cluster_at t1 st6 12 both))
     \<and> phase (foip_status f) = FailoverPhaseCommitting"
  by (simp add: controller_run_def run_rules status_rules statuses cong: run_congs)

lemma switch_call:
  "\<exists>b f r. EvPatchStatus b f r \<in> set (calls_of (cluster_at t1 st1 11 only_a))
     \<and> target_node (foip_status f) = ''b'' \<and> target_node (foip_status b) = ''a''"
  by (simp add: controller_run_def run_rules status_rules statuses cong: run_congs)

lemma success_call:
  "\<exists>f r. EvPatchStatus (foip_with (st8\<lparr>local_owners := [''b'']\<rparr>)) f r
       \<in> set (calls_of (cluster_at t1 (st8\<lparr>local_owners := [''b'']\<rparr>) 12 only_b))
     \<and> phase (foip_status f) = FailoverPhaseSucceeded"
  by (simp add: controller_run_def run_rules status_rules statuses cong: run_congs)

text \<open>Complete runs of code that only reports.\<close>

lemma steps_return: "steps (Return x) es (Return y) \<longleftrightarrow> es = [] \<and> y = x"
  by (cases es) (auto simp: steps_simps pstep_simps)

lemma steps_observe:
  "steps (Observe m p) es (Return y) \<longleftrightarrow> (\<exists>es'. es = EvObserve m # es' \<and> steps p es' (Return y))"
  by (cases es) (auto simp: steps_simps pstep_simps)

section \<open>Properties\<close>

text \<open>
  C1: The provider is routed only when it is safe.  Before RouteFailoverIP is called, either the
  controller is in RoutingProvider with the target prepared on its node, the pre-route probes
  passed, another owner reported by the provider that passes the ownership fence, the cooldown
  elapsed and the attempt persisted; or the rollback policy routes back to the persisted source,
  under the recovery fence, the cooldown and a persisted attempt.
\<close>

theorem provider_is_routed_only_when_safe:
  assumes "steps (Reconcile r ns name) (pre @ EvRouteFailoverIP foipID sid res # post) p"
  shows "forward_route_ok (set pre) foipID sid \<or> rollback_route_ok (set pre) foipID sid"
  using Reconcile_safe [OF assms] by (simp add: safe_route)

theorem provider_is_routed_only_when_safe_witness:
  "\<exists>pre post. calls_of (cluster_at t1 st4 11 both) = pre @ EvRouteFailoverIP 1 12 None # post
     \<and> (forward_route_ok (set pre) 1 12 \<or> rollback_route_ok (set pre) 1 12)"
  using routing_call provider_is_routed_only_when_safe by (metis call_of_run)

text \<open>
  C6: Every status patch keeps the phase, moves it along the controller's transition table,
  enters one of the two safety phases, or starts the first transition.
\<close>

theorem phases_are_written_along_the_table:
  assumes "steps (Reconcile r ns name) (pre @ EvPatchStatus b f res # post) p"
  shows "phase (foip_status f) = phase (foip_status b)
    \<or> CanTransition (phase (foip_status b)) (phase (foip_status f))
    \<or> phase (foip_status f) \<in> {FailoverPhaseBlocked, FailoverPhaseDegraded}
    \<or> transition_id (foip_status b) = '''' \<and> phase (foip_status f) = FailoverPhaseSelecting"
  using Reconcile_safe [OF assms] by (simp add: safe_patch legal_write_def)

theorem phases_are_written_along_the_table_witness:
  "\<exists>pre post f r. calls_of (cluster_at 0 empty_status 12 only_b)
       = pre @ EvPatchStatus (foip_with empty_status) f r # post
     \<and> (phase (foip_status f) = phase empty_status
        \<or> CanTransition (phase empty_status) (phase (foip_status f))
        \<or> phase (foip_status f) \<in> {FailoverPhaseBlocked, FailoverPhaseDegraded}
        \<or> transition_id empty_status = '''' \<and> phase (foip_status f) = FailoverPhaseSelecting)"
proof -
  obtain f r where
    "EvPatchStatus (foip_with empty_status) f r \<in> set (calls_of (cluster_at 0 empty_status 12 only_b))"
    using start_call by blast
  then obtain pre post p where
    "steps (Reconcile operator_config ''ns'' ''ip'')
       (pre @ EvPatchStatus (foip_with empty_status) f r # post) p"
    "calls_of (cluster_at 0 empty_status 12 only_b)
       = pre @ EvPatchStatus (foip_with empty_status) f r # post"
    by (rule call_of_run)
  with phases_are_written_along_the_table [OF this(1)] show ?thesis by (simp only: foip_with_simps) blast
qed

text \<open>
  C3: A transition succeeds only from the cleanup phase and only when the target is the one node
  that reports the address.
\<close>

theorem success_means_a_single_owner:
  assumes "steps (Reconcile r ns name) (pre @ EvPatchStatus b f res # post) p"
    and "phase (foip_status f) = FailoverPhaseSucceeded"
    and "phase (foip_status b) \<noteq> FailoverPhaseSucceeded"
  shows "phase (foip_status b) = FailoverPhaseCleaningStaleOwners
    \<and> local_owners (foip_status f) = [target_node (foip_status f)]"
  using Reconcile_safe [OF assms(1)] assms(2,3) by (simp add: safe_patch single_owner_write_def)

theorem success_means_a_single_owner_witness:
  "\<exists>b f r. EvPatchStatus b f r \<in> set (calls_of (cluster_at t1 (st8\<lparr>local_owners := [''b'']\<rparr>) 12 only_b))
     \<and> phase (foip_status b) = FailoverPhaseCleaningStaleOwners
     \<and> local_owners (foip_status f) = [target_node (foip_status f)]"
proof -
  obtain f r where call: "EvPatchStatus (foip_with (st8\<lparr>local_owners := [''b'']\<rparr>)) f r
       \<in> set (calls_of (cluster_at t1 (st8\<lparr>local_owners := [''b'']\<rparr>) 12 only_b))"
    and ph: "phase (foip_status f) = FailoverPhaseSucceeded"
    using success_call by blast
  from call obtain pre post p where "steps (Reconcile operator_config ''ns'' ''ip'')
      (pre @ EvPatchStatus (foip_with (st8\<lparr>local_owners := [''b'']\<rparr>)) f r # post) p"
    by (rule call_of_run)
  moreover have "phase (foip_status (foip_with (st8\<lparr>local_owners := [''b'']\<rparr>)))
      \<noteq> FailoverPhaseSucceeded"
    by (simp add: statuses)
  ultimately show ?thesis
    using success_means_a_single_owner [OF _ ph] call by blast
qed

text \<open>
  C5: The target changes in three ways only.  It is adopted from the provider's owner while no
  target is set; it is handed over to the better ranked candidate, once that candidate has
  lasted through its window and the failures reached their threshold, and then the old target
  becomes the source and the reported owners are cleared; or the written object is one the
  server answered an earlier write of the run with.
\<close>

theorem target_changes_only_by_adoption_or_handover:
  assumes "steps (Reconcile r ns name) (pre @ EvPatchStatus b f res # post) p"
    and "target_node (foip_status f) \<noteq> target_node (foip_status b)"
  shows "adopts (set pre) (foip_status b) (foip_status f)
    \<or> hands_over (set pre) b (foip_status f) \<or> served_target (set pre) (foip_status f)"
  using Reconcile_safe [OF assms(1)] assms(2) by (auto simp: safe_patch target_write_ok_def)

theorem target_changes_only_by_adoption_or_handover_witness:
  "\<exists>pre post b f r. calls_of (cluster_at t1 st1 11 only_a) = pre @ EvPatchStatus b f r # post
     \<and> target_node (foip_status f) = ''b'' \<and> target_node (foip_status b) = ''a''
     \<and> (adopts (set pre) (foip_status b) (foip_status f)
        \<or> hands_over (set pre) b (foip_status f) \<or> served_target (set pre) (foip_status f))"
proof -
  obtain b f r where call: "EvPatchStatus b f r \<in> set (calls_of (cluster_at t1 st1 11 only_a))"
    and to: "target_node (foip_status f) = ''b''" "target_node (foip_status b) = ''a''"
    using switch_call by blast
  from call obtain pre post p where
    st: "steps (Reconcile operator_config ''ns'' ''ip'') (pre @ EvPatchStatus b f r # post) p"
    and eq: "calls_of (cluster_at t1 st1 11 only_a) = pre @ EvPatchStatus b f r # post"
    by (rule call_of_run)
  have "target_node (foip_status f) \<noteq> target_node (foip_status b)" using to by simp
  from target_changes_only_by_adoption_or_handover [OF st this] eq to show ?thesis by blast
qed

text \<open>
  C4: Ownership is committed only after traffic verification: the phase before is
  VerifyingTraffic, and in the same run the post-route probe gate passed or the policy
  CommitDegraded wrote its condition.
\<close>

theorem commit_requires_verified_traffic:
  assumes "steps (Reconcile r ns name) (pre @ EvPatchStatus b f res # post) p"
    and "phase (foip_status f) = FailoverPhaseCommitting"
    and "phase (foip_status b) \<noteq> FailoverPhaseCommitting"
  shows "phase (foip_status b) = FailoverPhaseVerifyingTraffic
    \<and> (gate_passed (set pre) b ProbePhasePostRoute
       \<or> (\<exists>base obj. EvPatchStatus base obj (Inr b) \<in> set pre
            \<and> spec_recovery_policy (foip_spec base) = RecoveryPolicyCommitDegraded))"
  using Reconcile_safe [OF assms(1)] assms(2,3)
  by (simp add: safe_patch commit_write_ok_def traffic_verified_def)

theorem commit_requires_verified_traffic_witness:
  "\<exists>pre post f r. calls_of (cluster_at t1 st6 12 both) = pre @ EvPatchStatus (foip_with st6) f r # post
     \<and> phase (foip_status f) = FailoverPhaseCommitting
     \<and> (gate_passed (set pre) (foip_with st6) ProbePhasePostRoute
       \<or> (\<exists>base obj. EvPatchStatus base obj (Inr (foip_with st6)) \<in> set pre
            \<and> spec_recovery_policy (foip_spec base) = RecoveryPolicyCommitDegraded))"
proof -
  obtain f r where call: "EvPatchStatus (foip_with st6) f r \<in> set (calls_of (cluster_at t1 st6 12 both))"
    and ph: "phase (foip_status f) = FailoverPhaseCommitting"
    using commit_call by blast
  from call obtain pre post p where
    st: "steps (Reconcile operator_config ''ns'' ''ip'') (pre @ EvPatchStatus (foip_with st6) f r # post) p"
    and eq: "calls_of (cluster_at t1 st6 12 both) = pre @ EvPatchStatus (foip_with st6) f r # post"
    by (rule call_of_run)
  have "phase (foip_status (foip_with st6)) \<noteq> FailoverPhaseCommitting"
    by (simp add: statuses)
  from commit_requires_verified_traffic [OF st ph this] eq ph show ?thesis by blast
qed

text \<open>
  C26: Convergence is recorded only as observed.  The status update that enters
  VerifyingProvider follows a read in which the provider reported the server id that the
  annotation of a node the run read carries.
\<close>

theorem convergence_is_observed:
  assumes "steps (Reconcile r ns name) (pre @ EvUpdateStatus f res # post) p"
  shows "phase (foip_status f) = FailoverPhaseVerifyingProvider
    \<and> last_successful_phase (foip_status f) = FailoverPhaseRoutingProvider
    \<and> (\<exists>node_read sid foipID. target_server (set pre) node_read sid \<and> provider_reported (set pre) foipID sid)"
  using Reconcile_safe [OF assms] by (simp add: safe_update provider_converged_def)

theorem convergence_is_observed_witness:
  "\<exists>pre post f r node_read sid foipID. calls_of (cluster_at t1 st4 11 both) = pre @ EvUpdateStatus f r # post
     \<and> target_server (set pre) node_read sid \<and> provider_reported (set pre) foipID sid"
  using converged_call convergence_is_observed by (metis call_of_run)

text \<open>
  A blocked or degraded transition that is not asked to resume stays as it is: the run reads
  the object, reports metrics, and comes back after the long interval without any other call.
\<close>

theorem halted_transitions_wait:
  assumes "phase (foip_status foip) \<in> {FailoverPhaseBlocked, FailoverPhaseDegraded}"
    and "transition_id (foip_status foip) \<noteq> ''''"
    and "ValidateFailoverIpSpec (foip_spec foip) = None"
    and "ValidateStatus (foip_status foip) = None"
    and "map_get (foip_annotations foip) ManualReconcileAnnotation
       \<in> {'''', manual_reconcile_token (foip_status foip)}"
    and "steps (Reconcile r ns name) (EvGetFailoverIp ns name (Inr foip) # es) (Return res)"
  shows "res = requeue (requeueAfter r) \<and> (\<exists>m1 m2 m3. es = [EvObserve m1, EvObserve m2, EvObserve m3])"
proof -
  have "reconcile_foip r ns foip = Return (requeue (requeueAfter r))"
    using assms(1-5) by (auto simp: reconcile_foip_def resume_halted_def Let_def)
  with assms(6) show ?thesis
    by (auto simp: Reconcile_def finish_reconcile_def steps_simps pstep_simps Let_def
        steps_observe steps_return)
qed

definition halted_foip :: failover_ip where
  "halted_foip = foip_with (empty_status\<lparr>transition_id := ''t'', phase := FailoverPhaseBlocked\<rparr>)"

theorem halted_transitions_wait_witness:
  "\<exists>res es. steps (Reconcile operator_config ''ns'' ''ip'')
       (EvGetFailoverIp ''ns'' ''ip'' (Inr halted_foip) # es) (Return res)
     \<and> res = requeue defaultRequeueTime \<and> length es = 3"
proof -
  let ?w = "cluster_at 0 (foip_status halted_foip) 12 only_b"
  let ?p = "Reconcile operator_config ''ns'' ''ip''"
  have valid: "ValidateStatus (foip_status halted_foip) = None"
    "phase (foip_status halted_foip) \<in> {FailoverPhaseBlocked, FailoverPhaseDegraded}"
    "transition_id (foip_status halted_foip) \<noteq> ''''"
    "ValidateFailoverIpSpec (foip_spec halted_foip) = None"
    "map_get (foip_annotations halted_foip) ManualReconcileAnnotation
       \<in> {'''', manual_reconcile_token (foip_status halted_foip)}"
    by (simp_all add: halted_foip_def ValidateStatus_def empty_status_def)
  have "\<exists>es. fst (run (cluster_env '''') ?p ?w) = EvGetFailoverIp ''ns'' ''ip'' (Inr halted_foip) # es"
    by (simp add: Reconcile_def cluster_calls logged_def halted_foip_def)
  then obtain es where es: "fst (run (cluster_env '''') ?p ?w)
      = EvGetFailoverIp ''ns'' ''ip'' (Inr halted_foip) # es" by blast
  from fst_run_steps [of ?p "cluster_env ''''" ?w]
  obtain res where run: "steps ?p (EvGetFailoverIp ''ns'' ''ip'' (Inr halted_foip) # es) (Return res)"
    unfolding es by blast
  from halted_transitions_wait [OF valid(2-4) valid(1) valid(5) run] run show ?thesis
    by (auto simp: operator_config_def SetupWithManager_def)
qed

text \<open>The commit makes the target its own source.\<close>

lemma commit_makes_target_its_source:
  assumes "steps (commit_and_clean r foip) (pre @ EvPatchStatus b f res # post) p"
    and "phase (foip_status foip) = FailoverPhaseCommitting"
  shows "source_node (foip_status f) = target_node (foip_status f)
    \<and> phase (foip_status f) = FailoverPhaseCleaningStaleOwners"
proof -
  have "wp (\<lambda>H e. case e of EvPatchStatus b f res \<Rightarrow>
      source_node (foip_status f) = target_node (foip_status f)
      \<and> phase (foip_status f) = FailoverPhaseCleaningStaleOwners | _ \<Rightarrow> True) always {} (commit_and_clean r foip)"
    using assms(2)
    by (auto simp: commit_and_clean_def advanceTransition_def AdvanceTransition_def patch_or_fail_def
        CanTransition_def split: sum.split)
  from wp_call [OF this assms(1)] show ?thesis by simp
qed

text \<open>
  C30: A cleanup that runs out of attempts cannot be retried as long as source and target are
  equal, and the commit leaves them equal.  The degraded status that the cleanup then writes is
  one that ValidateStatus rejects: whatever annotation asks for a manual retry, the next run blocks
  the transition instead.  Only if the target was replaced during the cleanup, so that source and
  target differ, the next run looks at the annotation.
\<close>

theorem cleanup_timeout_defeats_manual_retry:
  assumes "steps (clean_owners r foip now) (pre @ EvPatchStatus b f res # post) p"
    and "phase (foip_status f) = FailoverPhaseDegraded"
    and "phase (foip_status foip) = FailoverPhaseCleaningStaleOwners"
    and "transition_id (foip_status foip) \<noteq> ''''"
    and "target_node (foip_status foip) \<noteq> ''''"
    and "ValidateFailoverIpSpec (foip_spec foip) = None"
  shows "reconcile_foip r' ns (f\<lparr>foip_annotations := annotations\<rparr>) =
      (if source_node (foip_status foip) = target_node (foip_status foip)
       then block_invalid_status (f\<lparr>foip_annotations := annotations\<rparr>)
         (GoError (''source and target node are identical: '' @ target_node (foip_status foip)))
       else resume_halted r' (f\<lparr>foip_annotations := annotations\<rparr>))
    \<and> (\<forall>r0 foip0 pre0 b0 f0 res0 post0 p0.
         steps (commit_and_clean r0 foip0) (pre0 @ EvPatchStatus b0 f0 res0 # post0) p0
         \<longrightarrow> phase (foip_status foip0) = FailoverPhaseCommitting
         \<longrightarrow> source_node (foip_status f0) = target_node (foip_status f0)
           \<and> phase (foip_status f0) = FailoverPhaseCleaningStaleOwners)"
proof -
  have "wp (\<lambda>H e. case e of EvPatchStatus b f res \<Rightarrow>
      transition_id (foip_status f) = transition_id (foip_status foip)
      \<and> source_node (foip_status f) = source_node (foip_status foip)
      \<and> target_node (foip_status f) = target_node (foip_status foip)
      \<and> foip_spec f = foip_spec foip | _ \<Rightarrow> True) always {} (clean_owners r foip now)"
    by (simp add: clean_owners_def patch_or_fail_def Let_def split: sum.split)
  from wp_call [OF this assms(1)] have "reconcile_foip r' ns (f\<lparr>foip_annotations := annotations\<rparr>) =
      (if source_node (foip_status foip) = target_node (foip_status foip)
       then block_invalid_status (f\<lparr>foip_annotations := annotations\<rparr>)
         (GoError (''source and target node are identical: '' @ target_node (foip_status foip)))
       else resume_halted r' (f\<lparr>foip_annotations := annotations\<rparr>))"
    using assms(2,4-) by (auto simp: reconcile_foip_def ValidateStatus_def)
  then show ?thesis using commit_makes_target_its_source by blast
qed

definition exhausted :: failover_ip where
  "exhausted = foip_with (st8\<lparr>local_owners := [''a'', ''b''], cleanup_attempts := 1000\<rparr>)"

lemma cleanup_call:
  "\<exists>f r. EvPatchStatus exhausted f r
       \<in> set (fst (run (cluster_env '''') (clean_owners operator_config exhausted 0)
            (cluster_at t1 (foip_status exhausted) 12 both)))
     \<and> phase (foip_status f) = FailoverPhaseDegraded"
  by (simp add: clean_owners_def [THEN run_eq] run_rules exhausted_def statuses cleanupMaxAttempts_def
      wrap32_def foip_with_def empty_spec_def cong: run_congs)

theorem cleanup_timeout_defeats_manual_retry_witness:
  "\<exists>f r. EvPatchStatus exhausted f r
       \<in> set (fst (run (cluster_env '''') (clean_owners operator_config exhausted 0)
            (cluster_at t1 (foip_status exhausted) 12 both)))
     \<and> reconcile_foip operator_config ''ns'' (f\<lparr>foip_annotations := [(ManualReconcileAnnotation, ''again'')]\<rparr>)
         = block_invalid_status (f\<lparr>foip_annotations := [(ManualReconcileAnnotation, ''again'')]\<rparr>)
             (GoError (''source and target node are identical: '' @ target_node (foip_status exhausted)))"
proof -
  obtain f r where call: "EvPatchStatus exhausted f r
       \<in> set (fst (run (cluster_env '''') (clean_owners operator_config exhausted 0)
            (cluster_at t1 (foip_status exhausted) 12 both)))"
    and ph: "phase (foip_status f) = FailoverPhaseDegraded"
    using cleanup_call by blast
  from split_list [OF call] obtain pre post p where
    "steps (clean_owners operator_config exhausted 0) (pre @ EvPatchStatus exhausted f r # post) p"
    using fst_run_steps by metis
  from cleanup_timeout_defeats_manual_retry [OF this ph] call show ?thesis
    by (simp add: exhausted_def statuses) blast
qed

end
