(* ===== verification/Single_Mutation.thy ===== *)
theory Single_Mutation
  imports Controller_Properties
begin

text \<open>
  One run of the failover controller mutates the provider at most once.  The bound is read off the
  code: \<open>routes_within n\<close> says that code routes at most \<open>n\<close> times, whatever its environment
  answers, as long as the API server answers a status patch with the phase that was written.  That
  is so while the controller is the only writer of the phase, which leader election sees to.
\<close>

section \<open>Counting the mutations of a run\<close>

fun is_route :: "event \<Rightarrow> bool" where
  "is_route (EvRouteFailoverIP i s r) = True"
| "is_route _ = False"

definition keeps_phase :: "failover_ip \<Rightarrow> go_error + failover_ip \<Rightarrow> bool" where
  "keeps_phase written answer \<longleftrightarrow>
     (case answer of Inl e \<Rightarrow> True
      | Inr served \<Rightarrow> phase (foip_status served) = phase (foip_status written))"

text \<open>Every status patch of the run was answered with the phase it wrote.\<close>

definition phases_kept :: "event list \<Rightarrow> bool" where
  "phases_kept es \<longleftrightarrow> (\<forall>b f r. EvPatchStatus b f r \<in> set es \<longrightarrow> keeps_phase f r)"

primrec routes_within :: "nat \<Rightarrow> 'a prog \<Rightarrow> bool" where
  "routes_within n (Return x) \<longleftrightarrow> True"
| "routes_within n (Now k) \<longleftrightarrow> (\<forall>r. routes_within n (k r))"
| "routes_within n (GetFailoverIp ns name k) \<longleftrightarrow> (\<forall>r. routes_within n (k r))"
| "routes_within n (PatchStatus b f k) \<longleftrightarrow> (\<forall>r. keeps_phase f r \<longrightarrow> routes_within n (k r))"
| "routes_within n (UpdateStatus f k) \<longleftrightarrow> (\<forall>r. routes_within n (k r))"
| "routes_within n (GetSecret ns name k) \<longleftrightarrow> (\<forall>r. routes_within n (k r))"
| "routes_within n (ListNodes k) \<longleftrightarrow> (\<forall>r. routes_within n (k r))"
| "routes_within n (GetNode name k) \<longleftrightarrow> (\<forall>r. routes_within n (k r))"
| "routes_within n (GetProbe ns name k) \<longleftrightarrow> (\<forall>r. routes_within n (k r))"
| "routes_within n (PatchProbeStatus b p k) \<longleftrightarrow> (\<forall>r. routes_within n (k r))"
| "routes_within n (ExecuteProbe sp cred ca k) \<longleftrightarrow> (\<forall>r. routes_within n (k r))"
| "routes_within n (ExecuteKubernetes tgt k) \<longleftrightarrow> (\<forall>r. routes_within n (k r))"
| "routes_within n (NewClient uid tok p) \<longleftrightarrow> routes_within n p"
| "routes_within n (FindFailoverIP ip k) \<longleftrightarrow> (\<forall>r. routes_within n (k r))"
| "routes_within n (RouteFailoverIP i s k) \<longleftrightarrow> 0 < n \<and> (\<forall>r. routes_within (n - 1) (k r))"
| "routes_within n (WaitInterval d k) \<longleftrightarrow> (\<forall>r. routes_within n (k r))"
| "routes_within n (RandInt64N m k) \<longleftrightarrow> (\<forall>r. routes_within n (k r))"
| "routes_within n (NewUUID k) \<longleftrightarrow> (\<forall>r. routes_within n (k r))"
| "routes_within n (RecorderPresent k) \<longleftrightarrow> (\<forall>r. routes_within n (k r))"
| "routes_within n (ReadEvents k) \<longleftrightarrow> (\<forall>r. routes_within n (k r))"
| "routes_within n (WriteEvents d p) \<longleftrightarrow> routes_within n p"
| "routes_within n (RecordEvent f ty rs m p) \<longleftrightarrow> routes_within n p"
| "routes_within n (Observe ms p) \<longleftrightarrow> routes_within n p"
| "routes_within n (LinkList k) \<longleftrightarrow> (\<forall>r. routes_within n (k r))"
| "routes_within n (AddrList l k) \<longleftrightarrow> (\<forall>r. routes_within n (k r))"
| "routes_within n (AddrAdd l a k) \<longleftrightarrow> (\<forall>r. routes_within n (k r))"
| "routes_within n (AddrDel l a k) \<longleftrightarrow> (\<forall>r. routes_within n (k r))"

lemma routes_within_step:
  "pstep p e p' \<Longrightarrow> routes_within n p \<Longrightarrow> phases_kept [e] \<Longrightarrow>
     (if is_route e then 0 < n \<and> routes_within (n - 1) p' else routes_within n p')"
  by (induction rule: pstep.induct) (auto simp: phases_kept_def)

lemma routes_within_steps:
  "steps p es p' \<Longrightarrow> routes_within n p \<Longrightarrow> phases_kept es \<Longrightarrow> length (filter is_route es) \<le> n"
proof (induction arbitrary: n rule: steps.induct)
  case (more p e p' es p'')
  have kept: "phases_kept [e]" "phases_kept es" using more.prems(2) by (auto simp: phases_kept_def)
  from routes_within_step [OF more.hyps(1) more.prems(1) kept(1)] more.IH [OF _ kept(2)]
  show ?case by (auto split: if_splits) (metis Suc_pred le_simps(3) less_Suc_eq_le)
qed simp

lemma routes_within_mono: "routes_within n p \<Longrightarrow> n \<le> m \<Longrightarrow> routes_within m p"
proof (induction p arbitrary: n m)
  case (RouteFailoverIP i s k)
  then show ?case by (metis diff_le_mono less_le_trans rangeI routes_within.simps(15))
qed (simp_all, (meson rangeI)+)

lemma routes_within_bind:
  "routes_within n p \<Longrightarrow> (\<And>x. routes_within 0 (f x)) \<Longrightarrow> routes_within n (bind p f)"
proof (induction p arbitrary: n)
  case (Return x)
  then show ?case using routes_within_mono [of 0 "f x" n] by simp
qed (simp_all add: rangeI)

section \<open>The stretches of the method\<close>

named_theorems routes_simps "at most how often a stretch of the method routes"

lemma routes_patch [routes_simps]:
  "routes_within n (patch_or_fail b f k) \<longleftrightarrow>
     (\<forall>served. phase (foip_status served) = phase (foip_status f) \<longrightarrow> routes_within n (k served))"
  by (auto simp: patch_or_fail_def keeps_phase_def split: sum.split)

lemma routes_advance [routes_simps]:
  "routes_within n (advanceTransition foip to now k) \<longleftrightarrow>
     (\<forall>st. AdvanceTransition (foip_status foip) to now = Inr st \<longrightarrow>
        routes_within n (k (set_status foip st)))"
  by (auto simp: advanceTransition_def split: sum.split)

lemma routes_emitEvent [routes_simps]:
  "routes_within n (emitEvent foip ty rs m k) \<longleftrightarrow> routes_within n k"
proof
  assume "routes_within n (emitEvent foip ty rs m k)"
  then have "routes_within n (if False then eventAllowed foip ty rs m
      (\<lambda>allowed. if allowed then RecordEvent foip ty rs m k else k) else k)"
    unfolding emitEvent_def routes_within.simps by blast
  then show "routes_within n k" by simp
qed (auto simp: emitEvent_def eventAllowed_def Let_def split: prod.split)

lemma routes_persist [routes_simps]:
  "(\<And>res f. routes_within n (k False res f)) \<Longrightarrow>
     routes_within n (persistRecoveryState foip base ph message reason now k)"
  by (simp add: persistRecoveryState_def Let_def split: sum.split)

lemma routes_quiet_stretches [routes_simps]:
  "routes_within n (begin_transition foip)"
  "routes_within n (persistInvalidSpec foip e)"
  "routes_within n (block_invalid_status foip e)"
  "routes_within n (resume_halted r foip)"
  "routes_within n (block_fenced foip e)"
  "routes_within n (cancel_candidate foip)"
  "routes_within n (reopen_selection foip)"
  "routes_within n (open_window foip)"
  "routes_within n (switch_target foip better)"
  "routes_within n (defer_mutation foip t)"
  "routes_within n (route_failed foip e)"
  "routes_within n (clean_owners r foip now)"
  "routes_within n (succeed r foip)"
  "routes_within n (unexpected_phase foip)"
  by (simp_all add: begin_transition_def persistInvalidSpec_def block_invalid_status_def
      resume_halted_def block_fenced_def cancel_candidate_def reopen_selection_def open_window_def
      switch_target_def defer_mutation_def route_failed_def clean_owners_def succeed_def
      unexpected_phase_def Let_def routes_simps)

lemma routes_pursue [routes_simps]: "routes_within n (pursue_candidate foip better)"
  by (simp add: pursue_candidate_def Let_def routes_simps split: option.split)

lemma routes_commit [routes_simps]: "routes_within n (commit_and_clean r foip)"
  by (simp add: commit_and_clean_def routes_simps split: option.split)

lemma routes_credentials [routes_simps]:
  "routes_within n k \<Longrightarrow> routes_within n (with_credentials ns foip k)"
  by (simp add: with_credentials_def Let_def split: sum.split option.split)

lemma routes_observe [routes_simps]:
  "(\<And>f ob. routes_within n (k f ob)) \<Longrightarrow> routes_within n (observe_provider foip k)"
  by (simp add: observe_provider_def adopt_owner_def routes_simps split: sum.split option.split prod.split)

lemma routes_select [routes_simps]:
  "routes_within n k \<Longrightarrow> routes_within n (select_candidate foip ob k)"
  by (simp add: select_candidate_def routes_simps split: option.split)

lemma routes_resolve [routes_simps]:
  "(\<And>sid. routes_within n (k sid)) \<Longrightarrow> routes_within n (resolve_target r foip k)"
  by (simp add: resolve_target_def Let_def split: sum.split option.split)

section \<open>Probe gates\<close>

lemma routes_judge:
  assumes "\<And>x. routes_within n (k x)"
  shows "routes_within n (judge_probe w foip resource resolved k)"
  using assms
  by (simp add: judge_probe_def load_ca_bundle_def execute_resolved_def persistProbeObservation_def
      Let_def split: sum.split option.split prod.split)

lemma routes_resolveSpec:
  "(\<And>x. routes_within n (k x)) \<Longrightarrow> routes_within n (resolveProbeSpec foip spec k)"
  by (simp add: resolveProbeSpec_def Let_def split: sum.split)

lemma routes_refs:
  assumes "\<And>x. routes_within n (k x)"
  shows "routes_within n (evaluate_refs w foip ph refs pc quo rcomp rquo results k)"
  using assms
proof (induction refs arbitrary: pc quo rcomp rquo results)
  case (Cons ref refs)
  have refs: "routes_within n (evaluate_refs w foip ph refs pc' quo' rc' rq' res k)"
    for pc' quo' rc' rq' res
    by (rule Cons.IH [OF Cons.prems])
  show ?case
    unfolding evaluate_refs.simps routes_within.simps Let_def
    by (intro allI)
      (simp add: Cons.prems refs routes_judge routes_resolveSpec split: sum.split)
qed simp

lemma routes_gate [routes_simps]:
  "(\<And>x. routes_within n (k x)) \<Longrightarrow> routes_within n (evaluateProbePhase w foip ph k)"
  by (simp add: evaluateProbePhase_def Let_def routes_refs)

lemma routes_prepare [routes_simps]:
  "routes_within n k \<Longrightarrow> routes_within n (prepare_target foip k)"
  by (simp add: prepare_target_def routes_simps split: option.split)

section \<open>Routing and recovery\<close>

lemma routes_verify_route:
  "(\<And>b. routes_within n (k b)) \<Longrightarrow> routes_within n (verify_route m ip sid k)"
  by (induction m) (auto split: sum.split option.split)

text \<open>After a route the run goes on only in the phase in which it routed.\<close>

lemma routes_mutate:
  assumes "phase (foip_status foip) = FailoverPhaseRoutingProvider"
    and k: "\<And>f. phase (foip_status f) = FailoverPhaseRoutingProvider \<Longrightarrow> routes_within 0 (k f)"
  shows "routes_within (Suc 0) (mutate_route foip foipID sid k)"
  using assms
  by (auto simp: mutate_route_def Let_def routes_simps intro!: routes_verify_route k
      split: option.split)

lemma routes_route [routes_simps]:
  assumes "\<And>f. phase (foip_status f) = FailoverPhaseRoutingProvider \<Longrightarrow> routes_within 0 (k f)"
    and "routes_within (Suc 0) (k foip)"
  shows "routes_within (Suc 0) (route_provider foip ob sid k)"
  using assms
  by (auto simp: route_provider_def routes_simps intro!: routes_mutate split: prod.split)

lemma routes_recover:
  assumes stop: "\<And>res f. routes_within 0 (k False res f)"
    and go: "\<And>res f. routes_within 0 (k True res f)"
  shows "routes_within (Suc 0) (recoverPostRouteFailure foip foipID k)"
proof -
  have stop1: "routes_within (Suc 0) (k False res f)" for res f
    using routes_within_mono [OF stop] by simp
  have go1: "routes_within (Suc 0) (k True res f)" for res f using routes_within_mono [OF go] by simp
  have "routes_within (Suc 0) (rollback_route f b i s now k)" for f b i s now
    by (auto simp: rollback_route_def Let_def stop1 intro!: routes_persist stop
        split: sum.split option.split)
  then have "routes_within (Suc 0) (rollback_provider f b i now k)" for f b i now
    by (auto simp: rollback_provider_def rollback_gated_def Let_def stop1 intro!: routes_persist
        split: sum.split option.split prod.split)
  then show ?thesis
    by (auto simp: recoverPostRouteFailure_def Let_def routes_emitEvent commit_degraded_def
        manual_intervention_def stop1 go1 intro!: routes_persist
        split: sum.split recovery_policy.split)
qed

lemma routes_traffic:
  "routes_within (Suc 0) (verify_traffic foip ob (commit_and_clean r))"
  by (auto simp: verify_traffic_def intro!: routes_gate routes_recover routes_commit
      split: option.split)

lemma routes_handoff: "routes_within (Suc 0) (handoff r foip ob)"
proof -
  have "routes_within 0 (verify_provider f ob sid k)"
    if "phase (foip_status f) = FailoverPhaseRoutingProvider" for f sid k
    using that by (simp add: verify_provider_def routes_simps split: sum.split)
  moreover have "routes_within (Suc 0) (verify_provider f ob sid (verify_traffic f ob (commit_and_clean r)))"
    for f sid
    by (simp add: verify_provider_def routes_simps routes_traffic split: sum.split)
  ultimately show ?thesis
    unfolding handoff_def by (intro routes_resolve routes_prepare routes_route)
qed

lemma routes_Reconcile: "routes_within (Suc 0) (Reconcile r ns name)"
proof -
  have finish: "routes_within n (finish_reconcile ph res)" for n ph res
    by (simp add: finish_reconcile_def)
  have "routes_within (Suc 0) (reconcile_foip r ns foip)" for foip
    by (auto simp: reconcile_foip_def intro!: routes_simps routes_handoff split: option.split)
  then show ?thesis
    by (auto simp: Reconcile_def Let_def intro!: finish routes_within_bind split: sum.split)
qed

section \<open>Property\<close>

text \<open>
  C7: A run of the failover controller mutates the provider at most once, whatever phase it starts
  in and whichever recovery policy applies: a forward route and a rollback never fall into the same
  run.  The API server must answer each status patch with the phase that was written.
\<close>

theorem at_most_one_mutation_per_run:
  assumes "steps (Reconcile r ns name) es p" "phases_kept es"
  shows "length (filter is_route es) \<le> 1"
  using routes_within_steps [OF assms(1) routes_Reconcile assms(2)] by simp

theorem at_most_one_mutation_per_run_witness:
  "phases_kept (calls_of (cluster_at t1 st4 11 both))
   \<and> length (filter is_route (calls_of (cluster_at t1 st4 11 both))) = 1"
proof -
  have kept: "phases_kept (calls_of (cluster_at t1 st4 11 both))"
    by (simp add: phases_kept_def keeps_phase_def controller_run_def run_rules status_rules statuses
        cong: run_congs)
  obtain pre post p where st: "steps (Reconcile operator_config ''ns'' ''ip'')
      (pre @ EvRouteFailoverIP 1 12 None # post) p"
    and eq: "calls_of (cluster_at t1 st4 11 both) = pre @ EvRouteFailoverIP 1 12 None # post"
    using routing_call by (rule call_of_run)
  from at_most_one_mutation_per_run [OF st] kept eq
  have "length (filter is_route (calls_of (cluster_at t1 st4 11 both))) \<le> 1" by simp
  moreover have "length (filter is_route (calls_of (cluster_at t1 st4 11 both))) \<ge> 1"
    using eq by simp
  ultimately show ?thesis using kept by simp
qed

end
