(* ===== verification/Network_Policy.thy ===== *)
theory Network_Policy
  imports Url Api_Types
begin

text \<open>
  The network policy of the probes (\<open>internal/probe/policy.go\<close>), as far as it computes: networks
  in CIDR notation, the networks that are blocked by default, the host of a target, and which
  resolved addresses a probe may reach.
\<close>

unbundle bit_operations_syntax

section \<open>Networks\<close>

record ip_network =
  net_ip :: ip
  net_mask :: ip

definition cidr_mask :: "nat \<Rightarrow> nat \<Rightarrow> ip" where
  "cidr_mask ones bits =
     map (\<lambda>i. if ones \<ge> 8 * i + 8 then 255 else if ones \<le> 8 * i then 0
               else of_nat (256 - 2 ^ (8 - (ones - 8 * i)))) [0..<bits div 8]"

definition masked :: "ip \<Rightarrow> ip \<Rightarrow> ip" where
  "masked a m = map2 (AND) a m"

text \<open>\<open>IPNet.Contains\<close>: an IPv4 network compares IPv4 addresses, with the last four bytes of its mask.\<close>

definition number_and_mask :: "ip_network \<Rightarrow> ip \<times> ip" where
  "number_and_mask n =
     (case to4 (net_ip n) of
        Some a \<Rightarrow>
          if length (net_mask n) = 4 then (a, net_mask n)
          else if length (net_mask n) = 16 then (a, drop 12 (net_mask n)) else ([], [])
      | None \<Rightarrow>
          if length (net_ip n) = 16 \<and> length (net_mask n) = 16 then (net_ip n, net_mask n)
          else ([], []))"

definition network_contains :: "ip_network \<Rightarrow> ip \<Rightarrow> bool" where
  "network_contains n a =
     (let (number, m) = number_and_mask n;
          x = (case to4 a of Some b \<Rightarrow> b | None \<Rightarrow> a)
      in length x = length number \<and> masked number m = masked x m)"

text \<open>\<open>IP.Mask\<close>; \<open>None\<close> is the nil address.\<close>

definition mask_ip :: "ip \<Rightarrow> ip \<Rightarrow> ip option" where
  "mask_ip a m =
     (let m' = (if length m = 16 \<and> length a = 4 \<and> take 12 m = replicate 12 255 then drop 12 m else m);
          a' = (if length m' = 4 \<and> length a = 16 \<and> take 12 a = v4_in_v6_prefix then drop 12 a else a)
      in if length a' = length m' then Some (masked a' m') else None)"

text \<open>\<open>net.ParseCIDR\<close>, its network.\<close>

definition parse_cidr :: "string \<Rightarrow> ip_network option" where
  "parse_cidr s =
     (case cut (CHR ''/'') s of (addr, width, found) \<Rightarrow>
        if \<not> found then None
        else case parse_addr addr of None \<Rightarrow> None
          | Some a \<Rightarrow>
              (case (if width = [] then None else digits_value 0 width) of
                 None \<Rightarrow> None
               | Some n \<Rightarrow>
                   if n > 8 * length a then None
                   else
                     let m = cidr_mask n (8 * length a);
                         addr16 = (if length a = 4 then v4_in_v6_prefix @ a else a)
                     in case mask_ip addr16 m of
                          None \<Rightarrow> None
                        | Some b \<Rightarrow> Some \<lparr> net_ip = b, net_mask = m \<rparr>))"

section \<open>The policy\<close>

definition blocked_network :: "string \<Rightarrow> nat \<Rightarrow> nat \<Rightarrow> ip_network" where
  "blocked_network s ones bits =
     \<lparr> net_ip = (case parse_ip s of Some a \<Rightarrow> a | None \<Rightarrow> []), net_mask = cidr_mask ones bits \<rparr>"

definition blockedNetworks :: "ip_network list" where
  "blockedNetworks =
     [blocked_network ''127.0.0.0'' 8 32, blocked_network ''10.0.0.0'' 8 32,
      blocked_network ''172.16.0.0'' 12 32, blocked_network ''192.168.0.0'' 16 32,
      blocked_network ''169.254.0.0'' 16 32, blocked_network ''100.64.0.0'' 10 32,
      blocked_network ''224.0.0.0'' 4 32, blocked_network ''::1'' 128 128,
      blocked_network ''fc00::'' 7 128, blocked_network ''fe80::'' 10 128]"

definition isBlocked :: "ip \<Rightarrow> bool" where
  "isBlocked a \<longleftrightarrow> list_ex (\<lambda>n. network_contains n a) blockedNetworks"

definition containsIP :: "ip_network list \<Rightarrow> ip \<Rightarrow> bool" where
  "containsIP networks a \<longleftrightarrow> list_ex (\<lambda>n. network_contains n a) networks"

fun parseCIDRs :: "string list \<Rightarrow> go_error + ip_network list" where
  "parseCIDRs [] = Inr []"
| "parseCIDRs (v # vs) =
     (case parse_cidr v of
        None \<Rightarrow> Inl (GoError (''invalid probe CIDR '' @ quote v))
      | Some n \<Rightarrow> (case parseCIDRs vs of Inl e \<Rightarrow> Inl e | Inr ns \<Rightarrow> Inr (n # ns)))"

definition targetHostname :: "string \<Rightarrow> go_error + string" where
  "targetHostname address =
     (case url_parse address of
        Some u \<Rightarrow>
          if url_scheme u \<noteq> '''' then
            (if url_user u then Inl (GoError ''probe target userinfo is not allowed'')
             else if url_hostname u = '''' then Inl (GoError ''probe target URL has no host'')
             else Inr (url_hostname u))
          else Inr address
      | None \<Rightarrow> Inr address)"

text \<open>The loop over the resolved addresses: the first one that may not be reached fails them all.\<close>

fun judge_ips ::
  "probe_network_policy \<Rightarrow> ip_network list \<Rightarrow> ip_network list \<Rightarrow> ip list \<Rightarrow> go_error option" where
  "judge_ips policy allowed denied [] = None"
| "judge_ips policy allowed denied (a # as) =
     (if list_ex (\<lambda>n. network_contains n a) denied then
        Some (GoError ''probe target resolves to denied network'')
      else if \<not> allow_private_networks policy \<and> isBlocked a \<and> \<not> containsIP allowed a then
        Some (GoError ''probe target resolves to a sensitive network'')
      else judge_ips policy allowed denied as)"

definition allowed_ips :: "probe_network_policy \<Rightarrow> ip list \<Rightarrow> go_error + ip list" where
  "allowed_ips policy ips =
     (case parseCIDRs (allowed_cidrs policy) of Inl e \<Rightarrow> Inl e
      | Inr allowed \<Rightarrow>
          (case parseCIDRs (denied_cidrs policy) of Inl e \<Rightarrow> Inl e
           | Inr denied \<Rightarrow>
               (case judge_ips policy allowed denied ips of Some e \<Rightarrow> Inl e | None \<Rightarrow> Inr ips)))"

section \<open>The blocked networks\<close>

lemma byte_ranges:
  fixes x :: "8 word"
  shows "x AND 240 = 16 \<longleftrightarrow> 16 \<le> x \<and> x \<le> 31" "x AND 192 = 64 \<longleftrightarrow> 64 \<le> x \<and> x \<le> 127"
    "x AND 240 = 224 \<longleftrightarrow> 224 \<le> x \<and> x \<le> 239" "x AND 255 = x" "x AND 254 = 252 \<longleftrightarrow> 252 \<le> x \<and> x \<le> 253"
    "x AND 192 = 128 \<longleftrightarrow> 128 \<le> x \<and> x \<le> 191"
proof -
  have "\<forall>n \<in> set [0..255]. let x = word_of_int n :: 8 word in
      (x AND 240 = 16 \<longleftrightarrow> 16 \<le> x \<and> x \<le> 31) \<and> (x AND 192 = 64 \<longleftrightarrow> 64 \<le> x \<and> x \<le> 127)
      \<and> (x AND 240 = 224 \<longleftrightarrow> 224 \<le> x \<and> x \<le> 239) \<and> x AND 255 = x
      \<and> (x AND 254 = 252 \<longleftrightarrow> 252 \<le> x \<and> x \<le> 253) \<and> (x AND 192 = 128 \<longleftrightarrow> 128 \<le> x \<and> x \<le> 191)"
    by code_simp
  moreover have "uint x < 2 ^ LENGTH(8)" by (rule unsigned_less)
  then have "uint x \<in> set [0..255]" by simp
  ultimately have "let x = word_of_int (uint x) :: 8 word in
      (x AND 240 = 16 \<longleftrightarrow> 16 \<le> x \<and> x \<le> 31) \<and> (x AND 192 = 64 \<longleftrightarrow> 64 \<le> x \<and> x \<le> 127)
      \<and> (x AND 240 = 224 \<longleftrightarrow> 224 \<le> x \<and> x \<le> 239) \<and> x AND 255 = x
      \<and> (x AND 254 = 252 \<longleftrightarrow> 252 \<le> x \<and> x \<le> 253) \<and> (x AND 192 = 128 \<longleftrightarrow> 128 \<le> x \<and> x \<le> 191)"
    by blast
  then show "x AND 240 = 16 \<longleftrightarrow> 16 \<le> x \<and> x \<le> 31" "x AND 192 = 64 \<longleftrightarrow> 64 \<le> x \<and> x \<le> 127"
    "x AND 240 = 224 \<longleftrightarrow> 224 \<le> x \<and> x \<le> 239" "x AND 255 = x" "x AND 254 = 252 \<longleftrightarrow> 252 \<le> x \<and> x \<le> 253"
    "x AND 192 = 128 \<longleftrightarrow> 128 \<le> x \<and> x \<le> 191"
    by (simp_all add: Let_def)
qed

definition blocked_v4 :: "8 word \<Rightarrow> 8 word \<Rightarrow> bool" where
  "blocked_v4 a b \<longleftrightarrow>
     a = 127 \<or> a = 10 \<or> a = 172 \<and> 16 \<le> b \<and> b \<le> 31 \<or> a = 192 \<and> b = 168 \<or> a = 169 \<and> b = 254
     \<or> a = 100 \<and> 64 \<le> b \<and> b \<le> 127 \<or> 224 \<le> a \<and> a \<le> 239"

lemma v6_groups:
  "ipv6_groups ''1'' [] (Some 0) = Some ([0, 1], Some 0, [])"
  "ipv6_groups ''fc00::'' [] None = Some ([252, 0], Some 2, [])"
  "ipv6_groups ''fe80::'' [] None = Some ([254, 128], Some 2, [])"
  by (subst ipv6_groups.simps, simp add: hex_value_def Let_def)+

lemma blocked_addresses:
  "parse_ip ''127.0.0.0'' = Some (v4_in_v6_prefix @ [127, 0, 0, 0])"
  "parse_ip ''10.0.0.0'' = Some (v4_in_v6_prefix @ [10, 0, 0, 0])"
  "parse_ip ''172.16.0.0'' = Some (v4_in_v6_prefix @ [172, 16, 0, 0])"
  "parse_ip ''192.168.0.0'' = Some (v4_in_v6_prefix @ [192, 168, 0, 0])"
  "parse_ip ''169.254.0.0'' = Some (v4_in_v6_prefix @ [169, 254, 0, 0])"
  "parse_ip ''100.64.0.0'' = Some (v4_in_v6_prefix @ [100, 64, 0, 0])"
  "parse_ip ''224.0.0.0'' = Some (v4_in_v6_prefix @ [224, 0, 0, 0])"
  "parse_ip ''::1'' = Some (replicate 14 0 @ [0, 1])"
  "parse_ip ''fc00::'' = Some ([252, 0] @ replicate 14 0)"
  "parse_ip ''fe80::'' = Some ([254, 128] @ replicate 14 0)"
  by (simp_all add: parse_ip_def parse_addr_def parse_ipv4_def parse_octet_def digit_value_def
      parse_ipv6_def v6_groups Let_def)

lemma cidr_masks:
  "cidr_mask 8 32 = [255, 0, 0, 0]" "cidr_mask 12 32 = [255, 240, 0, 0]"
  "cidr_mask 16 32 = [255, 255, 0, 0]" "cidr_mask 10 32 = [255, 192, 0, 0]"
  "cidr_mask 4 32 = [240, 0, 0, 0]" "cidr_mask 128 128 = replicate 16 255"
  "cidr_mask 7 128 = 254 # replicate 15 0" "cidr_mask 10 128 = [255, 192] @ replicate 14 0"
  by code_simp+

lemma blocked_list:
  "blockedNetworks =
     [\<lparr> net_ip = v4_in_v6_prefix @ [127, 0, 0, 0], net_mask = [255, 0, 0, 0] \<rparr>,
      \<lparr> net_ip = v4_in_v6_prefix @ [10, 0, 0, 0], net_mask = [255, 0, 0, 0] \<rparr>,
      \<lparr> net_ip = v4_in_v6_prefix @ [172, 16, 0, 0], net_mask = [255, 240, 0, 0] \<rparr>,
      \<lparr> net_ip = v4_in_v6_prefix @ [192, 168, 0, 0], net_mask = [255, 255, 0, 0] \<rparr>,
      \<lparr> net_ip = v4_in_v6_prefix @ [169, 254, 0, 0], net_mask = [255, 255, 0, 0] \<rparr>,
      \<lparr> net_ip = v4_in_v6_prefix @ [100, 64, 0, 0], net_mask = [255, 192, 0, 0] \<rparr>,
      \<lparr> net_ip = v4_in_v6_prefix @ [224, 0, 0, 0], net_mask = [240, 0, 0, 0] \<rparr>,
      \<lparr> net_ip = replicate 14 0 @ [0, 1], net_mask = replicate 16 255 \<rparr>,
      \<lparr> net_ip = [252, 0] @ replicate 14 0, net_mask = 254 # replicate 15 0 \<rparr>,
      \<lparr> net_ip = [254, 128] @ replicate 14 0, net_mask = [255, 192] @ replicate 14 0 \<rparr>]"
  by (simp only: blockedNetworks_def blocked_network_def blocked_addresses cidr_masks option.case)

lemma length_4: "length a = 4 \<longleftrightarrow> (\<exists>p q r s. a = [p, q, r, s])"
  by (auto simp: length_Suc_conv numeral_eq_Suc)

lemma to4_length: "to4 a = Some b \<Longrightarrow> length b = 4"
  by (auto simp: to4_def split: if_splits)

lemma to4_mapped [simp]: "length b = 4 \<Longrightarrow> to4 (v4_in_v6_prefix @ b) = Some b"
  by (simp add: to4_def v4_in_v6_prefix_def)

lemma contains_v4:
  assumes "to4 a = Some [p, q, r, s]"
  shows "network_contains \<lparr> net_ip = v4_in_v6_prefix @ [w, x, y, z], net_mask = [k, l, m, n] \<rparr> a \<longleftrightarrow>
    w AND k = p AND k \<and> x AND l = q AND l \<and> y AND m = r AND m \<and> z AND n = s AND n"
  by (simp add: network_contains_def number_and_mask_def assms masked_def)

lemma contains_v6_v4:
  assumes "to4 a = Some b" "to4 i = None"
  shows "\<not> network_contains \<lparr> net_ip = i, net_mask = m \<rparr> a"
  using assms to4_length [OF assms(1)] by (auto simp: network_contains_def number_and_mask_def)

lemma v6_networks: "to4 (replicate 14 0 @ [0, 1]) = None" "to4 ([252, 0] @ replicate 14 0) = None"
  "to4 ([254, 128] @ replicate 14 0) = None"
  by code_simp+

lemma isBlocked_v4:
  assumes "to4 a = Some [p, q, r, s]"
  shows "isBlocked a \<longleftrightarrow> blocked_v4 p q"
  unfolding isBlocked_def blocked_list
  using contains_v6_v4 [OF assms] v6_networks
  by (auto simp: contains_v4 [OF assms] blocked_v4_def byte_ranges)

text \<open>
  The addresses of these networks, spelled out: loopback, private, link-local, shared and
  multicast IPv4 addresses, and the loopback, unique local and link-local IPv6 addresses.
\<close>

definition sensitive_v6 :: "ip \<Rightarrow> bool" where
  "sensitive_v6 a \<longleftrightarrow> length a = 16
     \<and> (a = replicate 15 0 @ [1] \<or> a ! 0 = 252 \<or> a ! 0 = 253
        \<or> a ! 0 = 254 \<and> 128 \<le> a ! 1 \<and> a ! 1 \<le> 191)"

definition sensitive :: "ip \<Rightarrow> bool" where
  "sensitive a \<longleftrightarrow>
     (case to4 a of Some b \<Rightarrow> blocked_v4 (b ! 0) (b ! 1) | None \<Rightarrow> sensitive_v6 a)"

lemma contains_v6:
  assumes "to4 i = None" "length i = 16" "length m = 16" "to4 a = None"
  shows "network_contains \<lparr> net_ip = i, net_mask = m \<rparr> a \<longleftrightarrow> length a = 16 \<and> masked i m = masked a m"
  using assms by (simp add: network_contains_def number_and_mask_def)

lemma contains_v4_v6:
  assumes "to4 a = None" "length b = 4"
  shows "\<not> network_contains \<lparr> net_ip = v4_in_v6_prefix @ b, net_mask = [k, l, m, n] \<rparr> a"
proof -
  have "length a \<noteq> 4" using assms(1) by (auto simp: to4_def)
  then show ?thesis using assms by (simp add: network_contains_def number_and_mask_def)
qed

lemma length_16: "length a = 16 \<longleftrightarrow> (\<exists>a0 a1 a2 a3 a4 a5 a6 a7 a8 a9 a10 a11 a12 a13 a14 a15.
    a = [a0, a1, a2, a3, a4, a5, a6, a7, a8, a9, a10, a11, a12, a13, a14, a15])"
  by (auto simp: length_Suc_conv numeral_eq_Suc)

lemma v6_masks:
  assumes "length a = 16"
  shows "masked (replicate 14 0 @ [0, 1]) (replicate 16 255) = masked a (replicate 16 255)
      \<longleftrightarrow> a = replicate 15 0 @ [1]"
    and "masked ([252, 0] @ replicate 14 0) (254 # replicate 15 0) = masked a (254 # replicate 15 0)
      \<longleftrightarrow> a ! 0 = 252 \<or> a ! 0 = 253"
    and "masked ([254, 128] @ replicate 14 0) ([255, 192] @ replicate 14 0)
        = masked a ([255, 192] @ replicate 14 0)
      \<longleftrightarrow> a ! 0 = 254 \<and> 128 \<le> a ! 1 \<and> a ! 1 \<le> 191"
proof -
  have rep: "replicate 14 x = [x, x, x, x, x, x, x, x, x, x, x, x, x, x]" for x :: "8 word"
    by (simp add: numeral_eq_Suc)
  have rep15: "replicate 15 x = x # replicate 14 x" "replicate 16 x = x # x # replicate 14 x"
    for x :: "8 word"
    by (simp_all add: numeral_eq_Suc)
  have eq: "252 = x AND 254 \<longleftrightarrow> x = 252 \<or> x = 253" "128 = x AND 192 \<longleftrightarrow> 128 \<le> x \<and> x \<le> 191"
    "c = x AND 255 \<longleftrightarrow> x = c" for x c :: "8 word"
  proof -
    have "252 \<le> x \<and> x \<le> 253 \<longleftrightarrow> x = 252 \<or> x = 253"
      unfolding word_le_nat_alt word_unat_eq_iff by (simp, arith)
    then show "252 = x AND 254 \<longleftrightarrow> x = 252 \<or> x = 253" using byte_ranges(5) [of x] by auto
    show "128 = x AND 192 \<longleftrightarrow> 128 \<le> x \<and> x \<le> 191" using byte_ranges(6) [of x] by auto
    show "c = x AND 255 \<longleftrightarrow> x = c" using byte_ranges(4) [of x] by auto
  qed
  obtain a0 a1 a2 a3 a4 a5 a6 a7 a8 a9 a10 a11 a12 a13 a14 a15 where
    a: "a = [a0, a1, a2, a3, a4, a5, a6, a7, a8, a9, a10, a11, a12, a13, a14, a15]"
    using assms unfolding length_16 by blast
  show "masked (replicate 14 0 @ [0, 1]) (replicate 16 255) = masked a (replicate 16 255)
      \<longleftrightarrow> a = replicate 15 0 @ [1]"
    by (simp add: a masked_def rep rep15 byte_ranges(4))
  show "masked ([252, 0] @ replicate 14 0) (254 # replicate 15 0) = masked a (254 # replicate 15 0)
      \<longleftrightarrow> a ! 0 = 252 \<or> a ! 0 = 253"
    by (simp add: a masked_def rep rep15 eq)
  show "masked ([254, 128] @ replicate 14 0) ([255, 192] @ replicate 14 0)
        = masked a ([255, 192] @ replicate 14 0)
      \<longleftrightarrow> a ! 0 = 254 \<and> 128 \<le> a ! 1 \<and> a ! 1 \<le> 191"
    by (simp add: a masked_def rep eq)
qed

lemma isBlocked_sensitive: "isBlocked a \<longleftrightarrow> sensitive a"
proof (cases "to4 a")
  case (Some b)
  then obtain p q r s where "b = [p, q, r, s]" using to4_length [OF Some] by (auto simp: length_4)
  with Some show ?thesis by (simp add: isBlocked_v4 sensitive_def)
next
  case None
  have len: "length (replicate 14 0 @ [0, 1 :: 8 word]) = 16" "length (replicate 16 (255 :: 8 word)) = 16"
    "length ([252, 0 :: 8 word] @ replicate 14 0) = 16" "length (254 # replicate 15 (0 :: 8 word)) = 16"
    "length ([254, 128 :: 8 word] @ replicate 14 0) = 16"
    "length ([255, 192 :: 8 word] @ replicate 14 0) = 16"
    by simp_all
  note v6 = contains_v6 [OF v6_networks(1) len(1,2) None] contains_v6 [OF v6_networks(2) len(3,4) None]
    contains_v6 [OF v6_networks(3) len(5,6) None]
  have v4: "\<not> network_contains \<lparr> net_ip = v4_in_v6_prefix @ [x, y, z, w], net_mask = [k, l, m, n] \<rparr> a"
    for x y z w k l m n
    by (rule contains_v4_v6 [OF None]) simp
  have "sensitive a \<longleftrightarrow> sensitive_v6 a" using None by (simp add: sensitive_def)
  then show ?thesis
    unfolding isBlocked_def blocked_list sensitive_v6_def
    using v6_masks [of a] by (simp only: list_ex_Nil_iff list_ex_Cons_iff v4 v6 simp_thms) blast
qed

section \<open>What the policy lets through\<close>

text \<open>An address the policy lets a probe reach.\<close>

definition permitted :: "probe_network_policy \<Rightarrow> ip \<Rightarrow> bool" where
  "permitted policy a \<longleftrightarrow>
     (\<exists>allowed denied. parseCIDRs (allowed_cidrs policy) = Inr allowed
        \<and> parseCIDRs (denied_cidrs policy) = Inr denied
        \<and> \<not> containsIP denied a
        \<and> (allow_private_networks policy \<or> \<not> sensitive a \<or> containsIP allowed a))"

lemma judge_ips_iff:
  "judge_ips policy allowed denied ips = None \<longleftrightarrow>
     (\<forall>a \<in> set ips. \<not> containsIP denied a
        \<and> (allow_private_networks policy \<or> \<not> sensitive a \<or> containsIP allowed a))"
  by (induction ips) (auto simp: containsIP_def isBlocked_sensitive)

lemma allowed_ips_permitted:
  "allowed_ips policy ips = Inr as \<Longrightarrow> as = ips \<and> (\<forall>a \<in> set ips. permitted policy a)"
  by (auto simp: allowed_ips_def permitted_def judge_ips_iff split: sum.splits option.splits)

lemma allowed_ips_iff:
  assumes "ips \<noteq> []"
  shows "allowed_ips policy ips = Inr ips \<longleftrightarrow> (\<forall>a \<in> set ips. permitted policy a)"
proof -
  obtain a where a: "a \<in> set ips" using assms by (cases ips) auto
  show ?thesis
  proof (cases "parseCIDRs (allowed_cidrs policy)")
    case (Inr allowed)
    show ?thesis
    proof (cases "parseCIDRs (denied_cidrs policy)")
      case den: (Inr denied)
      show ?thesis
        using judge_ips_iff [of policy allowed denied ips] Inr den
        by (cases "judge_ips policy allowed denied ips")
          (auto simp only: allowed_ips_def permitted_def sum.case option.case sum.inject simp_thms)
    qed (use a Inr in \<open>auto simp: allowed_ips_def permitted_def\<close>)
  qed (use a in \<open>auto simp: allowed_ips_def permitted_def\<close>)
qed

section \<open>Well-formed networks\<close>

text \<open>An address and a mask of the same length, that of one of the two families.\<close>

definition network_ok :: "ip_network \<Rightarrow> bool" where
  "network_ok n \<longleftrightarrow> length (net_ip n) = length (net_mask n) \<and> length (net_mask n) \<in> {4, 16}"

lemma parse_addr_length: "parse_addr s = Some a \<Longrightarrow> length a = 4 \<or> length a = 16"
  by (auto simp: parse_addr_def split: option.splits if_splits dest: parse_ipv4_length parse_ipv6_length)

lemma cidr_mask_length [simp]: "length (cidr_mask ones (8 * k)) = k"
  by (simp add: cidr_mask_def)

lemma masked_length [simp]: "length (masked a m) = min (length a) (length m)"
  by (simp add: masked_def)

lemma masked_masked: "masked (masked a m) m = masked a m"
proof (induction a arbitrary: m)
  case (Cons x a)
  then show ?case by (cases m) (simp_all add: masked_def and.assoc)
qed (simp add: masked_def)

lemma mask_v4: "length a = 4 \<Longrightarrow> length m = 4 \<Longrightarrow> mask_ip (v4_in_v6_prefix @ a) m = Some (masked a m)"
  by (simp add: mask_ip_def v4_in_v6_prefix_def)

lemma mask_v6: "length a = 16 \<Longrightarrow> length m = 16 \<Longrightarrow> mask_ip a m = Some (masked a m)"
  by (simp add: mask_ip_def)

lemma parse_cidr_network:
  assumes "parse_cidr s = Some n"
  obtains a k where "parse_addr (fst (cut (CHR ''/'') s)) = Some a" "k \<le> 8 * length a"
    "n = \<lparr> net_ip = masked a (cidr_mask k (8 * length a)), net_mask = cidr_mask k (8 * length a) \<rparr>"
proof -
  obtain addr width where c: "cut (CHR ''/'') s = (addr, width, True)"
    using assms by (auto simp: parse_cidr_def split: prod.splits if_splits)
  then obtain a where a: "parse_addr addr = Some a"
    using assms by (auto simp: parse_cidr_def split: option.splits)
  then obtain k where k: "width \<noteq> []" "digits_value 0 width = Some k" "k \<le> 8 * length a"
    using assms c by (auto simp: parse_cidr_def split: option.splits if_splits)
  let ?m = "cidr_mask k (8 * length a)"
  have "mask_ip (if length a = 4 then v4_in_v6_prefix @ a else a) ?m = Some (masked a ?m)"
    using parse_addr_length [OF a] cidr_mask_length [of k "length a"]
    by (auto intro: mask_v4 mask_v6 simp del: cidr_mask_length)
  then show thesis
    using that [of a k] assms c a k by (simp add: parse_cidr_def Let_def)
qed

lemma parse_cidr_ok: "parse_cidr s = Some n \<Longrightarrow> network_ok n"
  by (elim parse_cidr_network) (auto simp: network_ok_def dest!: parse_addr_length)

lemma parse_cidr_contains:
  assumes "parse_cidr s = Some n" "parse_addr (fst (cut (CHR ''/'') s)) = Some a" "length a = 4"
  shows "network_contains n a"
proof -
  obtain k where "n = \<lparr> net_ip = masked a (cidr_mask k (8 * 4)), net_mask = cidr_mask k (8 * 4) \<rparr>"
    using parse_cidr_network [OF assms(1)] assms(2,3) by (metis option.inject)
  then show ?thesis
    using assms(3) cidr_mask_length [of k 4]
    by (simp add: network_contains_def number_and_mask_def to4_def masked_masked del: cidr_mask_length)
qed

section \<open>Targets that read as URLs\<close>

definition hex_or_colon :: "char \<Rightarrow> bool" where
  "hex_or_colon c \<longleftrightarrow> hex_nibble c \<noteq> None \<or> c = CHR '':''"

lemma hex_or_colon_chars:
  "hex_or_colon c \<Longrightarrow> c \<notin> set ''#?/*@[%'' \<and> \<not> control_char c"
  "hex_nibble c \<noteq> None \<Longrightarrow> is_letter c \<or> is_digit c"
  "hex_nibble c \<noteq> None \<Longrightarrow> c \<noteq> CHR '':''"
  by (auto simp: hex_or_colon_def hex_nibble_def control_char_def code_def is_letter_def is_digit_def
      digit_value_def Let_def split: if_splits)

lemma scheme_length_hex:
  "list_all (\<lambda>c. hex_nibble c \<noteq> None) g \<Longrightarrow> 0 < i \<Longrightarrow>
     scheme_length i (g @ CHR '':'' # rest) = Some (Some (i + length g))"
proof (induction g arbitrary: i)
  case Nil
  then show ?case by (simp add: is_letter_def is_digit_def digit_value_def code_def)
next
  case (Cons c g)
  then show ?case using hex_or_colon_chars(2) [of c] by auto
qed

lemma letter_first_reads_as_scheme:
  assumes "is_letter c" "hex_nibble c \<noteq> None" "list_all (\<lambda>c. hex_nibble c \<noteq> None) g" "list_all hex_or_colon rest"
  shows "url_parse (c # g @ CHR '':'' # rest) =
    Some (empty_url\<lparr>url_scheme := lower (c # g), url_opaque := rest\<rparr>)"
proof -
  let ?s = "c # g @ CHR '':'' # rest"
  have all: "\<forall>x \<in> set ?s. hex_or_colon x"
    using assms by (auto simp: list_all_iff hex_or_colon_def)
  have "CHR ''#'' \<notin> set ?s" using all hex_or_colon_chars(1) [of "CHR ''#''"] by auto
  then have hash: "cut (CHR ''#'') ?s = (?s, [], False)" by (rule cut_none)
  have "CHR ''?'' \<notin> set rest"
    using assms(4) hex_or_colon_chars(1) [of "CHR ''?''"] by (auto simp: list_all_iff)
  then have query: "cut (CHR ''?'') rest = (rest, [], False)" by (rule cut_none)
  have "\<not> list_ex control_char ?s" using all hex_or_colon_chars(1) by (auto simp: list_ex_iff)
  moreover have "take 1 rest \<noteq> ''/''"
    using assms(4) hex_or_colon_chars(1) [of "CHR ''/''"] by (cases rest) auto
  moreover have "get_scheme ?s = Some (c # g, rest)"
    using scheme_length_hex [OF assms(3), of 1 rest] assms(1)
    by (simp add: get_scheme_def)
  ultimately have "parse_reference ?s = Some (empty_url\<lparr>url_scheme := lower (c # g), url_opaque := rest\<rparr>)"
    by (simp add: parse_reference_def query Let_def)
  then show ?thesis by (simp add: url_parse_def hash unescape_path_def)
qed

section \<open>Properties\<close>

text \<open>
  An IPv4 address is blocked by default exactly if it lies in one of the seven listed IPv4
  networks, in its 4-byte form as in its 16-byte form; so the unspecified address 0.0.0.0, which
  reaches the probing host itself, is not.
\<close>

theorem default_policy_blocks_exactly:
  "(\<forall>a p q r s. to4 a = Some [p, q, r, s] \<longrightarrow>
      (permitted \<lparr> allow_private_networks = False, allowed_cidrs = [], denied_cidrs = [] \<rparr> a
         \<longleftrightarrow> \<not> blocked_v4 p q))
   \<and> permitted \<lparr> allow_private_networks = False, allowed_cidrs = [], denied_cidrs = [] \<rparr> [0, 0, 0, 0]"
proof -
  have "to4 [0, 0, 0, 0] = Some [0, 0, 0, 0]" by (simp add: to4_def)
  moreover have "\<not> blocked_v4 0 0" by (simp add: blocked_v4_def)
  ultimately show ?thesis by (auto simp: permitted_def containsIP_def sensitive_def)
qed

theorem default_policy_blocks_exactly_witness:
  "\<not> permitted \<lparr> allow_private_networks = False, allowed_cidrs = [], denied_cidrs = [] \<rparr>
     (v4_in_v6_prefix @ [172, 20, 0, 1])"
proof -
  have "to4 (v4_in_v6_prefix @ [172, 20, 0, 1]) = Some [172, 20, 0, 1]" by simp
  with default_policy_blocks_exactly show ?thesis by (fastforce simp: blocked_v4_def)
qed

text \<open>
  An IPv6 address whose first group starts with a letter is taken for a URL with that group
  as its scheme, and rejected whatever the policy says.
\<close>

theorem letter_first_ipv6_is_rejected:
  assumes "is_letter c" "hex_nibble c \<noteq> None" "list_all (\<lambda>c. hex_nibble c \<noteq> None) g"
    and "list_all hex_or_colon rest"
  shows "targetHostname (c # g @ CHR '':'' # rest) = Inl (GoError ''probe target URL has no host'')"
  unfolding targetHostname_def letter_first_reads_as_scheme [OF assms]
  by (simp add: lower_def url_hostname_def split_host_port_def cut_last_def cut_def empty_url_def)

theorem letter_first_ipv6_is_rejected_witness:
  "targetHostname ''fd00::10'' = Inl (GoError ''probe target URL has no host'')"
proof -
  have "is_letter (CHR ''f'')" "hex_nibble (CHR ''f'') \<noteq> None"
    "list_all (\<lambda>c. hex_nibble c \<noteq> None) ''d00''" "list_all hex_or_colon '':10''"
    by (simp_all add: is_letter_def code_def hex_nibble_def hex_or_colon_def)
  from letter_first_ipv6_is_rejected [OF this] show ?thesis by simp
qed

text \<open>
  C40: The networks of a policy are well formed, one for each entry: address and mask have the
  length of one family, and an IPv4 network contains the address it was written with.
\<close>

theorem parsed_networks_are_well_formed:
  assumes "parseCIDRs vs = Inr ns"
  shows "list_all2 (\<lambda>v n. network_ok n \<and>
    (\<forall>a. parse_addr (fst (cut (CHR ''/'') v)) = Some a \<longrightarrow> length a = 4 \<longrightarrow> network_contains n a)) vs ns"
  using assms
proof (induction vs arbitrary: ns)
  case (Cons v vs)
  then obtain n ns' where n: "parse_cidr v = Some n" "parseCIDRs vs = Inr ns'" "ns = n # ns'"
    by (auto split: option.splits sum.splits)
  then show ?case using Cons.IH parse_cidr_ok [OF n(1)] parse_cidr_contains [OF n(1)] by simp
qed simp

theorem parsed_networks_are_well_formed_witness:
  "\<exists>n. parseCIDRs [''10.1.2.3/9''] = Inr [n] \<and> network_ok n \<and> network_contains n [10, 1, 2, 3]"
proof -
  have a: "parse_addr ''10.1.2.3'' = Some [10, 1, 2, 3]"
    by (simp add: parse_addr_def parse_ipv4_def parse_octet_def digit_value_def Let_def)
  have c: "cut (CHR ''/'') ''10.1.2.3/9'' = (''10.1.2.3'', ''9'', True)" by (simp add: cut_def)
  obtain n where "parse_cidr ''10.1.2.3/9'' = Some n"
    using mask_v4 [of "[10, 1, 2, 3]" "cidr_mask 9 32"] cidr_mask_length [of 9 4]
    by (simp add: parse_cidr_def c a digit_value_def Let_def)
  then have p: "parseCIDRs [''10.1.2.3/9''] = Inr [n]" by simp
  with parsed_networks_are_well_formed [OF p] a c show ?thesis by simp
qed

end
