(* ===== verification/Probe_Executor.thy ===== *)
theory Probe_Executor
  imports Network_Policy Api_State Controller_Calls
begin

text \<open>
  The probe executors (\<open>internal/probe/executor.go\<close>, the calling half of \<open>policy.go\<close>, and
  \<open>kubernetes.go\<close>).  The resolver, the dialer, the TLS handshake and the HTTP exchange are calls;
  \<open>AppendCertsFromPEM\<close> is the argument \<open>pem_ok\<close>, and the Kubernetes helpers of other modules are
  arguments of \<open>execute_kubernetes\<close>.  Host names are taken to be ASCII.
\<close>

section \<open>Calls\<close>

record tls_config =
  cfg_server_name :: string
  cfg_insecure :: bool
  cfg_roots :: "string option"

record probe_request =
  pr_method :: string
  pr_url :: url
  pr_host :: string
  pr_headers :: string_map

text \<open>
  An answer of a server: status, body and, for a redirect, the URL it leads to.  The request of
  an exchange is \<open>None\<close> when \<open>net/http\<close> made it to follow a redirect.
\<close>

datatype reply = NoReply | Reply int string "url option"

datatype 'a net =
  Finish 'a
| Panic
| Deadline duration "'a net"
| Lookup string "go_error + ip list \<Rightarrow> 'a net"
| Dial ip string "go_error option \<Rightarrow> 'a net"
| Handshake tls_config "bool \<Rightarrow> 'a net"
| Pooled url "bool \<Rightarrow> 'a net"
| Exchange "probe_request option" url "reply \<Rightarrow> 'a net"

datatype net_event =
  EvDeadline duration
| EvLookup string "go_error + ip list"
| EvDial ip string "go_error option"
| EvHandshake tls_config bool
| EvPooled url bool
| EvExchange "probe_request option" url reply

text \<open>Complete executions; a panic has no result.\<close>

inductive nrun :: "'a net \<Rightarrow> net_event list \<Rightarrow> 'a option \<Rightarrow> bool" where
  "nrun (Finish x) [] (Some x)"
| "nrun Panic [] None"
| "nrun p es r \<Longrightarrow> nrun (Deadline d p) (EvDeadline d # es) r"
| "nrun (k a) es r \<Longrightarrow> nrun (Lookup h k) (EvLookup h a # es) r"
| "nrun (k e) es r \<Longrightarrow> nrun (Dial i port k) (EvDial i port e # es) r"
| "nrun (k b) es r \<Longrightarrow> nrun (Handshake cfg k) (EvHandshake cfg b # es) r"
| "nrun (k b) es r \<Longrightarrow> nrun (Pooled u k) (EvPooled u b # es) r"
| "nrun (k a) es r \<Longrightarrow> nrun (Exchange q u k) (EvExchange q u a # es) r"

text \<open>What every complete execution ends with: \<open>Q\<close> of the calls made and the outcome.\<close>

primrec npost :: "(net_event list \<Rightarrow> 'a option \<Rightarrow> bool) \<Rightarrow> net_event list \<Rightarrow> 'a net \<Rightarrow> bool" where
  "npost Q tr (Finish x) \<longleftrightarrow> Q tr (Some x)"
| "npost Q tr Panic \<longleftrightarrow> Q tr None"
| "npost Q tr (Deadline d p) \<longleftrightarrow> npost Q (tr @ [EvDeadline d]) p"
| "npost Q tr (Lookup h k) \<longleftrightarrow> (\<forall>a. npost Q (tr @ [EvLookup h a]) (k a))"
| "npost Q tr (Dial i port k) \<longleftrightarrow> (\<forall>e. npost Q (tr @ [EvDial i port e]) (k e))"
| "npost Q tr (Handshake cfg k) \<longleftrightarrow> (\<forall>b. npost Q (tr @ [EvHandshake cfg b]) (k b))"
| "npost Q tr (Pooled u k) \<longleftrightarrow> (\<forall>b. npost Q (tr @ [EvPooled u b]) (k b))"
| "npost Q tr (Exchange q u k) \<longleftrightarrow> (\<forall>a. npost Q (tr @ [EvExchange q u a]) (k a))"

lemma npost_nrun: "nrun p es r \<Longrightarrow> npost Q tr p \<Longrightarrow> Q (tr @ es) r"
  by (induction arbitrary: tr rule: nrun.induct) fastforce+

lemma npost_result: "npost Q [] p \<Longrightarrow> nrun p es r \<Longrightarrow> Q es r"
  using npost_nrun [of p es r Q "[]"] by simp

section \<open>The policy at work\<close>

definition allowedTargetIPs ::
  "string \<Rightarrow> probe_network_policy \<Rightarrow> (go_error + ip list \<Rightarrow> 'a net) \<Rightarrow> 'a net" where
  "allowedTargetIPs address policy k =
     Lookup address (\<lambda>r. case r of
       Inr ips \<Rightarrow> k (allowed_ips policy ips)
     | Inl e \<Rightarrow>
         (case parse_ip address of
            Some a \<Rightarrow> k (allowed_ips policy [a])
          | None \<Rightarrow> k (Inl (Wrapped ''resolving probe target: '' e))))"

definition validateTarget :: "string \<Rightarrow> probe_network_policy \<Rightarrow> (go_error option \<Rightarrow> 'a net) \<Rightarrow> 'a net" where
  "validateTarget address policy k =
     (if address = '''' then k (Some (GoError ''probe target address is empty''))
      else case targetHostname address of
             Inl e \<Rightarrow> k (Some e)
           | Inr lookupAddress \<Rightarrow>
               allowedTargetIPs lookupAddress policy (\<lambda>r. case r of
                 Inl e \<Rightarrow> k (Some e)
               | Inr ips \<Rightarrow> if ips = [] then k (Some (GoError ''probe target has no resolved addresses''))
                            else k None))"

text \<open>\<open>net.JoinHostPort\<close> and \<open>net.SplitHostPort\<close>.\<close>

definition join_host_port :: "string \<Rightarrow> string \<Rightarrow> string" where
  "join_host_port host port =
     (if CHR '':'' \<in> set host then ''['' @ host @ '']:'' @ port else host @ '':'' @ port)"

definition net_split_host_port :: "string \<Rightarrow> (string \<times> string) option" where
  "net_split_host_port s =
     (case cut_last (CHR '':'') s of None \<Rightarrow> None
      | Some (before, port) \<Rightarrow>
          if take 1 s = ''['' then
            (case cut (CHR '']'') s of (inner, after, found) \<Rightarrow>
               if \<not> found \<or> length before \<noteq> Suc (length inner)
                  \<or> CHR ''['' \<in> set (drop 1 s) \<or> CHR '']'' \<in> set after then None
               else Some (drop 1 inner, port))
          else if CHR '':'' \<in> set before \<or> CHR ''['' \<in> set s \<or> CHR '']'' \<in> set s then None
          else Some (before, port))"

text \<open>The result of a dial: without any address there is neither a connection nor an error.\<close>

datatype dialled = Conn | NoConn | DialError go_error

fun dial_ips :: "ip list \<Rightarrow> string \<Rightarrow> dialled \<Rightarrow> (dialled \<Rightarrow> 'a net) \<Rightarrow> 'a net" where
  "dial_ips [] port lastErr k = k lastErr"
| "dial_ips (a # as) port lastErr k =
     Dial a port (\<lambda>e. case e of None \<Rightarrow> k Conn | Some dialErr \<Rightarrow> dial_ips as port (DialError dialErr) k)"

definition dialAllowedContext ::
  "string \<Rightarrow> probe_network_policy \<Rightarrow> (dialled \<Rightarrow> 'a net) \<Rightarrow> 'a net" where
  "dialAllowedContext address policy k =
     (case net_split_host_port address of
        None \<Rightarrow> k (DialError (GoError ''invalid probe endpoint''))
      | Some (host, port) \<Rightarrow>
          allowedTargetIPs host policy (\<lambda>r. case r of
            Inl e \<Rightarrow> k (DialError e)
          | Inr ips \<Rightarrow> dial_ips ips port NoConn k))"

section \<open>TCP and TLS\<close>

definition passed :: probe_result where
  "passed = \<lparr> result_success = True, result_reason = '''' \<rparr>"

definition failed :: "string \<Rightarrow> probe_result" where
  "failed reason = \<lparr> result_success = False, result_reason = reason \<rparr>"

definition tlsConfig :: "(string \<Rightarrow> bool) \<Rightarrow> string \<Rightarrow> bool \<Rightarrow> string \<Rightarrow> go_error + tls_config" where
  "tlsConfig pem_ok serverName insecure caBundle =
     (let config = \<lparr> cfg_server_name = serverName, cfg_insecure = insecure, cfg_roots = None \<rparr> in
      if caBundle = '''' then Inr config
      else if \<not> pem_ok caBundle then Inl (GoError ''invalid CA bundle'')
      else Inr (config\<lparr>cfg_roots := Some caBundle\<rparr>))"

text \<open>\<open>crypto/tls\<close> fails a client handshake that has no server name to verify.\<close>

definition handshake :: "tls_config \<Rightarrow> (bool \<Rightarrow> 'a net) \<Rightarrow> 'a net" where
  "handshake cfg k =
     (if cfg_server_name cfg = '''' \<and> \<not> cfg_insecure cfg then k False else Handshake cfg k)"

definition tcp ::
  "(string \<Rightarrow> bool) \<Rightarrow> probe_target \<Rightarrow> probe_network_policy \<Rightarrow> bool \<Rightarrow> bool \<Rightarrow> string
     \<Rightarrow> (probe_result \<Rightarrow> 'a net) \<Rightarrow> 'a net" where
  "tcp pem_ok tgt policy tlsMode insecure caBundle k =
     (let address = join_host_port (target_address tgt) (itoa (target_port tgt)) in
      if tlsMode then
        (case tlsConfig pem_ok (target_sni tgt) insecure caBundle of
           Inl e \<Rightarrow> k (failed (error_text e))
         | Inr config \<Rightarrow>
             dialAllowedContext address policy (\<lambda>d. case d of
               DialError e \<Rightarrow> k (failed ''connection failed'')
             | NoConn \<Rightarrow> Panic
             | Conn \<Rightarrow> handshake config (\<lambda>ok. k (if ok then passed else failed ''connection failed''))))
      else
        dialAllowedContext address policy (\<lambda>d. case d of
          DialError e \<Rightarrow> k (failed ''connection failed'')
        | NoConn \<Rightarrow> Panic
        | Conn \<Rightarrow> k passed))"

section \<open>HTTP\<close>

definition token_char :: "char \<Rightarrow> bool" where
  "token_char c \<longleftrightarrow> is_letter c \<or> is_digit c \<or> c \<in> set ''!#$%&*+-.^_|~'' \<or> code c = 39 \<or> code c = 96"

text \<open>\<open>http.Header.Set\<close>, with the canonical form of the name.\<close>

fun canonical_from :: "bool \<Rightarrow> string \<Rightarrow> string" where
  "canonical_from up [] = []"
| "canonical_from up (c # cs) =
     (if up then upper c else hd (lower [c])) # canonical_from (c = CHR ''-'') cs"

definition canonical_header :: "string \<Rightarrow> string" where
  "canonical_header s = (if list_all token_char s then canonical_from True s else s)"

definition set_header :: "string \<Rightarrow> string \<Rightarrow> string_map \<Rightarrow> string_map" where
  "set_header n v h = (canonical_header n, v) # filter (\<lambda>(k, _). k \<noteq> canonical_header n) h"

text \<open>What the transport checks before it sends.\<close>

definition valid_headers :: "string_map \<Rightarrow> bool" where
  "valid_headers h \<longleftrightarrow> list_all (\<lambda>(n, v). n \<noteq> [] \<and> list_all token_char n
     \<and> list_all (\<lambda>c. \<not> control_char c \<or> code c = 9) v) h"

definition is_https :: "failover_probe_spec \<Rightarrow> bool" where
  "is_https spec \<longleftrightarrow> probe_kind spec = ProbeTypeHTTPS"

text \<open>The URL of the probe; \<open>None\<close> is an invalid request.\<close>

definition url_text :: "string \<Rightarrow> string \<Rightarrow> int \<Rightarrow> string \<Rightarrow> string" where
  "url_text scheme host port path =
     scheme @ ''://'' @ join_host_port host (itoa port) @ (if path = '''' then ''/'' else path)"

definition probe_url :: "failover_probe_spec \<Rightarrow> string option" where
  "probe_url spec =
     (let scheme = (if is_https spec then ''https'' else ''http'');
          tgt = target spec;
          plain = Some (url_text scheme (target_address tgt) (target_port tgt) (target_path tgt))
      in case url_parse (target_address tgt) of
           Some u \<Rightarrow>
             if url_scheme u \<noteq> '''' then
               (if url_scheme u \<noteq> scheme \<or> url_hostname u = '''' \<or> url_user u then None
                else
                  let path = (if target_path tgt = '''' then url_escaped_path u else target_path tgt) in
                  if target_port tgt = 0 \<and> url_port u \<noteq> '''' then
                    (case atoi (url_port u) of None \<Rightarrow> None
                     | Some parsedPort \<Rightarrow> Some (url_text scheme (url_hostname u) (wrap32 parsedPort) path))
                  else Some (url_text scheme (url_hostname u) (target_port tgt) path))
             else plain
         | None \<Rightarrow> plain)"

definition probe_request_of :: "failover_probe_spec \<Rightarrow> string \<Rightarrow> probe_request option" where
  "probe_request_of spec credential =
     (case probe_url spec of None \<Rightarrow> None
      | Some requestURL \<Rightarrow>
          let meth = (if http_method spec = '''' then ''GET'' else http_method spec) in
          if \<not> list_all token_char meth then None
          else case url_parse requestURL of None \<Rightarrow> None
            | Some u \<Rightarrow>
                let header = (if credential_header spec = '''' then ''Authorization'' else credential_header spec);
                    h = (if credential \<noteq> '''' then set_header header credential [] else [])
                in Some \<lparr> pr_method = meth, pr_url = u,
                     pr_host = (if target_host (target spec) \<noteq> '''' then target_host (target spec) else url_host u),
                     pr_headers = fold (\<lambda>x. set_header (header_name x) (header_value x)) (headers spec) h \<rparr>)"

text \<open>
  One exchange of the transport: over an idle connection, or over a new one that
  \<open>dialAllowedContext\<close> opens to the host of the URL.
\<close>

definition canonical_addr :: "url \<Rightarrow> string" where
  "canonical_addr u =
     join_host_port (url_hostname u)
       (if url_port u \<noteq> '''' then url_port u else if url_scheme u = ''https'' then ''443'' else ''80'')"

definition connect ::
  "probe_network_policy \<Rightarrow> tls_config \<Rightarrow> url \<Rightarrow> (bool \<Rightarrow> 'a net) \<Rightarrow> 'a net" where
  "connect policy config u k =
     (if url_scheme u \<noteq> ''http'' \<and> url_scheme u \<noteq> ''https'' \<or> url_host u = '''' then k False
      else Pooled u (\<lambda>idle.
        if idle then k True
        else dialAllowedContext (canonical_addr u) policy (\<lambda>d.
          if d \<noteq> Conn then k False
          else if url_scheme u = ''https'' then
            handshake (if cfg_server_name config = '''' then config\<lparr>cfg_server_name := url_hostname u\<rparr>
                       else config) k
          else k True)))"

text \<open>
  \<open>Client.Do\<close> with the \<open>CheckRedirect\<close> of the probe, which takes the place of the limit of ten
  that \<open>net/http\<close> has: \<open>Some None\<close> is a failed request, and \<open>None\<close> says that \<open>n\<close> requests have
  been sent and redirects go on.  In the code only the deadline of the context ends them, when an
  exchange fails; \<open>probes_end\<close> below says that the fuel \<open>n\<close> plays no part then.
\<close>

fun do_http ::
  "nat \<Rightarrow> probe_network_policy \<Rightarrow> bool \<Rightarrow> tls_config \<Rightarrow> probe_request option \<Rightarrow> url
     \<Rightarrow> ((int \<times> string) option option \<Rightarrow> 'a net) \<Rightarrow> 'a net" where
  "do_http 0 policy followRedirects config q u k = k None"
| "do_http (Suc n) policy followRedirects config q u k =
     connect policy config u (\<lambda>ok.
       if \<not> ok then k (Some None)
       else Exchange q u (\<lambda>r. case r of
         NoReply \<Rightarrow> k (Some None)
       | Reply status body redirect \<Rightarrow>
           (case redirect of
              None \<Rightarrow> k (Some (Some (status, body)))
            | Some nxt \<Rightarrow>
                if \<not> followRedirects then k (Some (Some (status, body)))
                else validateTarget (url_hostname nxt) policy (\<lambda>e. case e of
                  Some _ \<Rightarrow> k (Some None)
                | None \<Rightarrow> do_http n policy followRedirects config None nxt k))))"

definition maxResponseBody :: nat where "maxResponseBody = 1048576"

definition judge_response :: "failover_probe_spec \<Rightarrow> int \<times> string \<Rightarrow> probe_result" where
  "judge_response spec resp =
     (let (status, content) = resp;
          body = take (maxResponseBody + 1) content;
          minStatus = (if expected_status_min spec = 0 then 200 else expected_status_min spec);
          maxStatus = (if expected_status_max spec = 0 then 299 else expected_status_max spec)
      in if length body > maxResponseBody then failed ''response body exceeded limit''
         else if wrap32 status < minStatus \<or> wrap32 status > maxStatus then
           failed ''unexpected HTTP status''
         else if body_match spec \<noteq> '''' \<and> \<not> contains_string body (body_match spec) then
           failed ''response body did not match''
         else passed)"

definition httpProbe ::
  "(string \<Rightarrow> bool) \<Rightarrow> nat \<Rightarrow> failover_probe_spec \<Rightarrow> string \<Rightarrow> string
     \<Rightarrow> (probe_result option \<Rightarrow> 'a net) \<Rightarrow> 'a net" where
  "httpProbe pem_ok n spec credential caBundle k =
     (case probe_request_of spec credential of
        None \<Rightarrow> k (Some (failed ''invalid request''))
      | Some q \<Rightarrow>
          (case tlsConfig pem_ok (target_sni (target spec)) (insecure_skip_verify spec) caBundle of
             Inl e \<Rightarrow> k (Some (failed (error_text e)))
           | Inr config \<Rightarrow>
               if \<not> valid_headers (pr_headers q) then k (Some (failed ''request failed''))
               else do_http n (network_policy spec) (follow_redirects spec) config (Some q) (pr_url q)
                 (\<lambda>r. case r of
                    None \<Rightarrow> k None
                  | Some None \<Rightarrow> k (Some (failed ''request failed''))
                  | Some (Some resp) \<Rightarrow> k (Some (judge_response spec resp)))))"

section \<open>Execute\<close>

definition network_probe ::
  "(string \<Rightarrow> bool) \<Rightarrow> nat \<Rightarrow> failover_probe_spec \<Rightarrow> string \<Rightarrow> string
     \<Rightarrow> (probe_result option \<Rightarrow> 'a net) \<Rightarrow> 'a net" where
  "network_probe pem_ok n spec credential caBundle k =
     (if probe_kind spec = ProbeTypeTCP then
        tcp pem_ok (target spec) (network_policy spec) False (insecure_skip_verify spec) caBundle
          (\<lambda>r. k (Some r))
      else if probe_kind spec = ProbeTypeTLS then
        tcp pem_ok (target spec) (network_policy spec) True (insecure_skip_verify spec) caBundle
          (\<lambda>r. k (Some r))
      else if probe_kind spec = ProbeTypeHTTP \<or> probe_kind spec = ProbeTypeHTTPS then
        httpProbe pem_ok n spec credential caBundle k
      else k (Some (failed (''probe type '' @ quote (probe_type_string (probe_kind spec))
             @ '' has no network executor''))))"

definition execute ::
  "(string \<Rightarrow> bool) \<Rightarrow> nat \<Rightarrow> failover_probe_spec \<Rightarrow> string \<Rightarrow> string
     \<Rightarrow> (probe_result option \<Rightarrow> 'a net) \<Rightarrow> 'a net" where
  "execute pem_ok n spec credential caBundle k =
     (case ValidateProbeSpec spec of
        Some e \<Rightarrow> k (Some (failed (error_text e)))
      | None \<Rightarrow>
          let t = seconds (timeout_seconds spec) in
          Deadline (if t \<le> 0 then 5 * second else t)
            (if probe_kind spec \<noteq> ProbeTypeKubernetes then
               validateTarget (target_address (target spec)) (network_policy spec) (\<lambda>e. case e of
                 Some _ \<Rightarrow> k (Some (failed ''target blocked by network policy''))
               | None \<Rightarrow> network_probe pem_ok n spec credential caBundle k)
             else network_probe pem_ok n spec credential caBundle k))"

definition Execute :: "(string \<Rightarrow> bool) \<Rightarrow> nat \<Rightarrow> failover_probe_spec \<Rightarrow> (probe_result option \<Rightarrow> 'a net) \<Rightarrow> 'a net"
where "Execute pem_ok n spec k = execute pem_ok n spec '''' '''' k"

definition ExecuteWithCredential ::
  "(string \<Rightarrow> bool) \<Rightarrow> nat \<Rightarrow> failover_probe_spec \<Rightarrow> string \<Rightarrow> (probe_result option \<Rightarrow> 'a net) \<Rightarrow> 'a net" where
  "ExecuteWithCredential pem_ok n spec v k = execute pem_ok n spec v '''' k"

definition ExecuteWithCredentialAndCABundle ::
  "(string \<Rightarrow> bool) \<Rightarrow> nat \<Rightarrow> failover_probe_spec \<Rightarrow> string \<Rightarrow> string
     \<Rightarrow> (probe_result option \<Rightarrow> 'a net) \<Rightarrow> 'a net" where
  "ExecuteWithCredentialAndCABundle pem_ok n spec v caBundle k = execute pem_ok n spec v caBundle k"

section \<open>What the calls of a probe satisfy\<close>

text \<open>Where an address comes from: the resolver, or a literal the resolver did not know.\<close>

definition resolved :: "net_event list \<Rightarrow> ip \<Rightarrow> bool" where
  "resolved es i \<longleftrightarrow>
     (\<exists>h ips. EvLookup h (Inr ips) \<in> set es \<and> i \<in> set ips)
     \<or> (\<exists>h e. EvLookup h (Inl e) \<in> set es \<and> parse_ip h = Some i)"

definition dials_ok :: "probe_network_policy \<Rightarrow> net_event list \<Rightarrow> bool" where
  "dials_ok policy es \<longleftrightarrow>
     (\<forall>i port e. EvDial i port e \<in> set es \<longrightarrow> permitted policy i \<and> resolved es i)"

fun exchanges :: "net_event list \<Rightarrow> nat" where
  "exchanges [] = 0"
| "exchanges (EvExchange q u r # es) = Suc (exchanges es)"
| "exchanges (e # es) = exchanges es"

lemma exchanges_append [simp]: "exchanges (es @ es') = exchanges es + exchanges es'"
  by (induction es rule: exchanges.induct) simp_all

text \<open>The requests with their answers; each but the first goes where the one before was redirected.\<close>

fun chain :: "net_event list \<Rightarrow> (url \<times> reply) list" where
  "chain [] = []"
| "chain (EvExchange q u r # es) = (u, r) # chain es"
| "chain (e # es) = chain es"

fun redirected :: "(url \<times> reply) list \<Rightarrow> bool" where
  "redirected [] = True"
| "redirected [x] = True"
| "redirected (x # y # xs) = ((\<exists>status body. snd x = Reply status body (Some (fst y))) \<and> redirected (y # xs))"

lemma chain_append [simp]: "chain (es @ es') = chain es @ chain es'"
  by (induction es rule: chain.induct) simp_all

lemma chain_Nil: "chain es = [] \<longleftrightarrow> exchanges es = 0"
  by (induction es rule: exchanges.induct) simp_all

lemma chain_empty [simp]: "exchanges es = 0 \<Longrightarrow> chain es = []"
  by (simp add: chain_Nil)

lemma redirected_Cons:
  "redirected (x # xs) \<longleftrightarrow> xs = []
     \<or> (\<exists>status body. snd x = Reply status body (Some (fst (hd xs)))) \<and> redirected xs"
  by (cases xs) auto

lemma resolved_append: "resolved es i \<Longrightarrow> resolved (es @ es') i" "resolved es' i \<Longrightarrow> resolved (es @ es') i"
  by (auto simp: resolved_def)

lemma dials_ok_append: "dials_ok policy es \<Longrightarrow> dials_ok policy es' \<Longrightarrow> dials_ok policy (es @ es')"
  unfolding dials_ok_def set_append Un_iff using resolved_append by blast

text \<open>No connection although nothing failed: the resolver gave an empty answer.\<close>

definition empty_answer :: "net_event list \<Rightarrow> bool" where
  "empty_answer es \<longleftrightarrow> (\<exists>h. EvLookup h (Inr []) \<in> set es)"

definition looked_up :: "probe_network_policy \<Rightarrow> net_event list \<Rightarrow> go_error + ip list \<Rightarrow> bool" where
  "looked_up policy es r \<longleftrightarrow> dials_ok policy es \<and> exchanges es = 0
     \<and> (\<forall>ips. r = Inr ips \<longrightarrow> (\<forall>i \<in> set ips. permitted policy i \<and> resolved es i)
          \<and> (ips = [] \<longrightarrow> empty_answer es))"

lemma npost_allowed:
  assumes "\<And>es r. looked_up policy es r \<Longrightarrow> npost Q (tr @ es) (k r)"
  shows "npost Q tr (allowedTargetIPs address policy k)"
proof -
  have "looked_up policy [EvLookup address (Inr ips)] (allowed_ips policy ips)" for ips
    using allowed_ips_permitted [of policy ips]
    by (auto simp: looked_up_def dials_ok_def resolved_def empty_answer_def)
  moreover have "looked_up policy [EvLookup address (Inl e)] (allowed_ips policy [i])"
    if "parse_ip address = Some i" for e i
    using allowed_ips_permitted [of policy "[i]"] that
    by (auto simp: looked_up_def dials_ok_def resolved_def)
  moreover have "looked_up policy [EvLookup address (Inl e)] (Inl e')" for e e'
    by (simp add: looked_up_def dials_ok_def)
  ultimately show ?thesis
    using assms by (auto simp: allowedTargetIPs_def split: sum.split option.split)
qed

lemma npost_validate:
  assumes "\<And>es e. dials_ok policy es \<Longrightarrow> exchanges es = 0 \<Longrightarrow> npost Q (tr @ es) (k e)"
  shows "npost Q tr (validateTarget address policy k)"
proof -
  have none: "npost Q tr (k e)" for e using assms [of "[]" e] by (simp add: dials_ok_def)
  show ?thesis
    unfolding validateTarget_def
    by (auto split: sum.split intro!: none npost_allowed) (auto simp: looked_up_def intro!: assms)
qed

definition dialling :: "probe_network_policy \<Rightarrow> net_event list \<Rightarrow> dialled \<Rightarrow> bool" where
  "dialling policy es d \<longleftrightarrow> dials_ok policy es \<and> exchanges es = 0
     \<and> (d = Conn \<longrightarrow> (\<exists>i port. EvDial i port None \<in> set es)) \<and> (d = NoConn \<longrightarrow> empty_answer es)"

lemma npost_dial_ips:
  assumes "\<And>es d. dialling policy (es0 @ es) d \<Longrightarrow> npost Q (tr @ es) (k d)"
    and "dials_ok policy es0" "exchanges es0 = 0" "\<forall>i \<in> set ips. permitted policy i \<and> resolved es0 i"
    and "dd \<noteq> Conn" "dd = NoConn \<longrightarrow> ips = [] \<longrightarrow> empty_answer es0"
  shows "npost Q tr (dial_ips ips port dd k)"
  using assms
proof (induction ips arbitrary: dd tr es0)
  case Nil
  then show ?case using Nil(1) [of "[]" dd] by (simp add: dialling_def)
next
  case (Cons i ips)
  have ok: "dials_ok policy (es0 @ [EvDial i port e])" for e
    using Cons.prems(2,4) by (auto simp: dials_ok_def intro: resolved_append)
  have "npost Q (tr @ [EvDial i port None]) (k Conn)"
    using Cons.prems(1) [of "[EvDial i port None]" Conn] ok Cons.prems(3)
    by (auto simp: dialling_def)
  moreover have "npost Q (tr @ [EvDial i port (Some e)]) (dial_ips ips port (DialError e) k)" for e
  proof (rule Cons.IH [of "es0 @ [EvDial i port (Some e)]"])
    fix es d
    assume "dialling policy ((es0 @ [EvDial i port (Some e)]) @ es) d"
    then show "npost Q ((tr @ [EvDial i port (Some e)]) @ es) (k d)"
      using Cons.prems(1) [of "EvDial i port (Some e) # es" d] by simp
  qed (use ok Cons.prems resolved_append(1) in auto)
  ultimately show ?case by (auto split: option.split)
qed

lemma npost_dial:
  assumes "\<And>es d. dialling policy es d \<Longrightarrow> npost Q (tr @ es) (k d)"
  shows "npost Q tr (dialAllowedContext address policy k)"
proof -
  have err: "npost Q tr (k (DialError e))" for e
    using assms [of "[]" "DialError e"] by (simp add: dialling_def dials_ok_def)
  have "npost Q tr (allowedTargetIPs host policy (\<lambda>r. case r of
      Inl e \<Rightarrow> k (DialError e) | Inr ips \<Rightarrow> dial_ips ips port NoConn k))" for host port
  proof (rule npost_allowed)
    fix es r
    assume l: "looked_up policy es r"
    have "npost Q (tr @ es) (k (DialError e))" for e
      using assms [of es "DialError e"] l by (simp add: dialling_def looked_up_def)
    moreover have "npost Q (tr @ es) (dial_ips ips port NoConn k)" if "r = Inr ips" for ips
      by (rule npost_dial_ips [of policy es]) (use l that assms [of "es @ _"] in \<open>auto simp: looked_up_def\<close>)
    ultimately show "npost Q (tr @ es) (case r of
        Inl e \<Rightarrow> k (DialError e) | Inr ips \<Rightarrow> dial_ips ips port NoConn k)"
      by (auto split: sum.split)
  qed
  then show ?thesis unfolding dialAllowedContext_def using err by (auto split: option.split)
qed

lemma dialling_exchange:
  "dialling policy es d \<Longrightarrow> dials_ok policy (es @ [EvExchange q u r])"
  "dialling policy es d \<Longrightarrow> dials_ok policy (es @ [EvHandshake cfg b])"
  by (auto simp: dialling_def dials_ok_def intro: resolved_append)

text \<open>A connection for one exchange.\<close>

lemma npost_connect:
  assumes "\<And>es ok. dials_ok policy es \<Longrightarrow> exchanges es = 0 \<Longrightarrow> npost Q (tr @ es) (k ok)"
  shows "npost Q tr (connect policy config u k)"
proof -
  have quiet: "dials_ok policy []" "dials_ok policy [EvPooled u b]" for b by (simp_all add: dials_ok_def)
  have "npost Q (tr @ [EvPooled u False]) (dialAllowedContext (canonical_addr u) policy (\<lambda>d.
      if d \<noteq> Conn then k False
      else if url_scheme u = ''https'' then handshake cfg k else k True))" for cfg
  proof (rule npost_dial)
    fix es d
    assume d: "dialling policy es d"
    have ok: "dials_ok policy (EvPooled u False # es)"
      using dials_ok_append [OF quiet(2), of es] d by (simp add: dialling_def)
    have "npost Q ((tr @ [EvPooled u False]) @ es) (k ok)" for ok
      using assms [of "EvPooled u False # es" ok] ok d by (simp add: dialling_def)
    moreover have "npost Q (((tr @ [EvPooled u False]) @ es) @ [EvHandshake cfg b]) (k b)" for b
      using assms [of "EvPooled u False # es @ [EvHandshake cfg b]" b] d
        dials_ok_append [OF quiet(2) dialling_exchange(2) [OF d], of False cfg b]
      by (simp add: dialling_def)
    ultimately show "npost Q ((tr @ [EvPooled u False]) @ es) (if d \<noteq> Conn then k False
        else if url_scheme u = ''https'' then handshake cfg k else k True)"
      by (simp add: handshake_def)
  qed
  then have "npost Q (tr @ [EvPooled u b]) (if b then k True
      else dialAllowedContext (canonical_addr u) policy (\<lambda>d. if d \<noteq> Conn then k False
        else if url_scheme u = ''https'' then
          handshake (if cfg_server_name config = [] then config\<lparr>cfg_server_name := url_hostname u\<rparr> else config) k
        else k True))" for b
    using assms [OF quiet(2) [of True]] by (cases b) (simp_all only: if_True if_False exchanges.simps)
  moreover have "npost Q tr (k False)" using assms [OF quiet(1)] by simp
  ultimately show ?thesis
    unfolding connect_def by (simp only: npost.simps if_splits(1)) blast
qed

text \<open>
  What \<open>Client.Do\<close> did: the first request went to \<open>u\<close>, every other one followed a redirect, and
  the answer is the last one, which is no redirect that had to be followed.
\<close>

definition fetched ::
  "probe_network_policy \<Rightarrow> bool \<Rightarrow> nat \<Rightarrow> url \<Rightarrow> net_event list \<Rightarrow> (int \<times> string) option option \<Rightarrow> bool" where
  "fetched policy followRedirects n u es r \<longleftrightarrow> dials_ok policy es \<and> exchanges es \<le> n
     \<and> redirected (chain es) \<and> (\<forall>x xs. chain es = x # xs \<longrightarrow> fst x = u)
     \<and> (\<not> followRedirects \<longrightarrow> exchanges es \<le> 1 \<and> (0 < n \<longrightarrow> r \<noteq> None))
     \<and> (r = None \<longrightarrow> exchanges es = n)
     \<and> (\<forall>status body. r = Some (Some (status, body)) \<longrightarrow>
          (\<exists>es' q v redirect. es = es' @ [EvExchange q v (Reply status body redirect)]
             \<and> (redirect = None \<or> \<not> followRedirects)))"

lemma npost_do_http:
  assumes "\<And>es r. fetched policy followRedirects n u es r \<Longrightarrow> npost Q (tr @ es) (k r)"
  shows "npost Q tr (do_http n policy followRedirects config q u k)"
  using assms
proof (induction n arbitrary: tr q u)
  case 0
  then show ?case using 0 [of "[]" None] by (simp add: fetched_def dials_ok_def)
next
  case (Suc n)
  have "npost Q tr (connect policy config u (\<lambda>ok.
       if \<not> ok then k (Some None)
       else Exchange q u (\<lambda>r. case r of
         NoReply \<Rightarrow> k (Some None)
       | Reply status body redirect \<Rightarrow>
           (case redirect of
              None \<Rightarrow> k (Some (Some (status, body)))
            | Some nxt \<Rightarrow>
                if \<not> followRedirects then k (Some (Some (status, body)))
                else validateTarget (url_hostname nxt) policy (\<lambda>e. case e of
                  Some _ \<Rightarrow> k (Some None)
                | None \<Rightarrow> do_http n policy followRedirects config None nxt k)))))"
    (is "npost Q tr (connect policy config u ?then)")
  proof (rule npost_connect)
    fix es ok
    assume es: "dials_ok policy es" "exchanges es = 0"
    then have none: "chain es = []" by (simp add: chain_Nil)
    have ex: "dials_ok policy (es @ [EvExchange q u r])" "exchanges (es @ [EvExchange q u r]) = 1"
      "chain (es @ [EvExchange q u r]) = [(u, r)]" for r
      using es none by (auto simp: dials_ok_def intro: resolved_append)
    have failed: "npost Q (tr @ es') (k (Some None))"
      if "dials_ok policy es'" "exchanges es' \<le> 1" "\<forall>x xs. chain es' = x # xs \<longrightarrow> fst x = u \<and> xs = []" for es'
      using Suc.prems [of es' "Some None"] that
      by (cases "chain es'") (auto simp: fetched_def)
    have answer: "npost Q ((tr @ es) @ [EvExchange q u (Reply status body redirect)]) (k (Some (Some (status, body))))"
      if "redirect = None \<or> \<not> followRedirects" for status body redirect
      using Suc.prems [of "es @ [EvExchange q u (Reply status body redirect)]" "Some (Some (status, body))"]
        ex none that
      by (simp add: fetched_def)
    have follow: "npost Q ((tr @ es) @ [EvExchange q u (Reply status body (Some nxt))])
        (validateTarget (url_hostname nxt) policy (\<lambda>e. case e of Some _ \<Rightarrow> k (Some None)
          | None \<Rightarrow> do_http n policy followRedirects config None nxt k))" if f: followRedirects for status body nxt
    proof (rule npost_validate)
      let ?es = "es @ [EvExchange q u (Reply status body (Some nxt))]"
      fix es' :: "net_event list" and e :: "go_error option"
      assume es': "dials_ok policy es'" "exchanges es' = 0"
      then have none': "chain es' = []" by (simp add: chain_Nil)
      have ok: "dials_ok policy (?es @ es')" "exchanges (?es @ es') = 1"
        "chain (?es @ es') = [(u, Reply status body (Some nxt))]"
        using dials_ok_append [OF ex(1) es'(1)] ex(2) es'(2) none none' by simp_all
      have "npost Q (tr @ ?es @ es') (do_http n policy followRedirects config None nxt k)"
      proof (rule Suc.IH)
        fix es'' r
        assume fetched: "fetched policy followRedirects n nxt es'' r"
        then have "redirected (chain ((?es @ es') @ es''))"
          unfolding chain_append [of "?es @ es'"] ok(3)
          by (cases "chain es''") (auto simp: fetched_def)
        then have "fetched policy followRedirects (Suc n) u ((?es @ es') @ es'') r"
          using fetched ok f dials_ok_append [OF ok(1), of es''] unfolding fetched_def
          by (auto simp del: append_assoc simp: none none')
        from Suc.prems [OF this] show "npost Q ((tr @ ?es @ es') @ es'') (k r)" by simp
      qed
      then show "npost Q (((tr @ es) @ [EvExchange q u (Reply status body (Some nxt))]) @ es')
          (case e of Some _ \<Rightarrow> k (Some None) | None \<Rightarrow> do_http n policy followRedirects config None nxt k)"
        using failed [of "?es @ es'"] ok by (auto split: option.split)
    qed
    show "npost Q (tr @ es) (?then ok)"
      using failed [of es] failed [of "es @ [EvExchange q u NoReply]"] es ex none answer follow
      by (auto split: reply.split option.split)
  qed
  then show ?case by simp
qed

section \<open>What a probe has seen\<close>

text \<open>
  An HTTP answer as the probe wants it: within the size limit, a status within the bounds (200 to
  299 unless it names others), and the text to be matched somewhere in the body.
\<close>

definition answer_expected :: "failover_probe_spec \<Rightarrow> int \<Rightarrow> string \<Rightarrow> bool" where
  "answer_expected spec status body \<longleftrightarrow> length body \<le> 1048576
     \<and> (if expected_status_min spec = 0 then 200 else expected_status_min spec) \<le> wrap32 status
     \<and> wrap32 status \<le> (if expected_status_max spec = 0 then 299 else expected_status_max spec)
     \<and> (\<exists>before after. body = before @ body_match spec @ after)"

lemma contains_string_split: "contains_string s sub \<Longrightarrow> \<exists>before after. s = before @ sub @ after"
proof (induction s)
  case (Cons c cs)
  show ?case
  proof (cases "take (length sub) (c # cs) = sub")
    case True
    then have "c # cs = [] @ sub @ drop (length sub) (c # cs)"
      using append_take_drop_id [of "length sub" "c # cs"] by simp
    then show ?thesis by blast
  next
    case False
    with Cons obtain before after where "cs = before @ sub @ after" by auto
    then have "c # cs = (c # before) @ sub @ after" by simp
    then show ?thesis by blast
  qed
qed simp

lemma judged_expected:
  assumes "result_success (judge_response spec (status, body))"
  shows "answer_expected spec status body"
proof -
  have len: "length body \<le> 1048576"
    using assms by (auto simp: judge_response_def failed_def maxResponseBody_def Let_def split: if_splits)
  then have "take (maxResponseBody + 1) body = body" by (simp add: maxResponseBody_def)
  then have "body_match spec = [] \<or> contains_string body (body_match spec)"
    using assms by (auto simp: judge_response_def failed_def Let_def split: if_splits)
  moreover have "body = [] @ [] @ body" by simp
  ultimately have "\<exists>before after. body = before @ body_match spec @ after"
    using contains_string_split [of body "body_match spec"] by metis
  with len assms show ?thesis
    by (auto simp: judge_response_def answer_expected_def failed_def Let_def split: if_splits)
qed

definition reached :: "failover_probe_spec \<Rightarrow> net_event list \<Rightarrow> bool" where
  "reached spec es \<longleftrightarrow>
     (if probe_kind spec = ProbeTypeTCP then (\<exists>i port. EvDial i port None \<in> set es)
      else if probe_kind spec = ProbeTypeTLS then
        (\<exists>cfg. EvHandshake cfg True \<in> set es \<and> cfg_server_name cfg = target_sni (target spec)
           \<and> cfg_insecure cfg = insecure_skip_verify spec)
        \<and> (insecure_skip_verify spec \<or> target_sni (target spec) \<noteq> [])
      else if probe_kind spec = ProbeTypeHTTP \<or> probe_kind spec = ProbeTypeHTTPS then
        (\<exists>es' q u status body redirect. es = es' @ [EvExchange q u (Reply status body redirect)]
           \<and> (redirect = None \<or> \<not> follow_redirects spec) \<and> answer_expected spec status body)
      else False)"

lemma reached_later: "reached spec es \<Longrightarrow> reached spec (es0 @ es)"
  unfolding reached_def by (auto split: if_splits)

definition probe_outcome ::
  "failover_probe_spec \<Rightarrow> nat \<Rightarrow> net_event list \<Rightarrow> probe_result option option \<Rightarrow> bool" where
  "probe_outcome spec n es r \<longleftrightarrow> dials_ok (network_policy spec) es \<and> exchanges es \<le> n
     \<and> redirected (chain es)
     \<and> (\<not> follow_redirects spec \<longrightarrow> exchanges es \<le> 1)
     \<and> (r = None \<longrightarrow> empty_answer es)
     \<and> (r = Some None \<longrightarrow> exchanges es = n \<and> (0 < n \<longrightarrow> follow_redirects spec))
     \<and> (\<forall>res. r = Some (Some res) \<longrightarrow> result_success res \<longrightarrow> reached spec es)"

lemma empty_answer_later: "empty_answer es \<Longrightarrow> empty_answer (es0 @ es)"
  by (auto simp: empty_answer_def)

lemma probe_outcome_later:
  assumes "dials_ok (network_policy spec) es0" "exchanges es0 = 0" "probe_outcome spec n es r"
  shows "probe_outcome spec n (es0 @ es) r"
  using assms dials_ok_append [OF assms(1), of es] reached_later [of spec es es0]
    empty_answer_later [of es es0] chain_Nil [of es0] by (simp add: probe_outcome_def)

abbreviation (input) probe_end where
  "probe_end spec n tr \<equiv> (\<lambda>es r. \<exists>es'. es = tr @ es' \<and> probe_outcome spec n es' r)"

lemma failed_outcome: "dials_ok (network_policy spec) es \<Longrightarrow> exchanges es = 0 \<Longrightarrow>
    probe_outcome spec n es (Some (Some (failed reason)))"
  using chain_Nil [of es] by (simp add: probe_outcome_def failed_def)

lemma quiet [simp]: "dials_ok policy []" "dials_ok policy [EvDeadline d]"
  by (simp_all add: dials_ok_def)

lemma npost_tcp:
  assumes "probe_kind spec = (if tlsMode then ProbeTypeTLS else ProbeTypeTCP)"
  shows "npost (probe_end spec n tr) tr (tcp pem_ok (target spec) (network_policy spec) tlsMode
    (insecure_skip_verify spec) caBundle (\<lambda>r. Finish (Some r)))"
proof -
  let ?policy = "network_policy spec"
  have fail: "probe_outcome spec n es (Some (Some (failed reason)))"
    if "dialling ?policy es d" for es d reason
    using failed_outcome that by (simp add: dialling_def)
  have panic: "probe_outcome spec n es None" if "dialling ?policy es NoConn" for es
    using that by (simp add: dialling_def probe_outcome_def)
  have conn: "probe_outcome spec n es (Some (Some passed))"
    if "dialling ?policy es Conn" "\<not> tlsMode" for es
    using that assms by (simp add: dialling_def probe_outcome_def reached_def)
  have shake: "probe_outcome spec n (es @ [EvHandshake cfg b])
      (Some (Some (if b then passed else failed ''connection failed'')))"
    if "dialling ?policy es Conn" "tlsMode" "cfg_server_name cfg = target_sni (target spec)"
      "cfg_insecure cfg = insecure_skip_verify spec" "\<not> (cfg_server_name cfg = [] \<and> \<not> cfg_insecure cfg)"
    for es cfg b
    using that assms dialling_exchange(2) [OF that(1)]
    by (auto simp: dialling_def probe_outcome_def reached_def failed_def)
  have tls: "npost (probe_end spec n tr) tr (dialAllowedContext address ?policy (\<lambda>d. case d of
       DialError e \<Rightarrow> Finish (Some (failed ''connection failed''))
     | NoConn \<Rightarrow> Panic
     | Conn \<Rightarrow> handshake cfg (\<lambda>ok. Finish (Some (if ok then passed else failed ''connection failed'')))))"
    if cfg: "tlsMode" "cfg_server_name cfg = target_sni (target spec)" "cfg_insecure cfg = insecure_skip_verify spec"
    for cfg address
  proof (rule npost_dial)
    fix es d
    assume d: "dialling ?policy es d"
    show "npost (probe_end spec n tr) (tr @ es) (case d of
       DialError e \<Rightarrow> Finish (Some (failed ''connection failed''))
     | NoConn \<Rightarrow> Panic
     | Conn \<Rightarrow> handshake cfg (\<lambda>ok. Finish (Some (if ok then passed else failed ''connection failed''))))"
      using fail [OF d] panic [of es] shake [of es cfg] d cfg
      by (cases d) (simp_all add: handshake_def)
  qed
  have plain: "npost (probe_end spec n tr) tr (dialAllowedContext address ?policy (\<lambda>d. case d of
       DialError e \<Rightarrow> Finish (Some (failed ''connection failed''))
     | NoConn \<Rightarrow> Panic | Conn \<Rightarrow> Finish (Some passed)))" if "\<not> tlsMode" for address
  proof (rule npost_dial)
    fix es d
    assume d: "dialling ?policy es d"
    show "npost (probe_end spec n tr) (tr @ es) (case d of
       DialError e \<Rightarrow> Finish (Some (failed ''connection failed''))
     | NoConn \<Rightarrow> Panic | Conn \<Rightarrow> Finish (Some passed))"
      using fail [OF d] panic [of es] conn [of es] d that by (cases d) simp_all
  qed
  show ?thesis
  proof (cases tlsMode)
    case True
    have "probe_outcome spec n [] (Some (Some (failed reason)))" for reason
      by (rule failed_outcome) simp_all
    moreover have "cfg_server_name cfg = target_sni (target spec) \<and> cfg_insecure cfg = insecure_skip_verify spec"
      if "tlsConfig pem_ok (target_sni (target spec)) (insecure_skip_verify spec) caBundle = Inr cfg" for cfg
      using that by (auto simp: tlsConfig_def Let_def split: if_splits)
    ultimately show ?thesis
      using tls [OF True] True by (auto simp: tcp_def split: sum.split)
  qed (use plain in \<open>simp add: tcp_def\<close>)
qed

lemma npost_http:
  assumes "probe_kind spec = ProbeTypeHTTP \<or> probe_kind spec = ProbeTypeHTTPS"
  shows "npost (probe_end spec n tr) tr (httpProbe pem_ok n spec credential caBundle Finish)"
proof -
  have fail: "npost (probe_end spec n tr) tr (Finish (Some (failed reason)))" for reason
    using failed_outcome [of spec "[]" n reason] by simp
  have "npost (probe_end spec n tr) tr (do_http n (network_policy spec) (follow_redirects spec) config q u
      (\<lambda>r. case r of None \<Rightarrow> Finish None
         | Some None \<Rightarrow> Finish (Some (failed ''request failed''))
         | Some (Some resp) \<Rightarrow> Finish (Some (judge_response spec resp))))" for config q u
  proof (rule npost_do_http)
    fix es r
    assume "fetched (network_policy spec) (follow_redirects spec) n u es r"
    then show "npost (probe_end spec n tr) (tr @ es) (case r of None \<Rightarrow> Finish None
         | Some None \<Rightarrow> Finish (Some (failed ''request failed''))
         | Some (Some resp) \<Rightarrow> Finish (Some (judge_response spec resp)))"
      using assms by (auto simp: fetched_def probe_outcome_def reached_def failed_def
          split: option.split dest!: judged_expected)
  qed
  then show ?thesis
    unfolding httpProbe_def using fail by (auto split: option.split sum.split)
qed

lemma npost_network_probe:
  "npost (probe_end spec n tr) tr (network_probe pem_ok n spec credential caBundle Finish)"
  using failed_outcome [of spec "[]" n] npost_tcp [where tlsMode = False] npost_tcp [where tlsMode = True]
    npost_http
  by (auto simp: network_probe_def)

lemma execute_outcome:
  assumes "nrun (execute pem_ok n spec credential caBundle Finish) es r"
  shows "probe_outcome spec n es r"
proof (rule npost_result [OF _ assms])
  have fail: "probe_outcome spec n es (Some (Some (failed reason)))"
    if "dials_ok (network_policy spec) es" "exchanges es = 0" for es reason
    by (rule failed_outcome [OF that])
  have mono: "npost (probe_outcome spec n) es p"
    if "npost (probe_end spec n es) es p" "dials_ok (network_policy spec) es" "exchanges es = 0" for es p
  proof -
    have "npost Q tr p \<Longrightarrow> (\<And>es r. Q es r \<Longrightarrow> Q' es r) \<Longrightarrow> npost Q' tr p" for Q Q' tr and p :: "probe_result option net"
      by (induction p arbitrary: tr) auto
    from this [OF that(1), of "probe_outcome spec n"] probe_outcome_later [OF that(2,3)] show ?thesis by auto
  qed
  have run: "npost (probe_outcome spec n) es (network_probe pem_ok n spec credential caBundle Finish)"
    if "dials_ok (network_policy spec) es" "exchanges es = 0" for es
    by (rule mono [OF npost_network_probe that])
  show "npost (probe_outcome spec n) [] (execute pem_ok n spec credential caBundle Finish)"
    unfolding execute_def Let_def
    by (auto split: option.split intro!: npost_validate [where policy = "network_policy spec"] fail run
        dials_ok_append [of _ "[EvDeadline _]", simplified])
qed

section \<open>Kubernetes objects\<close>

text \<open>
  \<open>ExecuteKubernetes\<close>.  \<open>parse_gv\<close> says whether \<open>schema.ParseGroupVersion\<close> accepts a version,
  \<open>fetch\<close> is the read of the object, \<open>nested\<close> is \<open>unstructured.NestedFieldNoCopy\<close> and \<open>sprint\<close>
  is \<open>fmt.Sprint\<close> on a value of the object.
\<close>

definition trim_prefix :: "string \<Rightarrow> string \<Rightarrow> string" where
  "trim_prefix p s = (case strip_prefix p s of None \<Rightarrow> s | Some r \<Rightarrow> r)"

definition execute_kubernetes ::
  "(string \<Rightarrow> bool) \<Rightarrow> (string \<Rightarrow> string \<Rightarrow> string \<Rightarrow> string \<Rightarrow> go_error + 'v)
     \<Rightarrow> ('v \<Rightarrow> string list \<Rightarrow> go_error + 'v option) \<Rightarrow> ('v \<Rightarrow> string)
     \<Rightarrow> kubernetes_readiness_target option \<Rightarrow> probe_result" where
  "execute_kubernetes parse_gv fetch nested sprint tgt =
     (case tgt of None \<Rightarrow> failed ''unsupported Kubernetes readiness target''
      | Some t \<Rightarrow>
          if trim_space (kube_kind t) = '''' \<or> kube_name t = '''' then
            failed ''unsupported Kubernetes readiness target''
          else if \<not> parse_gv (kube_api_version t) then failed ''invalid Kubernetes apiVersion''
          else case fetch (kube_api_version t) (kube_kind t) (kube_namespace t) (kube_name t) of
                 Inl e \<Rightarrow> failed ''Kubernetes object is not readable''
               | Inr obj \<Rightarrow>
                   if kube_json_path t = '''' then passed
                   else case nested obj (split_on (CHR ''.'') (trim_prefix ''.'' (kube_json_path t))) of
                          Inl e \<Rightarrow> failed ''readiness field is absent''
                        | Inr None \<Rightarrow> failed ''readiness field is absent''
                        | Inr (Some v) \<Rightarrow>
                            if kube_expected t \<noteq> '''' \<and> sprint v \<noteq> kube_expected t then
                              failed ''readiness field has unexpected value''
                            else passed)"

section \<open>A world that answers\<close>

record net_world =
  answer_lookup :: "string \<Rightarrow> go_error + ip list"
  answer_dial :: "ip \<Rightarrow> string \<Rightarrow> go_error option"
  answer_handshake :: "tls_config \<Rightarrow> bool"
  answer_pooled :: "url \<Rightarrow> bool"
  answer_exchange :: "url \<Rightarrow> reply"

primrec net_log :: "net_world \<Rightarrow> 'a net \<Rightarrow> net_event list" where
  "net_log W (Finish x) = []"
| "net_log W Panic = []"
| "net_log W (Deadline d p) = EvDeadline d # net_log W p"
| "net_log W (Lookup h k) = EvLookup h (answer_lookup W h) # net_log W (k (answer_lookup W h))"
| "net_log W (Dial i port k) = EvDial i port (answer_dial W i port) # net_log W (k (answer_dial W i port))"
| "net_log W (Handshake cfg k) =
     EvHandshake cfg (answer_handshake W cfg) # net_log W (k (answer_handshake W cfg))"
| "net_log W (Pooled u k) = EvPooled u (answer_pooled W u) # net_log W (k (answer_pooled W u))"
| "net_log W (Exchange q u k) = EvExchange q u (answer_exchange W u) # net_log W (k (answer_exchange W u))"

primrec net_result :: "net_world \<Rightarrow> 'a net \<Rightarrow> 'a option" where
  "net_result W (Finish x) = Some x"
| "net_result W Panic = None"
| "net_result W (Deadline d p) = net_result W p"
| "net_result W (Lookup h k) = net_result W (k (answer_lookup W h))"
| "net_result W (Dial i port k) = net_result W (k (answer_dial W i port))"
| "net_result W (Handshake cfg k) = net_result W (k (answer_handshake W cfg))"
| "net_result W (Pooled u k) = net_result W (k (answer_pooled W u))"
| "net_result W (Exchange q u k) = net_result W (k (answer_exchange W u))"

lemma net_result_run: "nrun p (net_log W p) (net_result W p)"
  by (induction p) (auto intro: nrun.intros)

section \<open>A network that changes while the probe runs\<close>

text \<open>
  \<open>W tr\<close> answers the next call when the calls \<open>tr\<close> have been made.  The context of the probe ends
  in such a network: from some number of requests on, none is answered any more.
\<close>

primrec net_trace ::
  "(net_event list \<Rightarrow> net_world) \<Rightarrow> net_event list \<Rightarrow> 'a net \<Rightarrow> net_event list \<times> 'a option" where
  "net_trace W tr (Finish x) = (tr, Some x)"
| "net_trace W tr Panic = (tr, None)"
| "net_trace W tr (Deadline d p) = net_trace W (tr @ [EvDeadline d]) p"
| "net_trace W tr (Lookup h k) =
     net_trace W (tr @ [EvLookup h (answer_lookup (W tr) h)]) (k (answer_lookup (W tr) h))"
| "net_trace W tr (Dial i port k) =
     net_trace W (tr @ [EvDial i port (answer_dial (W tr) i port)]) (k (answer_dial (W tr) i port))"
| "net_trace W tr (Handshake cfg k) =
     net_trace W (tr @ [EvHandshake cfg (answer_handshake (W tr) cfg)]) (k (answer_handshake (W tr) cfg))"
| "net_trace W tr (Pooled u k) =
     net_trace W (tr @ [EvPooled u (answer_pooled (W tr) u)]) (k (answer_pooled (W tr) u))"
| "net_trace W tr (Exchange q u k) =
     net_trace W (tr @ [EvExchange q u (answer_exchange (W tr) u)]) (k (answer_exchange (W tr) u))"

definition resolver_answers :: "(net_event list \<Rightarrow> net_world) \<Rightarrow> bool" where
  "resolver_answers W \<longleftrightarrow> (\<forall>tr h. answer_lookup (W tr) h \<noteq> Inr [])"

definition context_ends :: "(net_event list \<Rightarrow> net_world) \<Rightarrow> nat \<Rightarrow> bool" where
  "context_ends W N \<longleftrightarrow> (\<forall>tr u. N \<le> exchanges tr \<longrightarrow> answer_exchange (W tr) u = NoReply)"

lemma net_trace_run:
  "\<exists>es. fst (net_trace W tr p) = tr @ es \<and> nrun p es (snd (net_trace W tr p))
     \<and> (resolver_answers W \<longrightarrow> \<not> empty_answer es)"
proof (induction p arbitrary: tr)
  case (Deadline d p)
  obtain es where "fst (net_trace W (tr @ [EvDeadline d]) p) = (tr @ [EvDeadline d]) @ es"
    "nrun p es (snd (net_trace W (tr @ [EvDeadline d]) p))" "resolver_answers W \<longrightarrow> \<not> empty_answer es"
    using Deadline by blast
  then show ?case by (intro exI [of _ "EvDeadline d # es"]) (auto intro: nrun.intros simp: empty_answer_def)
next
  case (Lookup h k)
  let ?a = "answer_lookup (W tr) h"
  obtain es where "fst (net_trace W (tr @ [EvLookup h ?a]) (k ?a)) = (tr @ [EvLookup h ?a]) @ es"
    "nrun (k ?a) es (snd (net_trace W (tr @ [EvLookup h ?a]) (k ?a)))"
    "resolver_answers W \<longrightarrow> \<not> empty_answer es"
    using Lookup [OF rangeI] by blast
  moreover have "resolver_answers W \<longrightarrow> ?a \<noteq> Inr []" by (simp add: resolver_answers_def)
  ultimately show ?case
    by (intro exI [of _ "EvLookup h ?a # es"]) (auto intro: nrun.intros simp: empty_answer_def)
next
  case (Dial i port k)
  let ?a = "answer_dial (W tr) i port"
  obtain es where "fst (net_trace W (tr @ [EvDial i port ?a]) (k ?a)) = (tr @ [EvDial i port ?a]) @ es"
    "nrun (k ?a) es (snd (net_trace W (tr @ [EvDial i port ?a]) (k ?a)))"
    "resolver_answers W \<longrightarrow> \<not> empty_answer es"
    using Dial [OF rangeI] by blast
  then show ?case by (intro exI [of _ "EvDial i port ?a # es"]) (auto intro: nrun.intros simp: empty_answer_def)
next
  case (Handshake cfg k)
  let ?a = "answer_handshake (W tr) cfg"
  obtain es where "fst (net_trace W (tr @ [EvHandshake cfg ?a]) (k ?a)) = (tr @ [EvHandshake cfg ?a]) @ es"
    "nrun (k ?a) es (snd (net_trace W (tr @ [EvHandshake cfg ?a]) (k ?a)))"
    "resolver_answers W \<longrightarrow> \<not> empty_answer es"
    using Handshake [OF rangeI] by blast
  then show ?case by (intro exI [of _ "EvHandshake cfg ?a # es"]) (auto intro: nrun.intros simp: empty_answer_def)
next
  case (Pooled u k)
  let ?a = "answer_pooled (W tr) u"
  obtain es where "fst (net_trace W (tr @ [EvPooled u ?a]) (k ?a)) = (tr @ [EvPooled u ?a]) @ es"
    "nrun (k ?a) es (snd (net_trace W (tr @ [EvPooled u ?a]) (k ?a)))"
    "resolver_answers W \<longrightarrow> \<not> empty_answer es"
    using Pooled [OF rangeI] by blast
  then show ?case by (intro exI [of _ "EvPooled u ?a # es"]) (auto intro: nrun.intros simp: empty_answer_def)
next
  case (Exchange q u k)
  let ?a = "answer_exchange (W tr) u"
  obtain es where "fst (net_trace W (tr @ [EvExchange q u ?a]) (k ?a)) = (tr @ [EvExchange q u ?a]) @ es"
    "nrun (k ?a) es (snd (net_trace W (tr @ [EvExchange q u ?a]) (k ?a)))"
    "resolver_answers W \<longrightarrow> \<not> empty_answer es"
    using Exchange [OF rangeI] by blast
  then show ?case by (intro exI [of _ "EvExchange q u ?a # es"]) (auto intro: nrun.intros simp: empty_answer_def)
qed (auto intro: nrun.intros simp: empty_answer_def)

text \<open>Two continuations that agree after as many requests make no difference.\<close>

lemma allowed_trace:
  assumes "\<And>tr' r. exchanges tr' = exchanges tr \<Longrightarrow> net_trace W tr' (k r) = net_trace W tr' (k' r)"
  shows "net_trace W tr (allowedTargetIPs address policy k) = net_trace W tr (allowedTargetIPs address policy k')"
  using assms by (auto simp: allowedTargetIPs_def split: sum.split option.split)

lemma validate_trace:
  assumes "\<And>tr' e. exchanges tr' = exchanges tr \<Longrightarrow> net_trace W tr' (k e) = net_trace W tr' (k' e)"
  shows "net_trace W tr (validateTarget address policy k) = net_trace W tr (validateTarget address policy k')"
  unfolding validateTarget_def using assms
  by (auto split: sum.split intro!: allowed_trace)

lemma dial_ips_trace:
  assumes "\<And>tr' d. exchanges tr' = exchanges tr \<Longrightarrow> net_trace W tr' (k d) = net_trace W tr' (k' d)"
  shows "net_trace W tr (dial_ips ips port d k) = net_trace W tr (dial_ips ips port d k')"
  using assms
proof (induction ips arbitrary: tr d)
  case (Cons i ips)
  then show ?case by (auto split: option.split)
qed simp

lemma dial_trace:
  assumes "\<And>tr' d. exchanges tr' = exchanges tr \<Longrightarrow> net_trace W tr' (k d) = net_trace W tr' (k' d)"
  shows "net_trace W tr (dialAllowedContext address policy k) = net_trace W tr (dialAllowedContext address policy k')"
  unfolding dialAllowedContext_def using assms
  by (auto split: sum.split option.split intro!: allowed_trace dial_ips_trace)

lemma connect_trace:
  assumes "\<And>tr' ok. exchanges tr' = exchanges tr \<Longrightarrow> net_trace W tr' (k ok) = net_trace W tr' (k' ok)"
  shows "net_trace W tr (connect policy config u k) = net_trace W tr (connect policy config u k')"
  unfolding connect_def using assms by (auto simp: handshake_def intro!: dial_trace)

text \<open>Once the context ends, more fuel changes nothing.\<close>

lemma do_http_trace:
  assumes "context_ends W N" "exchanges tr \<le> N" "N < exchanges tr + n" "N < exchanges tr + m"
  shows "net_trace W tr (do_http n policy followRedirects config q u k)
    = net_trace W tr (do_http m policy followRedirects config q u k)"
  using assms(2-)
proof (induction n arbitrary: m tr q u)
  case (Suc n)
  then obtain m' where m: "m = Suc m'" by (cases m) auto
  have follow: "net_trace W tr'' (validateTarget (url_hostname nxt) policy (\<lambda>e. case e of
          Some _ \<Rightarrow> k (Some None) | None \<Rightarrow> do_http n policy followRedirects config None nxt k))
      = net_trace W tr'' (validateTarget (url_hostname nxt) policy (\<lambda>e. case e of
          Some _ \<Rightarrow> k (Some None) | None \<Rightarrow> do_http m' policy followRedirects config None nxt k))"
    if "exchanges tr'' = Suc (exchanges tr)" "Suc (exchanges tr) \<le> N" for tr'' nxt
  proof (rule validate_trace)
    fix tr' e
    assume "exchanges tr' = exchanges tr''"
    then have "exchanges tr' \<le> N" "N < exchanges tr' + n" "N < exchanges tr' + m'"
      using that Suc.prems m by simp_all
    from Suc.IH [OF this]
    show "net_trace W tr' (case e of Some _ \<Rightarrow> k (Some None)
          | None \<Rightarrow> do_http n policy followRedirects config None nxt k)
        = net_trace W tr' (case e of Some _ \<Rightarrow> k (Some None)
          | None \<Rightarrow> do_http m' policy followRedirects config None nxt k)"
      by (cases e) (simp_all only: option.case)
  qed
  have last: "answer_exchange (W tr') v = NoReply" if "exchanges tr' = exchanges tr" "\<not> Suc (exchanges tr) \<le> N" for tr' v
    using assms(1) that unfolding context_ends_def by simp
  show ?case
    unfolding m do_http.simps
  proof (rule connect_trace)
    fix tr' ok
    assume "exchanges tr' = exchanges tr"
    then show "net_trace W tr' (if \<not> ok then k (Some None)
       else Exchange q u (\<lambda>r. case r of
         NoReply \<Rightarrow> k (Some None)
       | Reply status body redirect \<Rightarrow>
           (case redirect of None \<Rightarrow> k (Some (Some (status, body)))
            | Some nxt \<Rightarrow>
                if \<not> followRedirects then k (Some (Some (status, body)))
                else validateTarget (url_hostname nxt) policy (\<lambda>e. case e of
                  Some _ \<Rightarrow> k (Some None)
                | None \<Rightarrow> do_http n policy followRedirects config None nxt k))))
      = net_trace W tr' (if \<not> ok then k (Some None)
       else Exchange q u (\<lambda>r. case r of
         NoReply \<Rightarrow> k (Some None)
       | Reply status body redirect \<Rightarrow>
           (case redirect of None \<Rightarrow> k (Some (Some (status, body)))
            | Some nxt \<Rightarrow>
                if \<not> followRedirects then k (Some (Some (status, body)))
                else validateTarget (url_hostname nxt) policy (\<lambda>e. case e of
                  Some _ \<Rightarrow> k (Some None)
                | None \<Rightarrow> do_http m' policy followRedirects config None nxt k))))"
      using follow [of "tr' @ [EvExchange q u (answer_exchange (W tr') u)]"] last [of tr' u]
      by (cases "Suc (exchanges tr) \<le> N") (auto split: reply.split option.split)
  qed
qed simp

lemma execute_trace:
  assumes "context_ends W N" "N < n" "N < m"
  shows "net_trace W [] (execute pem_ok n spec credential caBundle k)
    = net_trace W [] (execute pem_ok m spec credential caBundle k)"
proof -
  have probe: "net_trace W tr (network_probe pem_ok n spec credential caBundle k)
      = net_trace W tr (network_probe pem_ok m spec credential caBundle k)" if "exchanges tr = 0" for tr
    using do_http_trace [OF assms(1), of tr n m] assms that
    by (auto simp: network_probe_def httpProbe_def split: option.split sum.split)
  have "net_trace W [EvDeadline d] (validateTarget address policy (\<lambda>e. case e of
        Some _ \<Rightarrow> k (Some (failed reason)) | None \<Rightarrow> network_probe pem_ok n spec credential caBundle k))
    = net_trace W [EvDeadline d] (validateTarget address policy (\<lambda>e. case e of
        Some _ \<Rightarrow> k (Some (failed reason)) | None \<Rightarrow> network_probe pem_ok m spec credential caBundle k))"
    for d address policy reason
    by (rule validate_trace) (auto intro!: probe split: option.split)
  then show ?thesis
    using probe [of "[EvDeadline _]"] by (auto simp: execute_def Let_def split: option.split)
qed

lemma execute_trace_ends:
  assumes "resolver_answers W" "context_ends W N"
  shows "\<exists>es res. (\<forall>n > N. net_trace W [] (execute pem_ok n spec credential caBundle Finish) = (es, Some (Some res)))
    \<and> nrun (execute pem_ok (Suc N) spec credential caBundle Finish) es (Some (Some res))"
proof -
  let ?p = "\<lambda>n. execute pem_ok n spec credential caBundle Finish"
  obtain es r where t: "net_trace W [] (?p (Suc N)) = (es, r)" by fastforce
  have same: "net_trace W [] (?p n) = (es, r)" if "N < n" for n
    using execute_trace [OF assms(2) that lessI, where k = Finish] t by metis
  have run: "nrun (?p n) es r \<and> \<not> empty_answer es" if "N < n" for n
    using net_trace_run [of W "[]" "?p n"] same [OF that] assms(1) by auto
  have out: "probe_outcome spec n es r" if "N < n" for n
    using execute_outcome run [OF that] by blast
  have "r \<noteq> None" using out [of "Suc N"] run [of "Suc N"] by (auto simp: probe_outcome_def)
  moreover have "r \<noteq> Some None"
    using out [of "Suc N"] out [of "Suc (Suc N)"] by (auto simp: probe_outcome_def)
  ultimately obtain res where "r = Some (Some res)" by (metis option.exhaust)
  then show ?thesis using same run [of "Suc N"] by blast
qed

text \<open>A TCP probe of one address, in a network where every dial succeeds.\<close>

definition test_spec :: failover_probe_spec where
  "test_spec =
     \<lparr> probe_spec_phase = ProbePhasePreRoute, composition = ProbeCompositionAll, quorum = 0,
       probe_kind = ProbeTypeTCP,
       target = \<lparr> target_address = ''192.0.2.7'', target_port = 443, target_path = [], target_host = [],
         target_sni = [] \<rparr>,
       network_policy = \<lparr> allow_private_networks = False, allowed_cidrs = [], denied_cidrs = [] \<rparr>,
       kubernetes = None, timeout_seconds = 0, interval_seconds = 0, success_threshold = 0,
       probe_failure_threshold = 0, initial_delay_seconds = 0, follow_redirects = False,
       insecure_skip_verify = False, credential_secret_ref = None, credential_header = [],
       ca_bundle_secret_ref = None, http_method = [], expected_status_min = 0,
       expected_status_max = 0, body_match = [], headers = [] \<rparr>"

definition test_world :: net_world where
  "test_world =
     \<lparr> answer_lookup = (\<lambda>h. Inr [[192, 0, 2, 7]]), answer_dial = (\<lambda>i port. None),
       answer_handshake = (\<lambda>cfg. True), answer_pooled = (\<lambda>u. False),
       answer_exchange = (\<lambda>u. NoReply) \<rparr>"

lemma test_host: "targetHostname ''192.0.2.7'' = Inr ''192.0.2.7''"
proof -
  have "get_scheme ''192.0.2.7'' = Some ([], ''192.0.2.7'')"
    by (simp add: get_scheme_def is_letter_def is_digit_def digit_value_def code_def)
  then have "parse_reference ''192.0.2.7'' = Some (empty_url\<lparr>url_raw_path := ''192.0.2.7''\<rparr>)"
    by (simp add: parse_reference_def control_char_def code_def cut_def with_path_def unescape_path_def
        lower_def empty_url_def)
  then have "url_parse ''192.0.2.7'' = Some (empty_url\<lparr>url_raw_path := ''192.0.2.7''\<rparr>)"
    by (simp add: url_parse_def cut_def unescape_path_def)
  then show ?thesis by (simp add: targetHostname_def empty_url_def)
qed

lemma test_lookup: "allowed_ips (network_policy test_spec) [[192, 0, 2, 7]] = Inr [[192, 0, 2, 7]]"
proof -
  have "to4 [192, 0, 2, 7] = Some [192, 0, 2, 7]" by (simp add: to4_def)
  then have "\<not> isBlocked [192, 0, 2, 7]" by (simp add: isBlocked_v4 blocked_v4_def)
  then show ?thesis by (simp add: allowed_ips_def test_spec_def)
qed

lemma test_address:
  "net_split_host_port (join_host_port ''192.0.2.7'' (itoa 443)) = Some (''192.0.2.7'', ''443'')"
  by (simp add: net_split_host_port_def join_host_port_def cut_last_def cut_def itoa_def
      nat_text.simps digits_def)

lemma test_valid: "ValidateProbeSpec test_spec = None"
  by (simp add: ValidateProbeSpec_def validateNetworkProbeSpec_def test_spec_def)

lemma test_fields: "target_address (target test_spec) = ''192.0.2.7''" "target_port (target test_spec) = 443"
  "timeout_seconds test_spec = 0" "probe_kind test_spec = ProbeTypeTCP"
  by (simp_all add: test_spec_def)

lemma test_run:
  "net_log test_world (execute pem_ok n test_spec credential ca Finish) =
     [EvDeadline (5 * second), EvLookup ''192.0.2.7'' (Inr [[192, 0, 2, 7]]),
      EvLookup ''192.0.2.7'' (Inr [[192, 0, 2, 7]]), EvDial [192, 0, 2, 7] ''443'' None]"
  "net_result test_world (execute pem_ok n test_spec credential ca Finish) = Some (Some passed)"
  by (simp_all add: execute_def test_valid test_fields test_host test_lookup test_address
      validateTarget_def allowedTargetIPs_def network_probe_def tcp_def dialAllowedContext_def
      test_world_def seconds_def wrap64_def Let_def)

text \<open>An HTTP probe that follows redirects, in a network that redirects it to itself for ever.\<close>

definition loop_spec :: failover_probe_spec where
  "loop_spec = test_spec\<lparr>probe_kind := ProbeTypeHTTP, follow_redirects := True\<rparr>"

definition loop_network :: "net_event list \<Rightarrow> net_world" where
  "loop_network tr = test_world\<lparr>answer_exchange := (\<lambda>u. if exchanges tr < 6 then Reply 302 [] (Some u) else NoReply)\<rparr>"

text \<open>An HTTP probe that wants a text in the body, and a server that answers with it.\<close>

definition page_spec :: failover_probe_spec where
  "page_spec = test_spec\<lparr>probe_kind := ProbeTypeHTTP, body_match := ''ok''\<rparr>"

definition page_world :: net_world where
  "page_world = test_world\<lparr>answer_exchange := (\<lambda>u. Reply 200 ''all ok now'' None)\<rparr>"

definition page_url :: url where
  "page_url = empty_url\<lparr>url_scheme := ''http'', url_host := ''192.0.2.7:443'', url_raw_path := ''/''\<rparr>"

lemma page_url:
  "url_parse ''http://192.0.2.7:443/'' = Some page_url"
  by code_simp

lemma page_fields: "url_hostname page_url = ''192.0.2.7''" "url_port page_url = ''443''"
  "url_scheme page_url = ''http''" "url_host page_url = ''192.0.2.7:443''"
  by code_simp+

lemma page_request: "map_option pr_url (probe_request_of page_spec []) = Some page_url"
  "map_option pr_headers (probe_request_of page_spec []) = Some []"
  by code_simp+

lemma page_address: "net_split_host_port (canonical_addr page_url) = Some (''192.0.2.7'', ''443'')"
  by code_simp

lemma page_valid: "ValidateProbeSpec page_spec = None"
  by (simp add: ValidateProbeSpec_def validateNetworkProbeSpec_def page_spec_def test_spec_def)

lemma page_run:
  obtains q where
    "net_log page_world (execute pem_ok (Suc n) page_spec [] [] Finish) =
       [EvDeadline (5 * second), EvLookup ''192.0.2.7'' (Inr [[192, 0, 2, 7]]), EvPooled page_url False,
        EvLookup ''192.0.2.7'' (Inr [[192, 0, 2, 7]]), EvDial [192, 0, 2, 7] ''443'' None,
        EvExchange (Some q) page_url (Reply 200 ''all ok now'' None)]"
    "net_result page_world (execute pem_ok (Suc n) page_spec [] [] Finish) = Some (Some passed)"
proof -
  obtain q where q: "probe_request_of page_spec [] = Some q" "pr_url q = page_url" "pr_headers q = []"
    using page_request by auto
  have spec: "target_address (target page_spec) = ''192.0.2.7''" "timeout_seconds page_spec = 0"
    "probe_kind page_spec = ProbeTypeHTTP" "network_policy page_spec = network_policy test_spec"
    by (simp_all add: page_spec_def test_spec_def)
  have judged: "judge_response page_spec (200, ''all ok now'') = passed"
    by (simp add: judge_response_def page_spec_def test_spec_def maxResponseBody_def wrap32_def)
  show ?thesis
    by (rule that [of q])
      (simp_all add: execute_def page_valid spec test_host test_lookup test_address q page_fields judged
        validateTarget_def allowedTargetIPs_def network_probe_def httpProbe_def valid_headers_def tlsConfig_def
        connect_def page_address dialAllowedContext_def
        page_world_def test_world_def seconds_def wrap64_def Let_def)
qed

lemma loop_network: "resolver_answers loop_network" "context_ends loop_network 6"
  by (simp_all add: resolver_answers_def context_ends_def loop_network_def test_world_def)

section \<open>Properties\<close>

text \<open>
  C17: No probe opens a connection to an address its policy does not permit, redirects included:
  every dialled address was resolved in the same execution and passed the policy then.
\<close>

theorem probes_dial_permitted_addresses:
  assumes "nrun (execute pem_ok n spec credential caBundle Finish) es r"
    and "EvDial i port e \<in> set es"
  shows "permitted (network_policy spec) i \<and> resolved es i"
  using execute_outcome [OF assms(1)] assms(2) unfolding probe_outcome_def dials_ok_def by blast

theorem probes_dial_permitted_addresses_witness:
  "permitted (network_policy test_spec) [192, 0, 2, 7]"
  using probes_dial_permitted_addresses [OF net_result_run [of "execute (\<lambda>ca. True) 3 test_spec [] [] Finish" test_world],
      of "[192, 0, 2, 7]" "''443''" None]
  by (simp add: test_run)

text \<open>
  C19: A probe succeeds only on what it saw: a TCP probe on an established connection, a TLS probe
  on a completed handshake for its server name, an HTTP probe on the last answer it got, no
  redirect that had to be followed, of at most 1 MiB, with a status within the bounds of the probe
  (200 to 299 by default) and the text the probe looks for somewhere in its body.  So a TLS probe without server name never succeeds, unless it
  skips verification.
\<close>

theorem probe_success_was_observed:
  assumes "nrun (execute pem_ok n spec credential caBundle Finish) es (Some (Some res))"
    and "result_success res"
  shows "reached spec es"
  using execute_outcome [OF assms(1)] assms(2) by (simp add: probe_outcome_def)

theorem probe_success_was_observed_witness:
  "\<exists>es. nrun (execute (\<lambda>ca. True) 3 page_spec [] [] Finish) es (Some (Some passed)) \<and> reached page_spec es"
proof -
  obtain es where "nrun (execute (\<lambda>ca. True) 3 page_spec [] [] Finish) es (Some (Some passed))"
    using page_run [of "\<lambda>ca. True" 2] net_result_run [of "execute (\<lambda>ca. True) 3 page_spec [] [] Finish" page_world]
    by (metis numeral_3_eq_3 numeral_2_eq_2)
  then show ?thesis
    using probe_success_was_observed [of "\<lambda>ca. True" 3 page_spec "[]" "[]" es passed] by (auto simp: passed_def)
qed

text \<open>The fields the API declares and validation accepts are not enough for a TLS probe.\<close>

lemma tls_probe_needs_server_name:
  assumes "nrun (execute pem_ok n spec credential caBundle Finish) es (Some (Some res))"
    and "probe_kind spec = ProbeTypeTLS" "target_sni (target spec) = []" "\<not> insecure_skip_verify spec"
  shows "\<not> result_success res"
proof
  assume "result_success res"
  then have "reached spec es" using execute_outcome [OF assms(1)] by (simp add: probe_outcome_def)
  then show False using assms(2-4) by (simp add: reached_def)
qed

text \<open>
  C39: Every probe ends with a result, a success or a failure with its reason, as soon as its
  context ends: in any network, also one that redirects for ever and answers differently every
  time, where the resolver never gives an empty answer and no request is answered after the first
  \<open>N\<close>.  At most one request more is tried, each but the first where the one before was
  redirected, and only one if redirects are not followed.  Neither calls nor result depend on the
  fuel, as long as it exceeds \<open>N\<close>.
\<close>

theorem probes_end:
  assumes "resolver_answers W" and "context_ends W N"
  shows "\<exists>es res. (\<forall>n > N. net_trace W [] (execute pem_ok n spec credential caBundle Finish) = (es, Some (Some res)))
    \<and> exchanges es \<le> Suc N \<and> redirected (chain es) \<and> (\<not> follow_redirects spec \<longrightarrow> exchanges es \<le> 1)"
  using execute_trace_ends [OF assms] execute_outcome unfolding probe_outcome_def by blast

theorem probes_end_witness:
  "\<exists>es res. net_trace loop_network [] (execute (\<lambda>ca. True) 7 loop_spec [] [] Finish) = (es, Some (Some res))
    \<and> redirected (chain es)"
  using probes_end [of loop_network 6 "\<lambda>ca. True" loop_spec "[]" "[]"] loop_network by (metis lessI numeral_eq_Suc pred_numeral_simps)

end
