(* ===== verification/Observed_Gates.thy ===== *)
theory Observed_Gates
  imports Single_Mutation Probe_Executor
begin

text \<open>
  The probe gates of the failover controller on top of the probe executors: when the calls of a run
  that execute probes are runs of the executor model, a gate that passes has seen its targets on
  the network, within the network policies of its probes, before the provider is routed.
\<close>

section \<open>Gates and executors together\<close>











section \<open>Properties\<close>



section \<open>A cluster with a probe\<close>


definition gated_foip :: "failover_ip_status \<Rightarrow> failover_ip" where
  "gated_foip st = (foip_with st)\<lparr>foip_spec := (foip_spec (foip_with st))\<lparr>spec_probes := [''p'']\<rparr>\<rparr>"




lemma gated_simps [simp]:
  "foip_status (gated_foip st) = st" "foip_annotations (gated_foip st) = []"
  "set_status (gated_foip st) st' = gated_foip st'"
  "foip_namespace (gated_foip st) = ''ns''"
  "spec_ip (foip_spec (gated_foip st)) = ''192.0.2.7''"
  "secret_name (foip_spec (gated_foip st)) = ''s''"
  "spec_probes (foip_spec (gated_foip st)) = [''p'']"
  "spec_probe_composition (foip_spec (gated_foip st)) = ProbeCompositionEmpty"
  "providerCooldown (foip_spec (gated_foip st)) = minute"
  by (simp_all add: gated_foip_def foip_with_def empty_spec_def
      providerCooldown_def defaultProviderCooldown_def seconds_int32 is_int32_def)








definition gated_cluster :: cluster where
  "gated_cluster = (cluster_at t1 st4 11 both)\<lparr>stored := gated_foip st4\<rparr>"

lemma gated_cluster_simps [simp]:
  "clock gated_cluster = t1" "stored gated_cluster = gated_foip st4"
  "cluster_nodes gated_cluster = pair" "owner gated_cluster = 11"
  by (simp_all add: gated_cluster_def)









end
