(* ===== verification/Mutation_Spacing.thy ===== *)
theory Mutation_Spacing
  imports Single_Mutation
begin

text \<open>
  Provider mutations across runs.  A history is a sequence of runs of the failover controller, each
  possibly cut short by a crash or a lost leadership.  As long as what the API server answers
  reflects the attempts persisted before, two mutations in a history are a cooldown apart, up to
  the second that persisting a time loses: \<open>metav1.Time\<close> is written with full seconds.
\<close>

section \<open>Histories\<close>

inductive controller_history :: "failover_ip_reconciler \<Rightarrow> string \<Rightarrow> string \<Rightarrow> event list \<Rightarrow> bool"
  for r ns name where
  fresh: "controller_history r ns name []"
| another_run: "controller_history r ns name es \<Longrightarrow> steps (Reconcile r ns name) es' p \<Longrightarrow>
     controller_history r ns name (es @ es')"

text \<open>A time as it is persisted, and a status whose persisted attempt is not before a time.\<close>

definition whole_second :: "time \<Rightarrow> time" where
  "whole_second t = t div second * second"

definition attempt_since :: "time \<Rightarrow> failover_ip \<Rightarrow> bool" where
  "attempt_since m foip \<longleftrightarrow>
     (case last_attempted_mutation_at (foip_status foip) of None \<Rightarrow> False | Some t \<Rightarrow> m \<le> t)"

fun answer_since :: "time \<Rightarrow> event \<Rightarrow> bool" where
  "answer_since m (EvGetFailoverIp ns name (Inr foip)) = attempt_since m foip"
| "answer_since m (EvPatchStatus b f (Inr served)) = attempt_since m served"
| "answer_since m (EvUpdateStatus f (Inr served)) = attempt_since m served"
| "answer_since m _ = True"

text \<open>
  What the API server promises about persisted attempts, for a status with this one writer: the
  answer to a status patch, and every answer after it, shows the written attempt in full seconds,
  or a later one.  A read from a stale cache breaks this promise.
\<close>

fun attempts_stored :: "event list \<Rightarrow> bool" where
  "attempts_stored [] = True"
| "attempts_stored (e # es) =
     ((case e of
         EvPatchStatus b f (Inr served) \<Rightarrow>
           (case last_attempted_mutation_at (foip_status f) of
              None \<Rightarrow> True
            | Some t \<Rightarrow> list_all (answer_since (whole_second t)) (e # es))
       | _ \<Rightarrow> True)
      \<and> attempts_stored es)"

lemma attempts_stored_after:
  "attempts_stored (pre @ EvPatchStatus b f (Inr served) # post) \<Longrightarrow>
   last_attempted_mutation_at (foip_status f) = Some t \<Longrightarrow>
     list_all (answer_since (whole_second t)) post"
  by (induction pre) auto

section \<open>The status a patch starts from\<close>

text \<open>
  Code all of whose status patches start from a status not older than the answers it got.
\<close>

primrec bases_since :: "time \<Rightarrow> 'a prog \<Rightarrow> bool" where
  "bases_since m (Return x) \<longleftrightarrow> True"
| "bases_since m (Now k) \<longleftrightarrow> (\<forall>r. bases_since m (k r))"
| "bases_since m (GetFailoverIp ns name k) \<longleftrightarrow>
     (\<forall>r. answer_since m (EvGetFailoverIp ns name r) \<longrightarrow> bases_since m (k r))"
| "bases_since m (PatchStatus b f k) \<longleftrightarrow> attempt_since m b
     \<and> (\<forall>r. answer_since m (EvPatchStatus b f r) \<longrightarrow> bases_since m (k r))"
| "bases_since m (UpdateStatus f k) \<longleftrightarrow>
     (\<forall>r. answer_since m (EvUpdateStatus f r) \<longrightarrow> bases_since m (k r))"
| "bases_since m (GetSecret ns name k) \<longleftrightarrow> (\<forall>r. bases_since m (k r))"
| "bases_since m (ListNodes k) \<longleftrightarrow> (\<forall>r. bases_since m (k r))"
| "bases_since m (GetNode name k) \<longleftrightarrow> (\<forall>r. bases_since m (k r))"
| "bases_since m (GetProbe ns name k) \<longleftrightarrow> (\<forall>r. bases_since m (k r))"
| "bases_since m (PatchProbeStatus b p k) \<longleftrightarrow> (\<forall>r. bases_since m (k r))"
| "bases_since m (ExecuteProbe sp cred ca k) \<longleftrightarrow> (\<forall>r. bases_since m (k r))"
| "bases_since m (ExecuteKubernetes tgt k) \<longleftrightarrow> (\<forall>r. bases_since m (k r))"
| "bases_since m (NewClient uid tok p) \<longleftrightarrow> bases_since m p"
| "bases_since m (FindFailoverIP ip k) \<longleftrightarrow> (\<forall>r. bases_since m (k r))"
| "bases_since m (RouteFailoverIP i s k) \<longleftrightarrow> (\<forall>r. bases_since m (k r))"
| "bases_since m (WaitInterval d k) \<longleftrightarrow> (\<forall>r. bases_since m (k r))"
| "bases_since m (RandInt64N n k) \<longleftrightarrow> (\<forall>r. bases_since m (k r))"
| "bases_since m (NewUUID k) \<longleftrightarrow> (\<forall>r. bases_since m (k r))"
| "bases_since m (RecorderPresent k) \<longleftrightarrow> (\<forall>r. bases_since m (k r))"
| "bases_since m (ReadEvents k) \<longleftrightarrow> (\<forall>r. bases_since m (k r))"
| "bases_since m (WriteEvents d p) \<longleftrightarrow> bases_since m p"
| "bases_since m (RecordEvent f ty rs msg p) \<longleftrightarrow> bases_since m p"
| "bases_since m (Observe ms p) \<longleftrightarrow> bases_since m p"
| "bases_since m (LinkList k) \<longleftrightarrow> (\<forall>r. bases_since m (k r))"
| "bases_since m (AddrList l k) \<longleftrightarrow> (\<forall>r. bases_since m (k r))"
| "bases_since m (AddrAdd l a k) \<longleftrightarrow> (\<forall>r. bases_since m (k r))"
| "bases_since m (AddrDel l a k) \<longleftrightarrow> (\<forall>r. bases_since m (k r))"

lemma bases_since_step:
  "pstep p e p' \<Longrightarrow> bases_since m p \<Longrightarrow> answer_since m e \<Longrightarrow>
     bases_since m p' \<and> (\<forall>b f r. e = EvPatchStatus b f r \<longrightarrow> attempt_since m b)"
  by (induction rule: pstep.induct) auto

lemma bases_since_steps:
  "steps p es p' \<Longrightarrow> bases_since m p \<Longrightarrow> list_all (answer_since m) es \<Longrightarrow>
     EvPatchStatus b f r \<in> set es \<Longrightarrow> attempt_since m b"
  by (induction rule: steps.induct) (auto dest: bases_since_step)

lemma bases_since_bind:
  "bases_since m p \<Longrightarrow> (\<And>x. bases_since m (f x)) \<Longrightarrow> bases_since m (bind p f)"
  by (induction p) (simp_all add: rangeI)

section \<open>The stretches of the method\<close>

named_theorems bases_simps "the status patches of a stretch start from fresh statuses"

lemma attempt_kept [simp]:
  "last_attempted_mutation_at st = last_attempted_mutation_at (foip_status foip) \<Longrightarrow>
     attempt_since m (set_status foip st) \<longleftrightarrow> attempt_since m foip"
  by (simp add: attempt_since_def)

lemma attempt_SetCondition [simp]:
  "last_attempted_mutation_at (SetCondition st c s rs msg now) = last_attempted_mutation_at st"
  by (simp add: SetCondition_def Let_def)

lemma attempt_AdvanceTransition:
  "AdvanceTransition st to now = Inr st' \<Longrightarrow>
     last_attempted_mutation_at st' = last_attempted_mutation_at st"
  by (auto simp: AdvanceTransition_def split: if_splits)

lemma attempt_StartTransition [simp]:
  "last_attempted_mutation_at (StartTransition uuid st now) = last_attempted_mutation_at st"
  by (simp add: StartTransition_def)

lemma bases_patch [bases_simps]:
  "bases_since m (patch_or_fail b f k) \<longleftrightarrow>
     attempt_since m b \<and> (\<forall>served. attempt_since m served \<longrightarrow> bases_since m (k served))"
  by (auto simp: patch_or_fail_def split: sum.split)

lemma bases_advance [bases_simps]:
  "(\<And>foip'. attempt_since m foip \<Longrightarrow> attempt_since m foip' \<Longrightarrow> bases_since m (k foip')) \<Longrightarrow>
   attempt_since m foip \<Longrightarrow> bases_since m (advanceTransition foip to now k)"
  by (auto simp: advanceTransition_def attempt_AdvanceTransition split: sum.split)

lemma bases_emitEvent [bases_simps]:
  "bases_since m k \<Longrightarrow> bases_since m (emitEvent foip ty rs msg k)"
  by (auto simp: emitEvent_def eventAllowed_def Let_def split: prod.split)

lemma bases_persist [bases_simps]:
  "attempt_since m base \<Longrightarrow> (\<And>res f. bases_since m (k False res f)) \<Longrightarrow>
     bases_since m (persistRecoveryState foip base ph message reason now k)"
  by (simp add: persistRecoveryState_def Let_def split: sum.split)

lemma bases_quiet_stretches [bases_simps]:
  assumes "attempt_since m foip"
  shows "bases_since m (begin_transition foip)" "bases_since m (persistInvalidSpec foip e)"
    "bases_since m (block_invalid_status foip e)" "bases_since m (resume_halted r foip)"
    "bases_since m (block_fenced foip e)" "bases_since m (cancel_candidate foip)"
    "bases_since m (reopen_selection foip)" "bases_since m (open_window foip)"
    "bases_since m (switch_target foip better)" "bases_since m (defer_mutation foip t)"
    "bases_since m (route_failed foip err)" "bases_since m (clean_owners r foip now)"
    "bases_since m (succeed r foip)" "bases_since m (unexpected_phase foip)"
  using assms
  by (simp_all add: begin_transition_def persistInvalidSpec_def block_invalid_status_def
      resume_halted_def block_fenced_def cancel_candidate_def reopen_selection_def open_window_def
      switch_target_def defer_mutation_def route_failed_def clean_owners_def succeed_def
      unexpected_phase_def Let_def bases_simps)

lemma bases_commit [bases_simps]:
  "attempt_since m foip \<Longrightarrow> bases_since m (commit_and_clean r foip)"
  by (simp add: commit_and_clean_def bases_simps split: option.split)

lemma bases_pursue [bases_simps]:
  "attempt_since m foip \<Longrightarrow> bases_since m (pursue_candidate foip better)"
  by (simp add: pursue_candidate_def Let_def bases_simps split: option.split)

lemma bases_select [bases_simps]:
  "attempt_since m foip \<Longrightarrow> bases_since m k \<Longrightarrow> bases_since m (select_candidate foip ob k)"
  by (simp add: select_candidate_def bases_simps split: option.split)

lemma bases_credentials [bases_simps]:
  "bases_since m k \<Longrightarrow> bases_since m (with_credentials ns foip k)"
  by (simp add: with_credentials_def Let_def split: sum.split option.split)

lemma adopted_attempt:
  "adopted_status st nodes sid = (st', nm) \<Longrightarrow>
     last_attempted_mutation_at st' = last_attempted_mutation_at st"
  by (auto simp: adopted_status_def Let_def split: if_splits option.splits)

lemma bases_observe [bases_simps]:
  assumes "attempt_since m foip" "\<And>f ob. attempt_since m f \<Longrightarrow> bases_since m (k f ob)"
  shows "bases_since m (observe_provider foip k)"
  using assms
  by (auto simp: observe_provider_def adopt_owner_def bases_simps adopted_attempt
      split: sum.split option.split prod.split)

lemma bases_resolve [bases_simps]:
  "(\<And>sid. bases_since m (k sid)) \<Longrightarrow> bases_since m (resolve_target r foip k)"
  by (simp add: resolve_target_def Let_def split: sum.split option.split)

section \<open>Probe gates\<close>

lemma bases_refs:
  assumes "\<And>x. bases_since m (k x)"
  shows "bases_since m (evaluate_refs w foip ph refs pc quo rcomp rquo results k)"
  using assms
proof (induction refs arbitrary: pc quo rcomp rquo results)
  case (Cons ref refs)
  have refs: "bases_since m (evaluate_refs w foip ph refs pc' quo' rc' rq' res k)"
    for pc' quo' rc' rq' res
    by (rule Cons.IH [OF Cons.prems])
  have judge: "bases_since m (judge_probe w foip resource resolved k')"
    if "\<And>x. bases_since m (k' x)" for resource resolved k'
    using that
    by (simp add: judge_probe_def load_ca_bundle_def execute_resolved_def
        persistProbeObservation_def Let_def split: sum.split option.split prod.split)
  have resolve: "bases_since m (resolveProbeSpec foip spec k')"
    if "\<And>x. bases_since m (k' x)" for spec k'
    using that by (simp add: resolveProbeSpec_def Let_def split: sum.split)
  show ?case
    unfolding evaluate_refs.simps bases_since.simps Let_def
    by (intro allI) (simp add: Cons.prems refs judge resolve split: sum.split)
qed simp

lemma bases_gate [bases_simps]:
  "(\<And>x. bases_since m (k x)) \<Longrightarrow> bases_since m (evaluateProbePhase w foip ph k)"
  by (simp add: evaluateProbePhase_def Let_def bases_refs)

lemma bases_prepare [bases_simps]:
  "attempt_since m foip \<Longrightarrow> bases_since m k \<Longrightarrow> bases_since m (prepare_target foip k)"
  by (simp add: prepare_target_def bases_simps split: option.split)

section \<open>Routing and recovery\<close>

lemma bases_verify_route:
  "(\<And>b. bases_since m (k b)) \<Longrightarrow> bases_since m (verify_route n ip sid k)"
  by (induction n) (auto split: sum.split option.split)

lemma bases_route [bases_simps]:
  assumes "attempt_since m foip" "\<And>f. attempt_since m f \<Longrightarrow> bases_since m (k f)"
  shows "bases_since m (route_provider foip ob sid k)"
  using assms
  by (auto simp: route_provider_def mutate_route_def Let_def bases_simps
      intro!: bases_verify_route split: prod.split option.split)

lemma bases_recover [bases_simps]:
  assumes "attempt_since m foip" "\<And>res f. bases_since m (k False res f)"
    and "\<And>res f. attempt_since m f \<Longrightarrow> bases_since m (k True res f)"
  shows "bases_since m (recoverPostRouteFailure foip foipID k)"
proof -
  have "bases_since m (rollback_route f foip i s now k)" for f i s now
    using assms by (auto simp: rollback_route_def Let_def bases_simps split: sum.split option.split)
  then have "bases_since m (rollback_provider f foip i now k)" for f i now
    using assms
    by (auto simp: rollback_provider_def rollback_gated_def Let_def bases_simps
        split: sum.split option.split prod.split)
  then show ?thesis
    using assms
    by (auto simp: recoverPostRouteFailure_def Let_def commit_degraded_def manual_intervention_def
        bases_simps intro!: bases_emitEvent split: sum.split recovery_policy.split)
qed

lemma bases_handoff: "attempt_since m foip \<Longrightarrow> bases_since m (handoff r foip ob)"
  by (auto simp: handoff_def verify_provider_def verify_traffic_def bases_simps
      intro!: bases_resolve bases_prepare bases_route bases_gate bases_recover bases_advance
      split: option.split sum.split)

lemma bases_Reconcile: "bases_since m (Reconcile r ns name)"
proof -
  have finish: "bases_since m (finish_reconcile ph res)" for ph res
    by (simp add: finish_reconcile_def)
  have "bases_since m (reconcile_foip r ns foip)" if "attempt_since m foip" for foip
    using that
    by (auto simp: reconcile_foip_def intro!: bases_simps bases_handoff split: option.split)
  then show ?thesis
    by (auto simp: Reconcile_def Let_def intro!: finish bases_since_bind split: sum.split)
qed

section \<open>Two mutations of a history\<close>

lemma history_split:
  assumes "controller_history r ns name es" "es = pre @ e # post"
  shows "\<exists>old cur rest p. pre = old @ cur \<and> controller_history r ns name old
    \<and> steps (Reconcile r ns name) (cur @ e # rest) p \<and> set rest \<subseteq> set post"
  using assms
proof (induction arbitrary: post rule: controller_history.induct)
  case (another_run es es' p)
  consider us where "es = pre @ e # us" "set us \<subseteq> set post"
    | us where "pre = es @ us" "es' = us @ e # post"
    using another_run.prems by (auto simp: append_eq_append_conv2 append_eq_Cons_conv)
  then show ?case
  proof cases
    case 1
    from another_run.IH [OF 1(1)] obtain old cur rest p' where "pre = old @ cur"
      "controller_history r ns name old" "steps (Reconcile r ns name) (cur @ e # rest) p'"
      "set rest \<subseteq> set us" by blast
    then show ?thesis using 1(2) order_trans [of "set rest" "set us" "set post"] by blast
  next
    case 2
    with another_run.hyps show ?thesis by blast
  qed
qed simp

lemma route_evidence:
  assumes "steps (Reconcile r ns name) (cur @ EvRouteFailoverIP i s x # rest) p"
  obtains base obj served a t where "EvPatchStatus base obj (Inr served) \<in> set cur"
    "last_attempted_mutation_at (foip_status obj) = Some a" "EvNow a \<in> set cur"
    "EvNow t \<in> set cur" "cooldown_elapsed base t"
  using Reconcile_safe [OF assms] unfolding safe_call.simps forward_route_ok_def rollback_route_ok_def
  by blast

lemma cooldown_since:
  assumes "cooldown_elapsed base t" "attempt_since m base"
  shows "m + providerCooldown (foip_spec base) \<le> t"
  using assms
  by (auto simp: cooldown_elapsed_def providerMutationGate_def attempt_since_def Let_def
      split: option.splits)

lemma whole_second_near: "t - second < whole_second t"
  using pos_mod_bound [of second t] by (simp add: whole_second_def second_def minus_mod_eq_div_mult [symmetric])

lemma phases_kept_subset: "phases_kept es \<Longrightarrow> set es' \<subseteq> set es \<Longrightarrow> phases_kept es'"
  by (auto simp: phases_kept_def)

lemma one_route_in_run:
  assumes "steps (Reconcile r ns name) (cur @ EvRouteFailoverIP i s x # rest) p"
    and "phases_kept (cur @ EvRouteFailoverIP i s x # rest)"
  shows "EvRouteFailoverIP i' s' x' \<notin> set cur"
  using routes_within_steps [OF assms(1) routes_Reconcile assms(2)]
  by (auto dest!: split_list)

section \<open>Property\<close>

text \<open>
  C2: Across crashes, restarts and hand-overs of leadership, provider mutations are a cooldown
  apart: for any two of them in a history of runs, forward routes or rollbacks, the first was
  attempted at a persisted time, and before the second the clock was read at a time that is later
  by more than the provider cooldown in force less the second that persisting the attempt loses.
  The API server must answer with the persisted attempt and with the phase that was written.
\<close>

theorem provider_mutations_are_spaced:
  assumes "controller_history r ns name
      (pre @ EvRouteFailoverIP i s x # mid @ EvRouteFailoverIP i' s' x' # post)"
    and "attempts_stored (pre @ EvRouteFailoverIP i s x # mid @ EvRouteFailoverIP i' s' x' # post)"
    and "phases_kept (pre @ EvRouteFailoverIP i s x # mid @ EvRouteFailoverIP i' s' x' # post)"
  shows "\<exists>a t base obj served first.
    EvPatchStatus first obj (Inr served) \<in> set pre
    \<and> last_attempted_mutation_at (foip_status obj) = Some a \<and> EvNow a \<in> set pre
    \<and> (\<exists>obj' served'. EvPatchStatus base obj' (Inr served') \<in> set mid) \<and> EvNow t \<in> set mid
    \<and> a + providerCooldown (foip_spec base) - second < t"
proof -
  let ?r1 = "EvRouteFailoverIP i s x" and ?r2 = "EvRouteFailoverIP i' s' x'"
  obtain old cur rest p where run: "pre @ ?r1 # mid = old @ cur" "controller_history r ns name old"
    "steps (Reconcile r ns name) (cur @ ?r2 # rest) p" "set rest \<subseteq> set post"
    using history_split [OF assms(1), of "pre @ ?r1 # mid" ?r2 post]
    by (simp only: append_assoc append_Cons simp_thms) blast
  have "set (cur @ ?r2 # rest) \<subseteq> set (pre @ ?r1 # mid @ ?r2 # post)"
    using arg_cong [OF run(1), of set] run(4) by auto
  then have "?r1 \<notin> set cur"
    by (intro one_route_in_run [OF run(3)] phases_kept_subset [OF assms(3)])
  then obtain between where between: "old = pre @ ?r1 # between" "mid = between @ cur"
    using run(1) by (auto simp: append_eq_append_conv2 append_eq_Cons_conv Cons_eq_append_conv)
  obtain old1 now1 rest1 p1 where first: "pre = old1 @ now1"
    "steps (Reconcile r ns name) (now1 @ ?r1 # rest1) p1"
    using history_split [OF run(2) between(1)] by metis
  obtain base1 obj served a t1 where one: "EvPatchStatus base1 obj (Inr served) \<in> set now1"
    "last_attempted_mutation_at (foip_status obj) = Some a" "EvNow a \<in> set now1"
    using route_evidence [OF first(2)] by metis
  obtain base obj' served' a' t where two: "EvPatchStatus base obj' (Inr served') \<in> set cur"
    "EvNow t \<in> set cur" "cooldown_elapsed base t"
    using route_evidence [OF run(3)] by metis
  obtain before after where "pre = before @ EvPatchStatus base1 obj (Inr served) # after"
    using one(1) first(1) by (metis UnCI set_append split_list)
  then have "list_all (answer_since (whole_second a)) (after @ ?r1 # mid @ ?r2 # post)"
    using assms(2) by (intro attempts_stored_after [OF _ one(2)]) simp
  moreover have "list_all (answer_since (whole_second a)) [?r2]" by simp
  ultimately have "list_all (answer_since (whole_second a)) (cur @ ?r2 # rest)"
    using run(4) between(2) by (auto simp: list_all_iff)
  then have "attempt_since (whole_second a) base"
    using bases_since_steps [OF run(3) bases_Reconcile] two(1) by auto
  with two(3) have "whole_second a + providerCooldown (foip_spec base) \<le> t"
    by (rule cooldown_since)
  then have "a + providerCooldown (foip_spec base) - second < t"
    using whole_second_near [of a] by linarith
  moreover have "set now1 \<subseteq> set pre" "set cur \<subseteq> set mid" using first(1) between(2) by auto
  ultimately show ?thesis using one two(1,2) by blast
qed

section \<open>A history with two mutations\<close>

text \<open>The cluster of two nodes with a provider that turns every route down.\<close>

definition busy :: go_error where "busy = GoError ''busy''"

definition busy_env :: "cluster environment" where
  "busy_env = (cluster_env '''')\<lparr>env_route := (\<lambda>fid sid w. (Some busy, w)),
     env_rand := (\<lambda>n w. (0, w))\<rparr>"

lemma busy_calls:
  "env_now busy_env w = (clock w, w)"
  "env_get_foip busy_env ns n w = (Inr (stored w), w)"
  "env_patch busy_env b f w = patch_stored b f w"
  "env_secret busy_env ns n w = (Inr [(''refreshToken'', ''token''), (''userId'', ''7'')], w)"
  "env_nodes busy_env w = (Inr (cluster_nodes w), w)"
  "env_node busy_env n w = (find_node (cluster_nodes w) n, w)"
  "env_client busy_env uid tok w = w"
  "env_find busy_env ip w = (Inr (1, owner w), w)"
  "env_route busy_env fid sid w = (Some busy, w)"
  "env_rand busy_env m w = (0, w)"
  "env_recorder busy_env w = False"
  "env_observe busy_env ms w = w"
  by (simp_all add: busy_env_def cluster_env_def)

lemmas run_busy = run_cases run_bind busy_calls patch_stored_def logged_pair texts Let_def
  Reconcile_def [THEN run_eq] reconcile_foip_def [THEN run_eq]
  with_credentials_def [THEN run_eq] observe_provider_def [THEN run_eq]
  adopt_owner_def [THEN run_eq] select_candidate_def [THEN run_eq]
  handoff_def [THEN run_eq] resolve_target_def [THEN run_eq] prepare_target_def [THEN run_eq]
  evaluateProbePhase_def [THEN run_eq] route_provider_def [THEN run_eq]
  mutate_route_def [THEN run_eq] route_failed_def [THEN run_eq]
  finish_reconcile_def [THEN run_eq] patch_or_fail_def [THEN run_eq]

abbreviation busy_run :: "cluster \<Rightarrow> event list" where
  "busy_run w \<equiv> fst (run busy_env (Reconcile operator_config ''ns'' ''ip'') w)"

definition first_try :: "event list" where
  "first_try = busy_run (cluster_at t1 st4 11 both)"

definition second_try :: "event list" where
  "second_try = busy_run (cluster_at (t1 + minute)
     (st4\<lparr>last_attempted_mutation_at := Some t1, retry_count := 1\<rparr>) 11 both)"

text \<open>Each run is evaluated once, for all that is to be known of it.\<close>

lemma whole_numerals:
  "whole_second 10000000000 = 10000000000" "whole_second 70000000000 = 70000000000"
  by (simp_all add: whole_second_def second_def)

fun patch_attempts :: "time \<Rightarrow> event \<Rightarrow> bool" where
  "patch_attempts t (EvPatchStatus b f r) \<longleftrightarrow>
     last_attempted_mutation_at (foip_status f) = Some t \<and> keeps_phase f r"
| "patch_attempts t (EvNow u) \<longleftrightarrow> u = t"
| "patch_attempts t _ \<longleftrightarrow> True"

lemma first_try_facts:
  "\<exists>es. first_try = es \<and> attempts_stored es \<and> list_all (patch_attempts 10000000000) es
     \<and> length (filter is_route es) = 1 \<and> EvRouteFailoverIP 1 12 (Some busy) \<in> set es"
  by (simp add: first_try_def run_busy status_rules statuses cong: run_congs)
    (simp add: attempt_since_def whole_numerals keeps_phase_def)

lemma second_try_facts:
  "\<exists>es. second_try = es \<and> attempts_stored es \<and> list_all (patch_attempts 70000000000) es
     \<and> list_all (answer_since 10000000000) es \<and> EvRouteFailoverIP 1 12 (Some busy) \<in> set es"
  by (simp add: second_try_def run_busy status_rules statuses minute_def cong: run_congs)
    (simp add: attempt_since_def whole_numerals keeps_phase_def)

lemma tries_route:
  "EvRouteFailoverIP 1 12 (Some busy) \<in> set first_try"
  "EvRouteFailoverIP 1 12 (Some busy) \<in> set second_try"
  using first_try_facts second_try_facts by simp_all

lemma patch_attempts_kept: "list_all (patch_attempts t) es \<Longrightarrow> phases_kept es"
  by (auto simp: phases_kept_def list_all_iff dest!: bspec)

lemma first_try_calls:
  "phases_kept first_try" "length (filter is_route first_try) = 1"
  "EvNow t \<in> set first_try \<Longrightarrow> t = t1"
proof -
  have facts: "list_all (patch_attempts 10000000000) first_try"
    "length (filter is_route first_try) = 1"
    using first_try_facts by simp_all
  show "phases_kept first_try" using facts(1) by (rule patch_attempts_kept)
  show "EvNow t \<in> set first_try \<Longrightarrow> t = t1"
    using facts(1) by (auto simp: list_all_iff second_def dest!: bspec)
  show "length (filter is_route first_try) = 1" by (fact facts(2))
qed

lemma tries_kept: "phases_kept (first_try @ second_try)"
proof -
  have "phases_kept second_try" using second_try_facts patch_attempts_kept by blast
  with first_try_calls(1) show ?thesis by (auto simp: phases_kept_def)
qed

lemma attempts_stored_append:
  assumes "attempts_stored xs" "attempts_stored ys"
    and "\<And>b f served t. EvPatchStatus b f (Inr served) \<in> set xs \<Longrightarrow>
      last_attempted_mutation_at (foip_status f) = Some t \<Longrightarrow>
      list_all (answer_since (whole_second t)) ys"
  shows "attempts_stored (xs @ ys)"
  using assms
proof (induction xs)
  case (Cons e xs)
  then have "attempts_stored (xs @ ys)" by auto
  moreover have "list_all (answer_since (whole_second t)) ys"
    if "e = EvPatchStatus b f (Inr served)" "last_attempted_mutation_at (foip_status f) = Some t"
    for b f served t
    using Cons.prems(3) that by auto
  ultimately show ?case
    using Cons.prems(1) by (auto split: event.splits sum.splits option.splits)
qed simp

lemma tries_stored: "attempts_stored (first_try @ second_try)"
proof (rule attempts_stored_append)
  fix b f served t
  assume "EvPatchStatus b f (Inr served) \<in> set first_try"
    "last_attempted_mutation_at (foip_status f) = Some t"
  then have "t = 10000000000"
    using first_try_facts by (auto simp: list_all_iff dest!: bspec)
  then show "list_all (answer_since (whole_second t)) second_try"
    using second_try_facts by (simp add: whole_numerals)
qed (use first_try_facts second_try_facts in \<open>simp_all\<close>)

lemma tries_history: "controller_history operator_config ''ns'' ''ip'' (first_try @ second_try)"
proof -
  have "controller_history operator_config ''ns'' ''ip'' ([] @ first_try)"
    unfolding first_try_def by (rule another_run [OF fresh fst_run_steps])
  then show ?thesis
    unfolding second_try_def by (simp only: append_Nil) (rule another_run [OF _ fst_run_steps])
qed

theorem provider_mutations_are_spaced_witness:
  "\<exists>pre mid post.
     first_try @ second_try = pre @ EvRouteFailoverIP 1 12 (Some busy)
        # mid @ EvRouteFailoverIP 1 12 (Some busy) # post
     \<and> (\<exists>a t base obj served first.
          EvPatchStatus first obj (Inr served) \<in> set pre
          \<and> last_attempted_mutation_at (foip_status obj) = Some a \<and> EvNow a \<in> set pre
          \<and> (\<exists>obj' served'. EvPatchStatus base obj' (Inr served') \<in> set mid)
          \<and> EvNow t \<in> set mid \<and> a + providerCooldown (foip_spec base) - second < t)"
proof -
  obtain pre mid1 where one: "first_try = pre @ EvRouteFailoverIP 1 12 (Some busy) # mid1"
    using split_list [OF tries_route(1)] by blast
  obtain mid2 post where two: "second_try = mid2 @ EvRouteFailoverIP 1 12 (Some busy) # post"
    using split_list [OF tries_route(2)] by blast
  have split: "first_try @ second_try = pre @ EvRouteFailoverIP 1 12 (Some busy)
      # (mid1 @ mid2) @ EvRouteFailoverIP 1 12 (Some busy) # post"
    by (simp add: one two)
  show ?thesis
    by (rule exI [of _ pre], rule exI [of _ "mid1 @ mid2"], rule exI [of _ post], rule conjI [OF split])
      (rule provider_mutations_are_spaced [OF tries_history [unfolded split]
          tries_stored [unfolded split] tries_kept [unfolded split]])
qed

text \<open>
  The promise is needed.  The controller reads the object through the cache of its manager: if the
  second run still reads the status from before the attempt, it routes again at once.
\<close>

theorem stale_read_routes_at_once:
  "\<exists>es. controller_history operator_config ''ns'' ''ip'' es \<and> phases_kept es
     \<and> length (filter is_route es) = 2 \<and> (\<forall>t. EvNow t \<in> set es \<longrightarrow> t = t1)"
proof (intro exI conjI)
  show "controller_history operator_config ''ns'' ''ip'' (([] @ first_try) @ first_try)"
    unfolding first_try_def by (rule another_run [OF another_run [OF fresh fst_run_steps] fst_run_steps])
qed (use first_try_calls in \<open>auto simp: phases_kept_def\<close>)

end
