(* ===== verification/Go_Memory.thy ===== *)
theory Go_Memory
  imports Api_State "HOL-Library.Sublist"
begin

text \<open>
  The memory behind the Go structs of \<open>api/v1\<close>: pointers, slices and maps refer to cells, and what
  a deep copy has to achieve is a contract.  The other theories work on values; this one and
  Deep_Copy show that they may.
\<close>

section \<open>Cells, pointers and slices\<close>

type_synonym addr = nat

text \<open>A slice: nil, or its array and its length; the rest of the array is spare capacity.\<close>

type_synonym slice = "(addr \<times> nat) option"

text \<open>
  The Go structs, each as its plain fields and its references.  The plain fields are kept in the
  value of the model, whose other fields are not used.  Of the metadata of an object, the
  timestamps, owner references and managed fields are references to cells whose contents are left
  to the library.
\<close>

record go_meta =
  meta_name :: string
  meta_namespace :: string
  meta_uid :: string
  meta_annotations :: "addr option"
  meta_labels :: "addr option"
  meta_finalizers :: slice
  meta_others :: "addr option list"

record go_list_meta =
  list_version :: string
  remaining_count :: "addr option"

record go_selector =
  selector_plain :: secret_key_selector
  ref_optional :: "addr option"

record go_spec =
  spec_plain :: failover_ip_spec
  ref_probes :: slice

record go_status =
  status_plain :: failover_ip_status
  ref_local_owners :: slice
  ref_phase_started :: "addr option"
  ref_last_attempted :: "addr option"
  ref_last_confirmed :: "addr option"
  ref_next_eligible :: "addr option"
  ref_last_transition :: "addr option"
  ref_candidate_since :: "addr option"
  ref_next_cleanup :: "addr option"
  ref_conditions :: slice

record go_foip =
  foip_type_meta :: "string \<times> string"
  foip_meta :: go_meta
  go_foip_spec :: go_spec
  go_foip_status :: go_status

record go_policy =
  policy_plain :: probe_network_policy
  ref_allowed :: slice
  ref_denied :: slice

record go_probe_spec =
  probe_plain :: failover_probe_spec
  go_network_policy :: go_policy
  ref_kubernetes :: "addr option"
  ref_credential :: "addr option"
  ref_ca_bundle :: "addr option"
  ref_headers :: slice

record go_probe_status =
  ref_probe_conditions :: slice
  ref_observations :: slice

record go_probe =
  probe_type_meta :: "string \<times> string"
  probe_meta :: go_meta
  go_spec_of_probe :: go_probe_spec
  go_status_of_probe :: go_probe_status

record go_list =
  list_type_meta :: "string \<times> string"
  list_meta :: go_list_meta
  ref_items :: slice

datatype cell =
  Strings (the_strings: "string list")
| ObjectReferences (the_references: "string list")
| Conditions (the_conditions: "condition list")
| Headers (the_headers: "probe_header list")
| ObservationArray (the_observations: "probe_observation list")
| FoipArray (the_foips: "go_foip list")
| ProbeArray (the_probes: "go_probe list")
| StringMap (the_map: string_map)
| TimeCell (the_time: time)
| IntCell (the_int: int)
| BoolCell (the_bool: bool)
| LibraryCell (the_library: string)
| SelectorCell (the_selector: go_selector)
| KubernetesCell (the_kubernetes: kubernetes_readiness_target)
| TargetCell (the_target: probe_target)
| HeaderCell (the_header: probe_header)
| ObservationCell (the_observation: probe_observation)
| PolicyCell (the_policy: go_policy)
| SpecCell (the_spec: go_spec)
| StatusCell (the_status: go_status)
| FoipCell (the_foip: go_foip)
| ProbeSpecCell (the_probe_spec: go_probe_spec)
| ProbeStatusCell (the_probe_status: go_probe_status)
| ProbeCell (the_probe: go_probe)
| FoipListCell (the_foip_list: go_list)
| ProbeListCell (the_probe_list: go_list)

text \<open>Memory only grows at its end; the garbage collector takes away what nothing refers to.\<close>

type_synonym memory = "cell list"

definition valid :: "memory \<Rightarrow> addr set \<Rightarrow> bool" where
  "valid m A \<longleftrightarrow> (\<forall>a \<in> A. a < length m)"

definition fresh :: "memory \<Rightarrow> addr set \<Rightarrow> bool" where
  "fresh m A \<longleftrightarrow> (\<forall>a \<in> A. length m \<le> a)"

definition agree :: "memory \<Rightarrow> memory \<Rightarrow> addr set \<Rightarrow> bool" where
  "agree m m' A \<longleftrightarrow> (\<forall>a \<in> A. a < length m \<and> a < length m' \<and> m ! a = m' ! a)"

lemma agree_valid: "agree m m' A \<Longrightarrow> valid m A \<and> valid m' A"
  by (auto simp: agree_def valid_def)

lemma agree_mono: "agree m m' A \<Longrightarrow> B \<subseteq> A \<Longrightarrow> agree m m' B"
  by (auto simp: agree_def)

lemma agree_prefix: "prefix m m' \<Longrightarrow> valid m A \<Longrightarrow> agree m m' A"
  by (auto simp: prefix_def agree_def valid_def nth_append)

lemma valid_prefix: "prefix m m' \<Longrightarrow> valid m A \<Longrightarrow> valid m' A"
  using agree_prefix agree_valid by blast

lemma fresh_prefix: "prefix m m' \<Longrightarrow> fresh m' A \<Longrightarrow> fresh m A"
  using prefix_length_le by (fastforce simp: fresh_def)

lemma valid_sets [simp]:
  "valid m {}" "valid m (insert a A) \<longleftrightarrow> a < length m \<and> valid m A"
  "valid m (A \<union> B) \<longleftrightarrow> valid m A \<and> valid m B"
  "valid m (\<Union>x \<in> X. F x) \<longleftrightarrow> (\<forall>x \<in> X. valid m (F x))"
  by (auto simp: valid_def)

lemma fresh_sets [simp]:
  "fresh m {}" "fresh m (insert a A) \<longleftrightarrow> length m \<le> a \<and> fresh m A"
  "fresh m (A \<union> B) \<longleftrightarrow> fresh m A \<and> fresh m B"
  "fresh m (\<Union>x \<in> X. F x) \<longleftrightarrow> (\<forall>x \<in> X. fresh m (F x))"
  by (auto simp: fresh_def)

lemma agree_sets [simp]:
  "agree m m' {}"
  "agree m m' (insert a A) \<longleftrightarrow> a < length m \<and> a < length m' \<and> m ! a = m' ! a \<and> agree m m' A"
  "agree m m' (A \<union> B) \<longleftrightarrow> agree m m' A \<and> agree m m' B"
  "agree m m' (\<Union>x \<in> X. F x) \<longleftrightarrow> (\<forall>x \<in> X. agree m m' (F x))"
  by (auto simp: agree_def)

section \<open>What a deep copy promises\<close>

text \<open>
  A Go value is seen through the model value it stands for and the cells it reaches; both depend on
  these cells only.  A copy allocates, changes no existing cell, stands for the same value, and
  reaches new cells only.
\<close>

locale copier =
  fixes view :: "memory \<Rightarrow> 'g \<Rightarrow> 'v"
    and refs :: "memory \<Rightarrow> 'g \<Rightarrow> addr set"
    and copy :: "'g \<Rightarrow> memory \<Rightarrow> 'g \<times> memory"
  assumes local: "agree m m' (refs m x) \<Longrightarrow> view m' x = view m x \<and> refs m' x = refs m x"
    and copied: "valid m (refs m x) \<Longrightarrow> copy x m = (y, m') \<Longrightarrow>
      prefix m m' \<and> view m' y = view m x \<and> valid m' (refs m' y) \<and> fresh m (refs m' y)"
begin

lemma stable:
  assumes "prefix m m'" "valid m (refs m x)"
  shows "view m' x = view m x" "refs m' x = refs m x" "valid m' (refs m' x)"
  using local [OF agree_prefix [OF assms]] valid_prefix [OF assms] by simp_all

lemma copy_disjoint:
  assumes "valid m (refs m x)" "copy x m = (y, m')"
  shows "refs m' x \<inter> refs m' y = {}"
  using copied [OF assms] stable(2) [of m m' x] assms(1)
  by (fastforce simp: valid_def fresh_def)

text \<open>Whatever happens to the rest of the memory, the copy keeps the value of the original.\<close>

lemma isolated:
  assumes "valid m (refs m x)" "copy x m = (y, m')" "agree m' m'' (refs m' y)"
  shows "view m'' y = view m x"
  using copied [OF assms(1,2)] local [OF assms(3)] by simp

end

section \<open>Copying structs, pointers and slices\<close>

text \<open>
  The combinators a struct is copied with: a field after the other, through a pointer, or element
  by element into a new array.
\<close>

definition copy_both ::
  "('a \<Rightarrow> memory \<Rightarrow> 'a \<times> memory) \<Rightarrow> ('b \<Rightarrow> memory \<Rightarrow> 'b \<times> memory) \<Rightarrow> 'a \<times> 'b \<Rightarrow> memory
     \<Rightarrow> ('a \<times> 'b) \<times> memory" where
  "copy_both c1 c2 p m =
     (let (x, m1) = c1 (fst p) m; (y, m2) = c2 (snd p) m1 in ((x, y), m2))"

fun copy_list :: "('a \<Rightarrow> memory \<Rightarrow> 'a \<times> memory) \<Rightarrow> 'a list \<Rightarrow> memory \<Rightarrow> 'a list \<times> memory" where
  "copy_list c [] m = ([], m)"
| "copy_list c (x # xs) m = (let (y, m1) = c x m; (ys, m2) = copy_list c xs m1 in (y # ys, m2))"

text \<open>\<open>new\<close> and \<open>make\<close>: a pointer to, or a slice of, a copy of what the old one refers to.\<close>

definition copy_pointer ::
  "('a \<Rightarrow> cell) \<Rightarrow> (cell \<Rightarrow> 'a) \<Rightarrow> ('a \<Rightarrow> memory \<Rightarrow> 'a \<times> memory) \<Rightarrow> addr option \<Rightarrow> memory
     \<Rightarrow> addr option \<times> memory" where
  "copy_pointer new old c p m =
     (case p of
        None \<Rightarrow> (None, m)
      | Some a \<Rightarrow> (let (x, m1) = c (old (m ! a)) m in (Some (length m1), m1 @ [new x])))"

definition copy_slice ::
  "('a list \<Rightarrow> cell) \<Rightarrow> (cell \<Rightarrow> 'a list) \<Rightarrow> ('a \<Rightarrow> memory \<Rightarrow> 'a \<times> memory) \<Rightarrow> slice \<Rightarrow> memory
     \<Rightarrow> slice \<times> memory" where
  "copy_slice new old c s m =
     (case s of
        None \<Rightarrow> (None, m)
      | Some (a, n) \<Rightarrow>
          (let (xs, m1) = copy_list c (take n (old (m ! a))) m in
           (Some (length m1, length xs), m1 @ [new xs])))"

text \<open>What they stand for and reach.\<close>

definition no_refs :: "memory \<Rightarrow> 'a \<Rightarrow> addr set" where "no_refs m x = {}"

definition pointer_view :: "(cell \<Rightarrow> 'a) \<Rightarrow> (memory \<Rightarrow> 'a \<Rightarrow> 'v) \<Rightarrow> memory \<Rightarrow> addr option \<Rightarrow> 'v option"
  where "pointer_view old v m p = map_option (\<lambda>a. v m (old (m ! a))) p"

definition pointer_refs ::
  "(cell \<Rightarrow> 'a) \<Rightarrow> (memory \<Rightarrow> 'a \<Rightarrow> addr set) \<Rightarrow> memory \<Rightarrow> addr option \<Rightarrow> addr set" where
  "pointer_refs old r m p = (case p of None \<Rightarrow> {} | Some a \<Rightarrow> insert a (r m (old (m ! a))))"

definition slice_view ::
  "(cell \<Rightarrow> 'a list) \<Rightarrow> (memory \<Rightarrow> 'a \<Rightarrow> 'v) \<Rightarrow> memory \<Rightarrow> slice \<Rightarrow> 'v list" where
  "slice_view old v m s = (case s of None \<Rightarrow> [] | Some (a, n) \<Rightarrow> map (v m) (take n (old (m ! a))))"

definition slice_refs ::
  "(cell \<Rightarrow> 'a list) \<Rightarrow> (memory \<Rightarrow> 'a \<Rightarrow> addr set) \<Rightarrow> memory \<Rightarrow> slice \<Rightarrow> addr set" where
  "slice_refs old r m s =
     (case s of None \<Rightarrow> {} | Some (a, n) \<Rightarrow> insert a (\<Union>x \<in> set (take n (old (m ! a))). r m x))"

lemma copier_plain: "copier (\<lambda>m x. f x) no_refs Pair"
  by unfold_locales (auto simp: no_refs_def)

lemma copier_both:
  assumes "copier v1 r1 c1" "copier v2 r2 c2"
  shows "copier (\<lambda>m p. (v1 m (fst p), v2 m (snd p))) (\<lambda>m p. r1 m (fst p) \<union> r2 m (snd p))
    (copy_both c1 c2)"
proof (unfold_locales, goal_cases)
  case (1 m m' p)
  then show ?case
    using copier.local [OF assms(1), of m m' "fst p"] copier.local [OF assms(2), of m m' "snd p"]
    by simp
next
  case (2 m p q m')
  obtain x m1 where c1: "c1 (fst p) m = (x, m1)" by (cases "c1 (fst p) m")
  obtain y m2 where c2: "c2 (snd p) m1 = (y, m2)" by (cases "c2 (snd p) m1")
  have q: "q = (x, y)" "m' = m2" using 2(2) c1 c2 by (simp_all add: copy_both_def)
  have one: "prefix m m1" "v1 m1 x = v1 m (fst p)" "valid m1 (r1 m1 x)" "fresh m (r1 m1 x)"
    using copier.copied [OF assms(1) _ c1] 2(1) by simp_all
  have mid: "v2 m1 (snd p) = v2 m (snd p)" "valid m1 (r2 m1 (snd p))"
    using copier.stable [OF assms(2) one(1)] 2(1) by simp_all
  have two: "prefix m1 m2" "v2 m2 y = v2 m1 (snd p)" "valid m2 (r2 m2 y)" "fresh m1 (r2 m2 y)"
    using copier.copied [OF assms(2) mid(2) c2] by simp_all
  show ?case
    using one mid two copier.stable [OF assms(1) two(1) one(3)] fresh_prefix [OF one(1) two(4)]
    by (simp add: q prefix_order.trans [OF one(1) two(1)])
qed

lemma copier_list:
  assumes "copier v r c"
  shows "copier (\<lambda>m. map (v m)) (\<lambda>m xs. \<Union>x \<in> set xs. r m x) (copy_list c)"
proof (unfold_locales, goal_cases)
  case (1 m m' xs)
  then show ?case using copier.local [OF assms, of m m'] by simp
next
  case (2 m xs ys m')
  then show ?case
  proof (induction xs arbitrary: m ys)
    case (Cons x xs)
    obtain y m1 where 1: "c x m = (y, m1)" by (cases "c x m")
    obtain zs m2 where 2: "copy_list c xs m1 = (zs, m2)" by (cases "copy_list c xs m1")
    have ys: "ys = y # zs" "m' = m2" using Cons.prems(2) 1 2 by simp_all
    have one: "prefix m m1" "v m1 y = v m x" "valid m1 (r m1 y)" "fresh m (r m1 y)"
      using copier.copied [OF assms _ 1] Cons.prems(1) by simp_all
    have mid: "\<And>x. x \<in> set xs \<Longrightarrow> v m1 x = v m x \<and> valid m1 (r m1 x)"
      using copier.stable [OF assms one(1)] Cons.prems(1) by simp
    then have two: "prefix m1 m2" "map (v m2) zs = map (v m1) xs"
      "\<And>z. z \<in> set zs \<Longrightarrow> valid m2 (r m2 z) \<and> fresh m1 (r m2 z)"
      using Cons.IH [of m1 zs] 2 ys(2) by simp_all
    show ?case
      using one mid two copier.stable [OF assms two(1) one(3)] fresh_prefix [OF one(1)]
      by (simp add: ys prefix_order.trans [OF one(1) two(1)])
  qed simp
qed

lemma copier_pointer:
  assumes "copier v r c" and old: "\<And>x. old (new x) = x"
  shows "copier (pointer_view old v) (pointer_refs old r) (copy_pointer new old c)"
proof (unfold_locales, goal_cases)
  case (1 m m' p)
  show ?case
  proof (cases p)
    case (Some a)
    then have "m' ! a = m ! a" "agree m m' (r m (old (m ! a)))"
      using 1 by (auto simp: pointer_refs_def)
    with Some show ?thesis
      using copier.local [OF assms(1)] by (simp add: pointer_view_def pointer_refs_def)
  qed (simp add: pointer_view_def pointer_refs_def)
next
  case (2 m p q m')
  show ?case
  proof (cases p)
    case None
    then show ?thesis
      using 2 by (simp add: copy_pointer_def pointer_view_def pointer_refs_def)
  next
    case (Some a)
    obtain x m1 where 1: "c (old (m ! a)) m = (x, m1)" by (cases "c (old (m ! a)) m")
    have q: "q = Some (length m1)" "m' = m1 @ [new x]"
      using 2(2) Some 1 by (simp_all add: copy_pointer_def)
    have one: "prefix m m1" "v m1 x = v m (old (m ! a))" "valid m1 (r m1 x)" "fresh m (r m1 x)"
      using copier.copied [OF assms(1) _ 1] 2(1) Some by (simp_all add: pointer_refs_def)
    have "prefix m1 m'" by (simp add: q)
    from copier.stable [OF assms(1) this one(3)] one prefix_order.trans [OF one(1) this]
      prefix_length_le [OF one(1)]
    show ?thesis by (simp add: q Some pointer_view_def pointer_refs_def old)
  qed
qed

lemma copier_slice:
  assumes "copier v r c" and old: "\<And>xs. old (new xs) = xs"
  shows "copier (slice_view old v) (slice_refs old r) (copy_slice new old c)"
proof (unfold_locales, goal_cases)
  case (1 m m' s)
  show ?case
  proof (cases s)
    case (Some k)
    obtain a n where k: "k = (a, n)" by (cases k)
    have "m' ! a = m ! a" "agree m m' (\<Union>x \<in> set (take n (old (m ! a))). r m x)"
      using 1 Some k by (auto simp: slice_refs_def simp del: agree_sets(4))
    with Some k show ?thesis
      using copier.local [OF copier_list [OF assms(1)]] by (simp add: slice_view_def slice_refs_def)
  qed (simp add: slice_view_def slice_refs_def)
next
  case (2 m s t m')
  show ?case
  proof (cases s)
    case None
    then show ?thesis using 2 by (simp add: copy_slice_def slice_view_def slice_refs_def)
  next
    case (Some k)
    obtain a n where k: "k = (a, n)" by (cases k)
    obtain xs m1 where 1: "copy_list c (take n (old (m ! a))) m = (xs, m1)"
      by (cases "copy_list c (take n (old (m ! a))) m")
    have t: "t = Some (length m1, length xs)" "m' = m1 @ [new xs]"
      using 2(2) Some k 1 by (simp_all add: copy_slice_def)
    note lists = copier_list [OF assms(1)]
    have one: "prefix m m1" "map (v m1) xs = map (v m) (take n (old (m ! a)))"
      "valid m1 (\<Union>x \<in> set xs. r m1 x)" "fresh m (\<Union>x \<in> set xs. r m1 x)"
      using copier.copied [OF lists _ 1] 2(1) Some k by (simp_all add: slice_refs_def)
    have "prefix m1 m'" by (simp add: t)
    from copier.stable [OF lists this one(3)] one prefix_order.trans [OF one(1) this]
      prefix_length_le [OF one(1)]
    show ?thesis by (simp add: t Some k slice_view_def slice_refs_def old)
  qed
qed

text \<open>
  A struct is copied through a tuple of its fields: \<open>get\<close> reads them, \<open>put\<close> writes them into the
  shallow copy, and the struct stands for its plain fields together with what they stand for.
\<close>

lemma copier_struct:
  assumes "copier v r c"
    and "\<And>m s. view m s = f (plain s) (v m (get s))" "\<And>m s. refs m s = r m (get s)"
    and "\<And>s m. copy s m = (let (x, m1) = c (get s) m in (put x s, m1))"
    and "\<And>s x. get (put x s) = x" "\<And>s x. plain (put x s) = plain s"
  shows "copier view refs copy"
proof (unfold_locales, goal_cases)
  case (1 m m' s)
  then show ?case using copier.local [OF assms(1)] by (simp add: assms(2,3))
next
  case (2 m s t m')
  obtain x m1 where 1: "c (get s) m = (x, m1)" by (cases "c (get s) m")
  then have "t = put x s" "m' = m1" using 2(2) by (simp_all add: assms(4))
  then show ?case
    using copier.copied [OF assms(1) _ 1] 2(1) by (simp add: assms(2,3,5,6))
qed

end
