(* ===== verification/Deep_Copy.thy ===== *)
theory Deep_Copy
  imports Go_Memory
begin

text \<open>
  The generated deep copies of \<open>api/v1/zz_generated.deepcopy.go\<close> on the memory of Go_Memory: each
  copies everything its struct reaches.  It follows that a patch base, a deep copy the controllers
  take before they change an object, keeps showing the object as it was, so that the other theories
  may treat objects as values.  The deep copies of \<open>metav1\<close> and \<open>corev1\<close> are arguments.
\<close>

section \<open>The copies\<close>

text \<open>The deep copies of other packages: times, conditions, secret selectors and metadata.\<close>

record copy_library =
  lib_time :: "time \<Rightarrow> memory \<Rightarrow> time \<times> memory"
  lib_condition :: "condition \<Rightarrow> memory \<Rightarrow> condition \<times> memory"
  lib_selector :: "go_selector \<Rightarrow> memory \<Rightarrow> go_selector \<times> memory"
  lib_meta :: "go_meta \<Rightarrow> memory \<Rightarrow> go_meta \<times> memory"
  lib_list_meta :: "go_list_meta \<Rightarrow> memory \<Rightarrow> go_list_meta \<times> memory"

abbreviation copy_strings :: "slice \<Rightarrow> memory \<Rightarrow> slice \<times> memory" where
  "copy_strings \<equiv> copy_slice Strings the_strings Pair"

abbreviation copy_time :: "copy_library \<Rightarrow> addr option \<Rightarrow> memory \<Rightarrow> addr option \<times> memory" where
  "copy_time L \<equiv> copy_pointer TimeCell the_time (lib_time L)"

abbreviation copy_conditions :: "copy_library \<Rightarrow> slice \<Rightarrow> memory \<Rightarrow> slice \<times> memory" where
  "copy_conditions L \<equiv> copy_slice Conditions the_conditions (lib_condition L)"

definition FailoverIpSpec_DeepCopyInto :: "go_spec \<Rightarrow> memory \<Rightarrow> go_spec \<times> memory" where
  "FailoverIpSpec_DeepCopyInto s m =
     (let (probes, m1) = copy_slice ObjectReferences the_references Pair (ref_probes s) m in
      (s\<lparr>ref_probes := probes\<rparr>, m1))"

definition FailoverIpSpec_DeepCopy :: "addr option \<Rightarrow> memory \<Rightarrow> addr option \<times> memory" where
  "FailoverIpSpec_DeepCopy = copy_pointer SpecCell the_spec FailoverIpSpec_DeepCopyInto"

definition FailoverIpStatus_DeepCopyInto ::
  "copy_library \<Rightarrow> go_status \<Rightarrow> memory \<Rightarrow> go_status \<times> memory" where
  "FailoverIpStatus_DeepCopyInto L s m =
     (let (owners, m1) = copy_strings (ref_local_owners s) m;
          (started, m2) = copy_time L (ref_phase_started s) m1;
          (attempted, m3) = copy_time L (ref_last_attempted s) m2;
          (confirmed, m4) = copy_time L (ref_last_confirmed s) m3;
          (eligible, m5) = copy_time L (ref_next_eligible s) m4;
          (transition, m6) = copy_time L (ref_last_transition s) m5;
          (since, m7) = copy_time L (ref_candidate_since s) m6;
          (cleanup, m8) = copy_time L (ref_next_cleanup s) m7;
          (conds, m9) = copy_conditions L (ref_conditions s) m8 in
      (s\<lparr>ref_local_owners := owners, ref_phase_started := started, ref_last_attempted := attempted,
         ref_last_confirmed := confirmed, ref_next_eligible := eligible,
         ref_last_transition := transition, ref_candidate_since := since,
         ref_next_cleanup := cleanup, ref_conditions := conds\<rparr>, m9))"

definition FailoverIpStatus_DeepCopy ::
  "copy_library \<Rightarrow> addr option \<Rightarrow> memory \<Rightarrow> addr option \<times> memory" where
  "FailoverIpStatus_DeepCopy L = copy_pointer StatusCell the_status (FailoverIpStatus_DeepCopyInto L)"

definition FailoverIp_DeepCopyInto ::
  "copy_library \<Rightarrow> go_foip \<Rightarrow> memory \<Rightarrow> go_foip \<times> memory" where
  "FailoverIp_DeepCopyInto L f m =
     (let (mt, m1) = lib_meta L (foip_meta f) m;
          (spec, m2) = FailoverIpSpec_DeepCopyInto (go_foip_spec f) m1;
          (status, m3) = FailoverIpStatus_DeepCopyInto L (go_foip_status f) m2 in
      (f\<lparr>foip_meta := mt, go_foip_spec := spec, go_foip_status := status\<rparr>, m3))"

definition FailoverIp_DeepCopy ::
  "copy_library \<Rightarrow> addr option \<Rightarrow> memory \<Rightarrow> addr option \<times> memory" where
  "FailoverIp_DeepCopy L = copy_pointer FoipCell the_foip (FailoverIp_DeepCopyInto L)"

text \<open>An interface value: nil, or a pointer of one of the registered types.\<close>

datatype runtime_object =
  FailoverIpObject addr | FailoverIpListObject addr
| FailoverProbeObject addr | FailoverProbeListObject addr

definition FailoverIp_DeepCopyObject ::
  "copy_library \<Rightarrow> addr option \<Rightarrow> memory \<Rightarrow> runtime_object option \<times> memory" where
  "FailoverIp_DeepCopyObject L p m =
     (case FailoverIp_DeepCopy L p m of
        (None, m1) \<Rightarrow> (None, m1) | (Some c, m1) \<Rightarrow> (Some (FailoverIpObject c), m1))"

definition FailoverIpList_DeepCopyInto ::
  "copy_library \<Rightarrow> go_list \<Rightarrow> memory \<Rightarrow> go_list \<times> memory" where
  "FailoverIpList_DeepCopyInto L l m =
     (let (mt, m1) = lib_list_meta L (list_meta l) m;
          (items, m2) = copy_slice FoipArray the_foips (FailoverIp_DeepCopyInto L) (ref_items l) m1 in
      (l\<lparr>list_meta := mt, ref_items := items\<rparr>, m2))"

definition FailoverIpList_DeepCopy ::
  "copy_library \<Rightarrow> addr option \<Rightarrow> memory \<Rightarrow> addr option \<times> memory" where
  "FailoverIpList_DeepCopy L = copy_pointer FoipListCell the_foip_list (FailoverIpList_DeepCopyInto L)"

definition FailoverIpList_DeepCopyObject ::
  "copy_library \<Rightarrow> addr option \<Rightarrow> memory \<Rightarrow> runtime_object option \<times> memory" where
  "FailoverIpList_DeepCopyObject L p m =
     (case FailoverIpList_DeepCopy L p m of
        (None, m1) \<Rightarrow> (None, m1) | (Some c, m1) \<Rightarrow> (Some (FailoverIpListObject c), m1))"

definition ProbeNetworkPolicy_DeepCopyInto :: "go_policy \<Rightarrow> memory \<Rightarrow> go_policy \<times> memory" where
  "ProbeNetworkPolicy_DeepCopyInto p m =
     (let (allowed, m1) = copy_strings (ref_allowed p) m;
          (denied, m2) = copy_strings (ref_denied p) m1 in
      (p\<lparr>ref_allowed := allowed, ref_denied := denied\<rparr>, m2))"

definition ProbeNetworkPolicy_DeepCopy :: "addr option \<Rightarrow> memory \<Rightarrow> addr option \<times> memory" where
  "ProbeNetworkPolicy_DeepCopy = copy_pointer PolicyCell the_policy ProbeNetworkPolicy_DeepCopyInto"

text \<open>Structs without references are copied by the assignment alone.\<close>

definition KubernetesReadinessTarget_DeepCopyInto ::
  "kubernetes_readiness_target \<Rightarrow> memory \<Rightarrow> kubernetes_readiness_target \<times> memory" where
  "KubernetesReadinessTarget_DeepCopyInto t m = (t, m)"

definition KubernetesReadinessTarget_DeepCopy ::
  "addr option \<Rightarrow> memory \<Rightarrow> addr option \<times> memory" where
  "KubernetesReadinessTarget_DeepCopy =
     copy_pointer KubernetesCell the_kubernetes KubernetesReadinessTarget_DeepCopyInto"

definition ProbeHeader_DeepCopyInto :: "probe_header \<Rightarrow> memory \<Rightarrow> probe_header \<times> memory" where
  "ProbeHeader_DeepCopyInto h m = (h, m)"

definition ProbeHeader_DeepCopy :: "addr option \<Rightarrow> memory \<Rightarrow> addr option \<times> memory" where
  "ProbeHeader_DeepCopy = copy_pointer HeaderCell the_header ProbeHeader_DeepCopyInto"

definition ProbeTarget_DeepCopyInto :: "probe_target \<Rightarrow> memory \<Rightarrow> probe_target \<times> memory" where
  "ProbeTarget_DeepCopyInto t m = (t, m)"

definition ProbeTarget_DeepCopy :: "addr option \<Rightarrow> memory \<Rightarrow> addr option \<times> memory" where
  "ProbeTarget_DeepCopy = copy_pointer TargetCell the_target ProbeTarget_DeepCopyInto"

definition ProbeObservation_DeepCopyInto ::
  "copy_library \<Rightarrow> probe_observation \<Rightarrow> memory \<Rightarrow> probe_observation \<times> memory" where
  "ProbeObservation_DeepCopyInto L ob m =
     (let (observed, m1) = lib_time L (obs_observed_at ob) m in (ob\<lparr>obs_observed_at := observed\<rparr>, m1))"

definition ProbeObservation_DeepCopy ::
  "copy_library \<Rightarrow> addr option \<Rightarrow> memory \<Rightarrow> addr option \<times> memory" where
  "ProbeObservation_DeepCopy L =
     copy_pointer ObservationCell the_observation (ProbeObservation_DeepCopyInto L)"

definition FailoverProbeSpec_DeepCopyInto ::
  "copy_library \<Rightarrow> go_probe_spec \<Rightarrow> memory \<Rightarrow> go_probe_spec \<times> memory" where
  "FailoverProbeSpec_DeepCopyInto L s m =
     (let (policy, m1) = ProbeNetworkPolicy_DeepCopyInto (go_network_policy s) m;
          (kube, m2) = copy_pointer KubernetesCell the_kubernetes Pair (ref_kubernetes s) m1;
          (cred, m3) = copy_pointer SelectorCell the_selector (lib_selector L) (ref_credential s) m2;
          (bundle, m4) = copy_pointer SelectorCell the_selector (lib_selector L) (ref_ca_bundle s) m3;
          (hs, m5) = copy_slice Headers the_headers Pair (ref_headers s) m4 in
      (s\<lparr>go_network_policy := policy, ref_kubernetes := kube, ref_credential := cred,
         ref_ca_bundle := bundle, ref_headers := hs\<rparr>, m5))"

definition FailoverProbeSpec_DeepCopy ::
  "copy_library \<Rightarrow> addr option \<Rightarrow> memory \<Rightarrow> addr option \<times> memory" where
  "FailoverProbeSpec_DeepCopy L =
     copy_pointer ProbeSpecCell the_probe_spec (FailoverProbeSpec_DeepCopyInto L)"

definition FailoverProbeStatus_DeepCopyInto ::
  "copy_library \<Rightarrow> go_probe_status \<Rightarrow> memory \<Rightarrow> go_probe_status \<times> memory" where
  "FailoverProbeStatus_DeepCopyInto L s m =
     (let (conds, m1) = copy_conditions L (ref_probe_conditions s) m;
          (obs, m2) = copy_slice ObservationArray the_observations (ProbeObservation_DeepCopyInto L)
                        (ref_observations s) m1 in
      (s\<lparr>ref_probe_conditions := conds, ref_observations := obs\<rparr>, m2))"

definition FailoverProbeStatus_DeepCopy ::
  "copy_library \<Rightarrow> addr option \<Rightarrow> memory \<Rightarrow> addr option \<times> memory" where
  "FailoverProbeStatus_DeepCopy L =
     copy_pointer ProbeStatusCell the_probe_status (FailoverProbeStatus_DeepCopyInto L)"

definition FailoverProbe_DeepCopyInto ::
  "copy_library \<Rightarrow> go_probe \<Rightarrow> memory \<Rightarrow> go_probe \<times> memory" where
  "FailoverProbe_DeepCopyInto L p m =
     (let (mt, m1) = lib_meta L (probe_meta p) m;
          (spec, m2) = FailoverProbeSpec_DeepCopyInto L (go_spec_of_probe p) m1;
          (status, m3) = FailoverProbeStatus_DeepCopyInto L (go_status_of_probe p) m2 in
      (p\<lparr>probe_meta := mt, go_spec_of_probe := spec, go_status_of_probe := status\<rparr>, m3))"

definition FailoverProbe_DeepCopy ::
  "copy_library \<Rightarrow> addr option \<Rightarrow> memory \<Rightarrow> addr option \<times> memory" where
  "FailoverProbe_DeepCopy L = copy_pointer ProbeCell the_probe (FailoverProbe_DeepCopyInto L)"

definition FailoverProbe_DeepCopyObject ::
  "copy_library \<Rightarrow> addr option \<Rightarrow> memory \<Rightarrow> runtime_object option \<times> memory" where
  "FailoverProbe_DeepCopyObject L p m =
     (case FailoverProbe_DeepCopy L p m of
        (None, m1) \<Rightarrow> (None, m1) | (Some c, m1) \<Rightarrow> (Some (FailoverProbeObject c), m1))"

definition FailoverProbeList_DeepCopyInto ::
  "copy_library \<Rightarrow> go_list \<Rightarrow> memory \<Rightarrow> go_list \<times> memory" where
  "FailoverProbeList_DeepCopyInto L l m =
     (let (mt, m1) = lib_list_meta L (list_meta l) m;
          (items, m2) = copy_slice ProbeArray the_probes (FailoverProbe_DeepCopyInto L)
                          (ref_items l) m1 in
      (l\<lparr>list_meta := mt, ref_items := items\<rparr>, m2))"

definition FailoverProbeList_DeepCopy ::
  "copy_library \<Rightarrow> addr option \<Rightarrow> memory \<Rightarrow> addr option \<times> memory" where
  "FailoverProbeList_DeepCopy L =
     copy_pointer ProbeListCell the_probe_list (FailoverProbeList_DeepCopyInto L)"

definition FailoverProbeList_DeepCopyObject ::
  "copy_library \<Rightarrow> addr option \<Rightarrow> memory \<Rightarrow> runtime_object option \<times> memory" where
  "FailoverProbeList_DeepCopyObject L p m =
     (case FailoverProbeList_DeepCopy L p m of
        (None, m1) \<Rightarrow> (None, m1) | (Some c, m1) \<Rightarrow> (Some (FailoverProbeListObject c), m1))"

section \<open>What the structs stand for, and what they reach\<close>

abbreviation plain_view :: "memory \<Rightarrow> 'a \<Rightarrow> 'a" where
  "plain_view m x \<equiv> x"

abbreviation strings_view :: "memory \<Rightarrow> slice \<Rightarrow> string list" where
  "strings_view \<equiv> slice_view the_strings plain_view"

abbreviation time_view :: "memory \<Rightarrow> addr option \<Rightarrow> time option" where
  "time_view \<equiv> pointer_view the_time plain_view"

abbreviation conditions_view :: "memory \<Rightarrow> slice \<Rightarrow> condition list" where
  "conditions_view \<equiv> slice_view the_conditions plain_view"

abbreviation "strings_refs \<equiv> slice_refs the_strings no_refs"
abbreviation "time_refs \<equiv> pointer_refs the_time no_refs"
abbreviation "conditions_refs \<equiv> slice_refs the_conditions no_refs"

abbreviation map_view :: "memory \<Rightarrow> addr option \<Rightarrow> string_map option" where
  "map_view \<equiv> pointer_view the_map plain_view"

abbreviation library_view :: "memory \<Rightarrow> addr option \<Rightarrow> string option" where
  "library_view \<equiv> pointer_view the_library plain_view"

abbreviation "map_refs \<equiv> pointer_refs the_map no_refs"
abbreviation "library_refs \<equiv> pointer_refs the_library no_refs"

text \<open>The names, the annotations, and what the operator does not read: labels, finalizers and the rest.\<close>

definition meta_view :: "memory \<Rightarrow> go_meta \<Rightarrow>
    (string \<times> string \<times> string) \<times> string_map \<times> string_map \<times> string list \<times> string option list" where
  "meta_view m mt = ((meta_name mt, meta_namespace mt, meta_uid mt),
     case_option [] id (map_view m (meta_annotations mt)), case_option [] id (map_view m (meta_labels mt)),
     strings_view m (meta_finalizers mt), map (library_view m) (meta_others mt))"

definition meta_refs :: "memory \<Rightarrow> go_meta \<Rightarrow> addr set" where
  "meta_refs m mt = map_refs m (meta_annotations mt) \<union> (map_refs m (meta_labels mt)
     \<union> (strings_refs m (meta_finalizers mt) \<union> (\<Union>x \<in> set (meta_others mt). library_refs m x)))"

definition selector_view :: "memory \<Rightarrow> go_selector \<Rightarrow> secret_key_selector" where
  "selector_view m s =
     (selector_plain s)\<lparr>selector_optional := pointer_view the_bool plain_view m (ref_optional s)\<rparr>"

definition selector_refs :: "memory \<Rightarrow> go_selector \<Rightarrow> addr set" where
  "selector_refs m s = pointer_refs the_bool no_refs m (ref_optional s)"

definition list_meta_view :: "memory \<Rightarrow> go_list_meta \<Rightarrow> string \<times> int option" where
  "list_meta_view m mt =
     (list_version mt, pointer_view the_int plain_view m (remaining_count mt))"

definition list_meta_refs :: "memory \<Rightarrow> go_list_meta \<Rightarrow> addr set" where
  "list_meta_refs m mt = pointer_refs the_int no_refs m (remaining_count mt)"

definition spec_view :: "memory \<Rightarrow> go_spec \<Rightarrow> failover_ip_spec" where
  "spec_view m s = (spec_plain s)\<lparr>spec_probes := slice_view the_references plain_view m (ref_probes s)\<rparr>"

definition spec_refs :: "memory \<Rightarrow> go_spec \<Rightarrow> addr set" where
  "spec_refs m s = slice_refs the_references no_refs m (ref_probes s)"

definition status_view :: "memory \<Rightarrow> go_status \<Rightarrow> failover_ip_status" where
  "status_view m s = (status_plain s)\<lparr>
     local_owners := strings_view m (ref_local_owners s),
     phase_started_at := time_view m (ref_phase_started s),
     last_attempted_mutation_at := time_view m (ref_last_attempted s),
     last_confirmed_mutation_at := time_view m (ref_last_confirmed s),
     next_eligible_mutation_at := time_view m (ref_next_eligible s),
     last_transition_at := time_view m (ref_last_transition s),
     candidate_since := time_view m (ref_candidate_since s),
     next_cleanup_at := time_view m (ref_next_cleanup s),
     conditions := conditions_view m (ref_conditions s)\<rparr>"

definition status_refs :: "memory \<Rightarrow> go_status \<Rightarrow> addr set" where
  "status_refs m s = strings_refs m (ref_local_owners s) \<union> (time_refs m (ref_phase_started s)
     \<union> (time_refs m (ref_last_attempted s) \<union> (time_refs m (ref_last_confirmed s)
     \<union> (time_refs m (ref_next_eligible s) \<union> (time_refs m (ref_last_transition s)
     \<union> (time_refs m (ref_candidate_since s) \<union> (time_refs m (ref_next_cleanup s)
     \<union> conditions_refs m (ref_conditions s))))))))"

definition foip_view :: "memory \<Rightarrow> go_foip \<Rightarrow> failover_ip" where
  "foip_view m f = (case meta_view m (foip_meta f) of ((name, ns, uid), annotations, others) \<Rightarrow>
     \<lparr> foip_name = name, foip_namespace = ns, foip_uid = uid, foip_annotations = annotations,
       foip_spec = spec_view m (go_foip_spec f), foip_status = status_view m (go_foip_status f) \<rparr>)"

definition foip_refs :: "memory \<Rightarrow> go_foip \<Rightarrow> addr set" where
  "foip_refs m f = meta_refs m (foip_meta f)
     \<union> (spec_refs m (go_foip_spec f) \<union> status_refs m (go_foip_status f))"

definition policy_view :: "memory \<Rightarrow> go_policy \<Rightarrow> probe_network_policy" where
  "policy_view m p = (policy_plain p)\<lparr>allowed_cidrs := strings_view m (ref_allowed p),
     denied_cidrs := strings_view m (ref_denied p)\<rparr>"

definition policy_refs :: "memory \<Rightarrow> go_policy \<Rightarrow> addr set" where
  "policy_refs m p = strings_refs m (ref_allowed p) \<union> strings_refs m (ref_denied p)"

definition probe_spec_view :: "memory \<Rightarrow> go_probe_spec \<Rightarrow> failover_probe_spec" where
  "probe_spec_view m s = (probe_plain s)\<lparr>network_policy := policy_view m (go_network_policy s),
     kubernetes := pointer_view the_kubernetes plain_view m (ref_kubernetes s),
     credential_secret_ref := pointer_view the_selector selector_view m (ref_credential s),
     ca_bundle_secret_ref := pointer_view the_selector selector_view m (ref_ca_bundle s),
     headers := slice_view the_headers plain_view m (ref_headers s)\<rparr>"

definition probe_spec_refs :: "memory \<Rightarrow> go_probe_spec \<Rightarrow> addr set" where
  "probe_spec_refs m s = policy_refs m (go_network_policy s)
     \<union> (pointer_refs the_kubernetes no_refs m (ref_kubernetes s)
     \<union> (pointer_refs the_selector selector_refs m (ref_credential s)
     \<union> (pointer_refs the_selector selector_refs m (ref_ca_bundle s)
     \<union> slice_refs the_headers no_refs m (ref_headers s))))"

definition probe_status_view :: "memory \<Rightarrow> go_probe_status \<Rightarrow> failover_probe_status" where
  "probe_status_view m s = \<lparr> probe_conditions = conditions_view m (ref_probe_conditions s),
     observations = slice_view the_observations plain_view m (ref_observations s) \<rparr>"

definition probe_status_refs :: "memory \<Rightarrow> go_probe_status \<Rightarrow> addr set" where
  "probe_status_refs m s = conditions_refs m (ref_probe_conditions s)
     \<union> slice_refs the_observations no_refs m (ref_observations s)"

definition probe_view :: "memory \<Rightarrow> go_probe \<Rightarrow> failover_probe" where
  "probe_view m p = (case meta_view m (probe_meta p) of ((name, ns, uid), annotations, others) \<Rightarrow>
     \<lparr> probe_name = name, probe_namespace = ns,
       probe_spec = probe_spec_view m (go_spec_of_probe p),
       probe_status = probe_status_view m (go_status_of_probe p) \<rparr>)"

definition probe_refs :: "memory \<Rightarrow> go_probe \<Rightarrow> addr set" where
  "probe_refs m p = meta_refs m (probe_meta p)
     \<union> (probe_spec_refs m (go_spec_of_probe p) \<union> probe_status_refs m (go_status_of_probe p))"

section \<open>The copies keep the contract\<close>

definition library_copies :: "copy_library \<Rightarrow> bool" where
  "library_copies L \<longleftrightarrow> copier plain_view no_refs (lib_time L)
     \<and> copier plain_view no_refs (lib_condition L)
     \<and> copier selector_view selector_refs (lib_selector L)
     \<and> copier meta_view meta_refs (lib_meta L)
     \<and> copier list_meta_view list_meta_refs (lib_list_meta L)"

named_theorems copiers "deep copies that keep the contract"

lemma copier_library [copiers]:
  assumes "library_copies L"
  shows "copier plain_view no_refs (lib_time L)" "copier plain_view no_refs (lib_condition L)"
    "copier selector_view selector_refs (lib_selector L)" "copier meta_view meta_refs (lib_meta L)"
    "copier list_meta_view list_meta_refs (lib_list_meta L)"
  using assms by (simp_all add: library_copies_def)

lemma copier_values [copiers]: "copier plain_view no_refs Pair"
  by (rule copier_plain)

lemmas struct_simps = copy_both_def Let_def case_prod_beta

lemma copier_spec [copiers]: "copier spec_view spec_refs FailoverIpSpec_DeepCopyInto"
  by (rule copier_struct [where get = ref_probes and put = "\<lambda>x s. s\<lparr>ref_probes := x\<rparr>"
        and plain = spec_plain and f = "\<lambda>plain x. plain\<lparr>spec_probes := x\<rparr>",
        OF copier_slice [OF copier_values, of the_references ObjectReferences]])
    (simp_all add: spec_view_def spec_refs_def FailoverIpSpec_DeepCopyInto_def struct_simps)

lemma copier_status [copiers]:
  assumes "library_copies L"
  shows "copier status_view status_refs (FailoverIpStatus_DeepCopyInto L)"
proof -
  have times: "copier time_view time_refs (copy_time L)"
    by (rule copier_pointer [OF copier_library(1) [OF assms]]) simp
  have strings: "copier strings_view strings_refs copy_strings"
    by (rule copier_slice [OF copier_values]) simp
  have conds: "copier conditions_view conditions_refs (copy_conditions L)"
    by (rule copier_slice [OF copier_library(2) [OF assms]]) simp
  note fields = copier_both [OF strings copier_both [OF times copier_both [OF times
    copier_both [OF times copier_both [OF times copier_both [OF times copier_both [OF times
    copier_both [OF times conds]]]]]]]]
  show ?thesis
    by (rule copier_struct [OF fields, where plain = status_plain
        and get = "\<lambda>s. (ref_local_owners s, ref_phase_started s, ref_last_attempted s,
          ref_last_confirmed s, ref_next_eligible s, ref_last_transition s, ref_candidate_since s,
          ref_next_cleanup s, ref_conditions s)"
        and put = "\<lambda>(owners, started, attempted, confirmed, eligible, transition, since, cleanup,
            conds) s. s\<lparr>ref_local_owners := owners, ref_phase_started := started,
          ref_last_attempted := attempted, ref_last_confirmed := confirmed,
          ref_next_eligible := eligible, ref_last_transition := transition,
          ref_candidate_since := since, ref_next_cleanup := cleanup, ref_conditions := conds\<rparr>"
        and f = "\<lambda>plain (owners, started, attempted, confirmed, eligible, transition, since,
            cleanup, conds). plain\<lparr>local_owners := owners, phase_started_at := started,
          last_attempted_mutation_at := attempted, last_confirmed_mutation_at := confirmed,
          next_eligible_mutation_at := eligible, last_transition_at := transition,
          candidate_since := since, next_cleanup_at := cleanup, conditions := conds\<rparr>"])
      (simp_all add: status_view_def status_refs_def FailoverIpStatus_DeepCopyInto_def struct_simps)
qed

lemma copier_foip [copiers]:
  assumes "library_copies L"
  shows "copier foip_view foip_refs (FailoverIp_DeepCopyInto L)"
  by (rule copier_struct [OF copier_both [OF copier_library(4) [OF assms]
          copier_both [OF copier_spec copier_status [OF assms]]],
        where plain = foip_type_meta
        and get = "\<lambda>f. (foip_meta f, go_foip_spec f, go_foip_status f)"
        and put = "\<lambda>(mt, spec, status) f.
          f\<lparr>foip_meta := mt, go_foip_spec := spec, go_foip_status := status\<rparr>"
        and f = "\<lambda>plain (((name, ns, uid), annotations, others), spec, status). \<lparr> foip_name = name,
          foip_namespace = ns, foip_uid = uid, foip_annotations = annotations, foip_spec = spec,
          foip_status = status \<rparr>"])
    (simp_all add: foip_view_def foip_refs_def FailoverIp_DeepCopyInto_def struct_simps)

lemma copier_policy [copiers]: "copier policy_view policy_refs ProbeNetworkPolicy_DeepCopyInto"
proof -
  have strings: "copier strings_view strings_refs copy_strings"
    by (rule copier_slice [OF copier_values]) simp
  show ?thesis
    by (rule copier_struct [OF copier_both [OF strings strings], where plain = policy_plain
          and get = "\<lambda>p. (ref_allowed p, ref_denied p)"
          and put = "\<lambda>(allowed, denied) p. p\<lparr>ref_allowed := allowed, ref_denied := denied\<rparr>"
          and f = "\<lambda>plain (allowed, denied). plain\<lparr>allowed_cidrs := allowed, denied_cidrs := denied\<rparr>"])
      (simp_all add: policy_view_def policy_refs_def ProbeNetworkPolicy_DeepCopyInto_def struct_simps)
qed

lemma copier_probe_spec [copiers]:
  assumes "library_copies L"
  shows "copier probe_spec_view probe_spec_refs (FailoverProbeSpec_DeepCopyInto L)"
proof -
  have kube: "copier (pointer_view the_kubernetes plain_view) (pointer_refs the_kubernetes no_refs)
      (copy_pointer KubernetesCell the_kubernetes Pair)"
    by (rule copier_pointer [OF copier_values]) simp
  have selector: "copier (pointer_view the_selector selector_view) (pointer_refs the_selector selector_refs)
      (copy_pointer SelectorCell the_selector (lib_selector L))"
    by (rule copier_pointer [OF copier_library(3) [OF assms]]) simp
  have headers: "copier (slice_view the_headers plain_view) (slice_refs the_headers no_refs)
      (copy_slice Headers the_headers Pair)"
    by (rule copier_slice [OF copier_values]) simp
  show ?thesis
    by (rule copier_struct [OF copier_both [OF copier_policy copier_both [OF kube
            copier_both [OF selector copier_both [OF selector headers]]]],
          where plain = probe_plain
          and get = "\<lambda>s. (go_network_policy s, ref_kubernetes s, ref_credential s, ref_ca_bundle s,
            ref_headers s)"
          and put = "\<lambda>(policy, kube, cred, bundle, hs) s. s\<lparr>go_network_policy := policy,
            ref_kubernetes := kube, ref_credential := cred, ref_ca_bundle := bundle,
            ref_headers := hs\<rparr>"
          and f = "\<lambda>plain (policy, kube, cred, bundle, hs). plain\<lparr>network_policy := policy,
            kubernetes := kube, credential_secret_ref := cred, ca_bundle_secret_ref := bundle,
            headers := hs\<rparr>"])
      (simp_all add: probe_spec_view_def probe_spec_refs_def FailoverProbeSpec_DeepCopyInto_def
        struct_simps)
qed

lemma copier_observation [copiers]:
  assumes "library_copies L"
  shows "copier plain_view no_refs (ProbeObservation_DeepCopyInto L)"
  by (rule copier_struct [OF copier_library(1) [OF assms], where get = obs_observed_at
        and plain = "\<lambda>ob. ob\<lparr>obs_observed_at := 0\<rparr>" and put = "\<lambda>t ob. ob\<lparr>obs_observed_at := t\<rparr>"
        and f = "\<lambda>ob t. ob\<lparr>obs_observed_at := t\<rparr>"])
    (simp_all add: no_refs_def ProbeObservation_DeepCopyInto_def)

lemma copier_probe_status [copiers]:
  assumes "library_copies L"
  shows "copier probe_status_view probe_status_refs (FailoverProbeStatus_DeepCopyInto L)"
proof -
  have conds: "copier conditions_view conditions_refs (copy_conditions L)"
    by (rule copier_slice [OF copier_library(2) [OF assms]]) simp
  have obs: "copier (slice_view the_observations plain_view) (slice_refs the_observations no_refs)
      (copy_slice ObservationArray the_observations (ProbeObservation_DeepCopyInto L))"
    by (rule copier_slice [OF copier_observation [OF assms]]) simp
  show ?thesis
    by (rule copier_struct [OF copier_both [OF conds obs], where plain = "\<lambda>s. ()"
          and get = "\<lambda>s. (ref_probe_conditions s, ref_observations s)"
          and put = "\<lambda>(conds, obs) s. s\<lparr>ref_probe_conditions := conds, ref_observations := obs\<rparr>"
          and f = "\<lambda>plain (conds, obs). \<lparr> probe_conditions = conds, observations = obs \<rparr>"])
      (simp_all add: probe_status_view_def probe_status_refs_def
        FailoverProbeStatus_DeepCopyInto_def struct_simps)
qed

lemma copier_probe [copiers]:
  assumes "library_copies L"
  shows "copier probe_view probe_refs (FailoverProbe_DeepCopyInto L)"
  by (rule copier_struct [OF copier_both [OF copier_library(4) [OF assms]
          copier_both [OF copier_probe_spec [OF assms] copier_probe_status [OF assms]]],
        where plain = probe_type_meta
        and get = "\<lambda>p. (probe_meta p, go_spec_of_probe p, go_status_of_probe p)"
        and put = "\<lambda>(mt, spec, status) p.
          p\<lparr>probe_meta := mt, go_spec_of_probe := spec, go_status_of_probe := status\<rparr>"
        and f = "\<lambda>plain (((name, ns, uid), annotations, others), spec, status). \<lparr> probe_name = name,
          probe_namespace = ns, probe_spec = spec, probe_status = status \<rparr>"])
    (simp_all add: probe_view_def probe_refs_def FailoverProbe_DeepCopyInto_def struct_simps)

text \<open>Lists stand for their items; the metadata of a list is copied but not read.\<close>

definition foip_list_view :: "memory \<Rightarrow> go_list \<Rightarrow> (string \<times> int option) \<times> failover_ip list" where
  "foip_list_view m l = (list_meta_view m (list_meta l), slice_view the_foips foip_view m (ref_items l))"

definition foip_list_refs :: "memory \<Rightarrow> go_list \<Rightarrow> addr set" where
  "foip_list_refs m l = list_meta_refs m (list_meta l) \<union> slice_refs the_foips foip_refs m (ref_items l)"

definition probe_list_view :: "memory \<Rightarrow> go_list \<Rightarrow> (string \<times> int option) \<times> failover_probe list"
  where
  "probe_list_view m l =
     (list_meta_view m (list_meta l), slice_view the_probes probe_view m (ref_items l))"

definition probe_list_refs :: "memory \<Rightarrow> go_list \<Rightarrow> addr set" where
  "probe_list_refs m l =
     list_meta_refs m (list_meta l) \<union> slice_refs the_probes probe_refs m (ref_items l)"

lemma copier_lists [copiers]:
  assumes "library_copies L"
  shows "copier foip_list_view foip_list_refs (FailoverIpList_DeepCopyInto L)"
    and "copier probe_list_view probe_list_refs (FailoverProbeList_DeepCopyInto L)"
proof -
  let ?get = "\<lambda>l. (list_meta l, ref_items l)"
    and ?put = "\<lambda>(mt, items) l. l\<lparr>list_meta := mt, ref_items := items\<rparr>"
  have foips: "copier (slice_view the_foips foip_view) (slice_refs the_foips foip_refs)
      (copy_slice FoipArray the_foips (FailoverIp_DeepCopyInto L))"
    by (rule copier_slice [OF copier_foip [OF assms]]) simp
  have probes: "copier (slice_view the_probes probe_view) (slice_refs the_probes probe_refs)
      (copy_slice ProbeArray the_probes (FailoverProbe_DeepCopyInto L))"
    by (rule copier_slice [OF copier_probe [OF assms]]) simp
  show "copier foip_list_view foip_list_refs (FailoverIpList_DeepCopyInto L)"
    by (rule copier_struct [OF copier_both [OF copier_library(5) [OF assms] foips],
          where plain = list_type_meta and get = ?get and put = ?put and f = "\<lambda>plain x. x"])
      (simp_all add: foip_list_view_def foip_list_refs_def FailoverIpList_DeepCopyInto_def
        struct_simps)
  show "copier probe_list_view probe_list_refs (FailoverProbeList_DeepCopyInto L)"
    by (rule copier_struct [OF copier_both [OF copier_library(5) [OF assms] probes],
          where plain = list_type_meta and get = ?get and put = ?put and f = "\<lambda>plain x. x"])
      (simp_all add: probe_list_view_def probe_list_refs_def FailoverProbeList_DeepCopyInto_def
        struct_simps)
qed

end
