(* ===== verification/Patch_Bases.thy ===== *)
theory Patch_Bases
  imports Deep_Copy
begin

text \<open>
  Why objects may be treated as values: the controllers take a deep copy of an object as the base of
  a patch, change the object where it lies in memory, and send the difference.  The base keeps
  showing the object as it was, and the object shows what the functions on values compute.
\<close>

section \<open>Objects in memory\<close>

definition object_view :: "memory \<Rightarrow> addr \<Rightarrow> failover_ip" where
  "object_view m p = foip_view m (the_foip (m ! p))"

definition object_refs :: "memory \<Rightarrow> addr \<Rightarrow> addr set" where
  "object_refs m p = insert p (foip_refs m (the_foip (m ! p)))"

lemma object_pointer:
  "pointer_view the_foip foip_view m (Some p) = Some (object_view m p)"
  "pointer_refs the_foip foip_refs m (Some p) = object_refs m p"
  by (simp_all add: pointer_view_def pointer_refs_def object_view_def object_refs_def)

lemma copier_object:
  "library_copies L \<Longrightarrow> copier (pointer_view the_foip foip_view) (pointer_refs the_foip foip_refs)
     (FailoverIp_DeepCopy L)"
  unfolding FailoverIp_DeepCopy_def by (rule copier_pointer [OF copier_foip]) simp_all

definition probe_list_at :: "memory \<Rightarrow> addr \<Rightarrow> (string \<times> int option) \<times> failover_probe list" where
  "probe_list_at m p = probe_list_view m (the_probe_list (m ! p))"

definition probe_list_at_refs :: "memory \<Rightarrow> addr \<Rightarrow> addr set" where
  "probe_list_at_refs m p = insert p (probe_list_refs m (the_probe_list (m ! p)))"

lemma probe_list_pointer:
  "pointer_view the_probe_list probe_list_view m (Some p) = Some (probe_list_at m p)"
  "pointer_refs the_probe_list probe_list_refs m (Some p) = probe_list_at_refs m p"
  by (simp_all add: pointer_view_def pointer_refs_def probe_list_at_def probe_list_at_refs_def)

lemma copier_probe_list:
  "library_copies L \<Longrightarrow> copier (pointer_view the_probe_list probe_list_view)
     (pointer_refs the_probe_list probe_list_refs) (FailoverProbeList_DeepCopy L)"
  unfolding FailoverProbeList_DeepCopy_def by (rule copier_pointer [OF copier_lists(2)]) simp_all

text \<open>The deep copies that use no other package, as instances of the contract.\<close>

interpretation spec_copy: copier spec_view spec_refs FailoverIpSpec_DeepCopyInto
  by (rule copier_spec)

interpretation policy_copy: copier policy_view policy_refs ProbeNetworkPolicy_DeepCopyInto
  by (rule copier_policy)

text \<open>The types of Go: what a field refers to is a cell of its type, and a slice fits its array.\<close>

definition slice_typed :: "('a list \<Rightarrow> cell) \<Rightarrow> memory \<Rightarrow> slice \<Rightarrow> bool" where
  "slice_typed new m s \<longleftrightarrow> (\<forall>a n. s = Some (a, n) \<longrightarrow> (\<exists>xs. m ! a = new xs \<and> n \<le> length xs))"

definition pointer_typed :: "('a \<Rightarrow> cell) \<Rightarrow> memory \<Rightarrow> addr option \<Rightarrow> bool" where
  "pointer_typed new m p \<longleftrightarrow> (\<forall>a. p = Some a \<longrightarrow> (\<exists>x. m ! a = new x))"

definition status_typed :: "memory \<Rightarrow> go_status \<Rightarrow> bool" where
  "status_typed m s \<longleftrightarrow> slice_typed Strings m (ref_local_owners s)
     \<and> list_all (pointer_typed TimeCell m) [ref_phase_started s, ref_last_attempted s,
          ref_last_confirmed s, ref_next_eligible s, ref_last_transition s, ref_candidate_since s,
          ref_next_cleanup s]
     \<and> slice_typed Conditions m (ref_conditions s)"

definition meta_typed :: "memory \<Rightarrow> go_meta \<Rightarrow> bool" where
  "meta_typed m mt \<longleftrightarrow> pointer_typed StringMap m (meta_annotations mt)
     \<and> pointer_typed StringMap m (meta_labels mt) \<and> slice_typed Strings m (meta_finalizers mt)
     \<and> list_all (pointer_typed LibraryCell m) (meta_others mt)"

definition object_typed :: "memory \<Rightarrow> addr \<Rightarrow> bool" where
  "object_typed m p \<longleftrightarrow> (\<exists>f. m ! p = FoipCell f
     \<and> meta_typed m (foip_meta f)
     \<and> slice_typed ObjectReferences m (ref_probes (go_foip_spec f))
     \<and> status_typed m (go_foip_status f))"

section \<open>Setting a condition in place\<close>

definition new_condition ::
  "string \<Rightarrow> condition_status \<Rightarrow> string \<Rightarrow> string \<Rightarrow> time \<Rightarrow> condition" where
  "new_condition conditionType conditionStatus reason message now =
     (let trimmed = trim_space message;
          bounded = (if length trimmed > 256 then take 256 trimmed else trimmed) in
      \<lparr> cond_type = conditionType, cond_status = conditionStatus, cond_reason = reason,
        cond_message = bounded, cond_last_transition = now, cond_observed_generation = 0 \<rparr>)"

lemma SetCondition_new:
  "SetCondition st ct cs rs msg now =
     st\<lparr>conditions := put_condition (new_condition ct cs rs msg now) (conditions st)\<rparr>"
  by (simp add: SetCondition_def new_condition_def Let_def)

text \<open>
  The loop of \<open>SetCondition\<close> on the array of the slice: an entry of the type is overwritten, and
  otherwise \<open>append\<close> writes behind the last entry, into the spare capacity of the array or into a
  new array, of which \<open>spare\<close> is the capacity the runtime leaves.
\<close>

definition place_condition ::
  "condition list \<Rightarrow> condition \<Rightarrow> slice \<Rightarrow> memory \<Rightarrow> slice \<times> memory" where
  "place_condition spare new s m =
     (case s of
        None \<Rightarrow> (Some (length m, 1), m @ [Conditions (new # spare)])
      | Some (a, n) \<Rightarrow>
          let xs = the_conditions (m ! a);
              i = length (takeWhile (\<lambda>c. cond_type c \<noteq> cond_type new) (take n xs)) in
          if i < n then
            (if cond_status (xs ! i) = cond_status new \<and> cond_reason (xs ! i) = cond_reason new
                \<and> cond_message (xs ! i) = cond_message new
             then (s, m)
             else (s, m[a := Conditions (xs[i :=
                    new\<lparr>cond_observed_generation := cond_observed_generation (xs ! i)\<rparr>])]))
          else if n < length xs then (Some (a, n + 1), m[a := Conditions (xs[n := new])])
          else (Some (length m, n + 1), m @ [Conditions (take n xs @ new # spare)]))"

definition SetCondition_in_place ::
  "condition list \<Rightarrow> addr \<Rightarrow> string \<Rightarrow> condition_status \<Rightarrow> string \<Rightarrow> string \<Rightarrow> time \<Rightarrow> memory
     \<Rightarrow> memory" where
  "SetCondition_in_place spare p ct cs rs msg now m =
     (let f = the_foip (m ! p); st = go_foip_status f;
          (conds, m1) = place_condition spare (new_condition ct cs rs msg now) (ref_conditions st) m in
      m1[p := FoipCell (f\<lparr>go_foip_status := st\<lparr>ref_conditions := conds\<rparr>\<rparr>)])"

lemma put_condition_index:
  "put_condition new xs =
     (let i = length (takeWhile (\<lambda>c. cond_type c \<noteq> cond_type new) xs) in
      if i < length xs then
        (if cond_status (xs ! i) = cond_status new \<and> cond_reason (xs ! i) = cond_reason new
            \<and> cond_message (xs ! i) = cond_message new
         then xs
         else xs[i := new\<lparr>cond_observed_generation := cond_observed_generation (xs ! i)\<rparr>])
      else xs @ [new])"
  by (induction xs) (auto simp: Let_def)

lemma place_condition_view:
  assumes "slice_typed Conditions m s" "valid m (conditions_refs m s)"
    and "place_condition spare new s m = (s', m')"
  shows "conditions_view m' s' = put_condition new (conditions_view m s)"
proof (cases s)
  case None
  then show ?thesis
    using assms(3) by (auto simp: place_condition_def slice_view_def)
next
  case (Some k)
  obtain a n where k: "k = (a, n)" by (cases k)
  then obtain xs where xs: "m ! a = Conditions xs" "n \<le> length xs" "a < length m"
    using assms(1,2) Some by (auto simp: slice_typed_def slice_refs_def)
  let ?i = "length (takeWhile (\<lambda>c. cond_type c \<noteq> cond_type new) (take n xs))"
  have i: "?i \<le> n" "?i < n \<Longrightarrow> take n xs ! ?i = xs ! ?i"
    using length_takeWhile_le [of "\<lambda>c. cond_type c \<noteq> cond_type new" "take n xs"] xs(2) by simp_all
  have view: "conditions_view m s = take n xs" using Some k xs by (simp add: slice_view_def)
  consider "?i < n" | "\<not> ?i < n" "n < length xs" | "\<not> ?i < n" "n = length xs"
    using xs(2) by linarith
  then show ?thesis
  proof cases
    case 1
    then show ?thesis
      using assms(3) Some k xs i view
      by (auto simp: place_condition_def Let_def put_condition_index slice_view_def take_update_swap
          split: if_splits)
  next
    case 2
    then show ?thesis
      using assms(3) Some k xs view
      by (auto simp: place_condition_def Let_def put_condition_index slice_view_def
          take_Suc_conv_app_nth)
  next
    case 3
    then show ?thesis
      using assms(3) Some k xs view
      by (auto simp: place_condition_def Let_def put_condition_index slice_view_def)
  qed
qed

text \<open>The array of a slice.\<close>

definition arrays :: "slice \<Rightarrow> addr set" where
  "arrays s = (case s of None \<Rightarrow> {} | Some (a, n) \<Rightarrow> {a})"

lemma place_condition_keeps:
  assumes "place_condition spare new s m = (s', m')" "b < length m" "b \<notin> arrays s"
  shows "b < length m' \<and> m' ! b = m ! b"
  using assms
  by (auto simp: place_condition_def arrays_def Let_def nth_append split: option.splits if_splits)

lemma place_condition_slice:
  assumes "place_condition spare new s m = (s', m')" "valid m (conditions_refs m s)"
    and "a \<in> arrays s'"
  shows "a \<in> arrays s \<or> a = length m"
  using assms by (auto simp: place_condition_def arrays_def Let_def split: option.splits if_splits)

text \<open>The change leaves every cell alone but the object and the array of its conditions.\<close>

lemma SetCondition_in_place_keeps:
  assumes "b < length m" "b \<noteq> p" "b \<notin> arrays (ref_conditions (go_foip_status (the_foip (m ! p))))"
  shows "b < length (SetCondition_in_place spare p ct cs rs msg now m)
    \<and> SetCondition_in_place spare p ct cs rs msg now m ! b = m ! b"
proof -
  obtain s' m' where m': "place_condition spare (new_condition ct cs rs msg now)
      (ref_conditions (go_foip_status (the_foip (m ! p)))) m = (s', m')" by fastforce
  from place_condition_keeps [OF this assms(1,3)] assms(2) show ?thesis
    by (simp add: SetCondition_in_place_def Let_def m')
qed

lemma typed_view:
  assumes "\<forall>b < length m. (\<forall>xs. m ! b \<noteq> Conditions xs) \<longrightarrow> (\<forall>f. m ! b \<noteq> FoipCell f) \<longrightarrow>
      m' ! b = m ! b"
  shows "pointer_typed TimeCell m t \<Longrightarrow> valid m (time_refs m t) \<Longrightarrow> time_view m' t = time_view m t"
    and "slice_typed Strings m s \<Longrightarrow> valid m (strings_refs m s) \<Longrightarrow>
      strings_view m' s = strings_view m s"
    and "slice_typed ObjectReferences m s \<Longrightarrow> valid m (slice_refs the_references no_refs m s) \<Longrightarrow>
      slice_view the_references plain_view m' s = slice_view the_references plain_view m s"
    and "pointer_typed StringMap m a \<Longrightarrow> valid m (pointer_refs the_map no_refs m a) \<Longrightarrow>
      pointer_view the_map plain_view m' a = pointer_view the_map plain_view m a"
    and "pointer_typed LibraryCell m q \<Longrightarrow> valid m (library_refs m q) \<Longrightarrow> library_view m' q = library_view m q"
proof -
  have keep: "m' ! b = m ! b" if "b < length m" "m ! b = c" "\<And>xs. c \<noteq> Conditions xs" "\<And>f. c \<noteq> FoipCell f"
    for b c
    using assms that by simp
  show "pointer_typed TimeCell m t \<Longrightarrow> valid m (time_refs m t) \<Longrightarrow> time_view m' t = time_view m t"
    by (cases t) (auto simp: pointer_typed_def pointer_refs_def pointer_view_def keep)
  show "slice_typed Strings m s \<Longrightarrow> valid m (strings_refs m s) \<Longrightarrow> strings_view m' s = strings_view m s"
    by (cases s) (auto simp: slice_typed_def slice_refs_def slice_view_def keep)
  show "slice_typed ObjectReferences m s \<Longrightarrow> valid m (slice_refs the_references no_refs m s) \<Longrightarrow>
      slice_view the_references plain_view m' s = slice_view the_references plain_view m s"
    by (cases s) (auto simp: slice_typed_def slice_refs_def slice_view_def keep)
  show "pointer_typed StringMap m a \<Longrightarrow> valid m (pointer_refs the_map no_refs m a) \<Longrightarrow>
      pointer_view the_map plain_view m' a = pointer_view the_map plain_view m a"
    by (cases a) (auto simp: pointer_typed_def pointer_refs_def pointer_view_def keep)
  show "pointer_typed LibraryCell m q \<Longrightarrow> valid m (library_refs m q) \<Longrightarrow> library_view m' q = library_view m q"
    by (cases q) (auto simp: pointer_typed_def pointer_refs_def pointer_view_def keep)
qed

text \<open>The changed object shows what \<open>SetCondition\<close> on values computes.\<close>

lemma SetCondition_in_place_view:
  assumes typed: "object_typed m p" and valid: "valid m (object_refs m p)"
    and m': "m' = SetCondition_in_place spare p ct cs rs msg now m"
  shows "object_view m' p =
    (object_view m p)\<lparr>foip_status := SetCondition (foip_status (object_view m p)) ct cs rs msg now\<rparr>"
proof -
  obtain f where f: "m ! p = FoipCell f" and parts: "meta_typed m (foip_meta f)"
    "slice_typed ObjectReferences m (ref_probes (go_foip_spec f))" "status_typed m (go_foip_status f)"
    using typed by (auto simp: object_typed_def)
  let ?st = "go_foip_status f"
  obtain conds m1 where place: "place_condition spare (new_condition ct cs rs msg now)
      (ref_conditions ?st) m = (conds, m1)" by fastforce
  have p: "p < length m" using valid by (simp add: object_refs_def)
  have array: "slice_typed Conditions m (ref_conditions ?st)" using parts(3) by (simp add: status_typed_def)
  have not_p: "p \<notin> arrays (ref_conditions ?st)"
    using array f by (auto simp: slice_typed_def arrays_def split: option.splits)
  have p1: "p < length m1" using place_condition_keeps [OF place p] not_p by simp
  have m'_def: "m' = m1[p := FoipCell (f\<lparr>go_foip_status := ?st\<lparr>ref_conditions := conds\<rparr>\<rparr>)]"
    by (simp add: m' SetCondition_in_place_def f place)
  have keep: "\<forall>b < length m. (\<forall>xs. m ! b \<noteq> Conditions xs) \<longrightarrow> (\<forall>f. m ! b \<noteq> FoipCell f) \<longrightarrow>
      m' ! b = m ! b"
  proof (intro allI impI)
    fix b assume b: "b < length m" "\<forall>xs. m ! b \<noteq> Conditions xs" "\<forall>f. m ! b \<noteq> FoipCell f"
    then have "b \<noteq> p" "b \<notin> arrays (ref_conditions (go_foip_status (the_foip (m ! p))))"
      using f array by (auto simp: slice_typed_def arrays_def split: option.splits)
    then show "m' ! b = m ! b" using SetCondition_in_place_keeps [OF b(1)] m' by blast
  qed
  note views = typed_view [OF keep]
  have refs: "valid m (meta_refs m (foip_meta f))" "valid m (spec_refs m (go_foip_spec f))"
    "valid m (status_refs m ?st)"
    using valid by (simp_all add: object_refs_def foip_refs_def f)
  have "conditions_view m' conds = conditions_view m1 conds"
  proof -
    have "p \<notin> arrays conds"
      using place_condition_slice [OF place _] refs(3) not_p p by (auto simp: status_refs_def)
    then show ?thesis
    proof (cases conds)
      case (Some k)
      with \<open>p \<notin> arrays conds\<close> have "fst k \<noteq> p" by (cases k) (simp add: arrays_def)
      with Some show ?thesis by (cases k) (simp add: m'_def slice_view_def)
    qed (simp add: slice_view_def)
  qed
  also have "\<dots> = put_condition (new_condition ct cs rs msg now) (conditions_view m (ref_conditions ?st))"
    using refs(3) by (intro place_condition_view [OF array _ place]) (simp add: status_refs_def)
  finally have conds: "conditions_view m' conds = \<dots>" .
  have "meta_view m' (foip_meta f) = meta_view m (foip_meta f)"
    using views(2,4,5) parts(1) refs(1) by (simp add: meta_view_def meta_refs_def meta_typed_def list_all_iff)
  moreover have "spec_view m' (go_foip_spec f) = spec_view m (go_foip_spec f)"
    using views(3) [OF parts(2)] refs(2) by (simp add: spec_view_def spec_refs_def)
  moreover have "status_view m' (?st\<lparr>ref_conditions := conds\<rparr>) =
      SetCondition (status_view m ?st) ct cs rs msg now"
    using views(1,2) parts(3) refs(3) conds
    by (simp add: status_view_def status_refs_def status_typed_def SetCondition_new)
  moreover have "m' ! p = FoipCell (f\<lparr>go_foip_status := ?st\<lparr>ref_conditions := conds\<rparr>\<rparr>)"
    by (simp add: m'_def p1)
  ultimately show ?thesis
    by (cases "meta_view m (foip_meta f)"; cases "fst (meta_view m (foip_meta f))")
      (simp add: object_view_def f foip_view_def)
qed

section \<open>A concrete object\<close>

text \<open>
  Other packages that copy as documented, and a status with one condition whose array has spare
  capacity, the object the witnesses change.
\<close>

definition sample_library :: copy_library where
  "sample_library = \<lparr> lib_time = Pair, lib_condition = Pair,
     lib_selector = (\<lambda>s m. let (opt, m1) = copy_pointer BoolCell the_bool Pair (ref_optional s) m
                        in (s\<lparr>ref_optional := opt\<rparr>, m1)),
     lib_meta = (\<lambda>mt m.
       let (annotations, m1) = copy_pointer StringMap the_map Pair (meta_annotations mt) m;
           (labels, m2) = copy_pointer StringMap the_map Pair (meta_labels mt) m1;
           (finalizers, m3) = copy_strings (meta_finalizers mt) m2;
           (others, m4) = copy_list (copy_pointer LibraryCell the_library Pair) (meta_others mt) m3
       in (mt\<lparr>meta_annotations := annotations, meta_labels := labels, meta_finalizers := finalizers,
             meta_others := others\<rparr>, m4)),
     lib_list_meta = (\<lambda>mt m. let (count, m1) = copy_pointer IntCell the_int Pair (remaining_count mt) m
                        in (mt\<lparr>remaining_count := count\<rparr>, m1)) \<rparr>"

lemma sample_library_copies: "library_copies sample_library"
proof -
  have map: "copier map_view map_refs (copy_pointer StringMap the_map Pair)"
    by (rule copier_pointer [OF copier_values]) simp
  have strings: "copier strings_view strings_refs copy_strings"
    by (rule copier_slice [OF copier_values]) simp
  have library: "copier library_view library_refs (copy_pointer LibraryCell the_library Pair)"
    by (rule copier_pointer [OF copier_values]) simp
  have "copier meta_view meta_refs (lib_meta sample_library)"
    by (rule copier_struct [OF copier_both [OF map copier_both [OF map copier_both [OF strings
            copier_list [OF library]]]],
          where get = "\<lambda>mt. (meta_annotations mt, meta_labels mt, meta_finalizers mt, meta_others mt)"
          and put = "\<lambda>(a, l, fin, others) mt. mt\<lparr>meta_annotations := a, meta_labels := l,
            meta_finalizers := fin, meta_others := others\<rparr>"
          and plain = "\<lambda>mt. (meta_name mt, meta_namespace mt, meta_uid mt)"
          and f = "\<lambda>names (a, l, fin, others). (names, case_option [] id a, case_option [] id l, fin, others)"])
      (simp_all add: meta_view_def meta_refs_def sample_library_def struct_simps)
  moreover have "copier selector_view selector_refs (lib_selector sample_library)"
    by (rule copier_struct [OF copier_pointer [OF copier_values, of the_bool BoolCell],
          where get = ref_optional and put = "\<lambda>x s. s\<lparr>ref_optional := x\<rparr>" and plain = selector_plain
          and f = "\<lambda>plain x. plain\<lparr>selector_optional := x\<rparr>"])
      (simp_all add: selector_view_def selector_refs_def sample_library_def)
  moreover have "copier list_meta_view list_meta_refs (lib_list_meta sample_library)"
    by (rule copier_struct [OF copier_pointer [OF copier_values, of the_int IntCell],
          where get = remaining_count and put = "\<lambda>x mt. mt\<lparr>remaining_count := x\<rparr>"
          and plain = list_version and f = Pair])
      (simp_all add: list_meta_view_def list_meta_refs_def sample_library_def)
  ultimately show ?thesis
    by (simp add: library_copies_def) (simp add: sample_library_def copier_values)
qed

definition sample_old :: condition where
  "sample_old = new_condition ''Ready'' ConditionFalse ''Waiting'' ''moving'' 1"

definition sample_memory :: memory where
  "sample_memory =
     [FoipCell \<lparr> foip_type_meta = (''FailoverIp'', ''foip/v1''),
        foip_meta = \<lparr> meta_name = ''a'', meta_namespace = ''n'', meta_uid = ''u'',
          meta_annotations = Some 1, meta_labels = None, meta_finalizers = None, meta_others = [None] \<rparr>,
        go_foip_spec = \<lparr> spec_plain = empty_spec, ref_probes = None \<rparr>,
        go_foip_status = \<lparr> status_plain = empty_status, ref_local_owners = Some (2, 1),
          ref_phase_started = Some 3, ref_last_attempted = None, ref_last_confirmed = None,
          ref_next_eligible = None, ref_last_transition = None, ref_candidate_since = None,
          ref_next_cleanup = None, ref_conditions = Some (4, 1) \<rparr> \<rparr>,
      StringMap [], Strings [''node-a''], TimeCell 7, Conditions [sample_old, sample_old]]"

definition sample_probe_spec :: failover_probe_spec where
  "sample_probe_spec = \<lparr> probe_spec_phase = ProbePhasePreRoute, composition = ProbeCompositionAll,
     quorum = 0, probe_kind = ProbeTypeHTTP,
     target = \<lparr> target_address = ''192.0.2.7'', target_port = 80, target_path = ''/'', target_host = '''', target_sni = '''' \<rparr>,
     network_policy = \<lparr> allow_private_networks = False, allowed_cidrs = [], denied_cidrs = [] \<rparr>,
     kubernetes = None, timeout_seconds = 5, interval_seconds = 10, success_threshold = 1,
     probe_failure_threshold = 1, initial_delay_seconds = 0, follow_redirects = False,
     insecure_skip_verify = False, credential_secret_ref = None, credential_header = '''',
     ca_bundle_secret_ref = None, http_method = ''GET'', expected_status_min = 200,
     expected_status_max = 399, body_match = '''', headers = [] \<rparr>"

definition sample_probes :: memory where
  "sample_probes =
     [ProbeListCell \<lparr> list_type_meta = (''FailoverProbeList'', ''foip/v1''),
        list_meta = \<lparr> list_version = ''12'', remaining_count = None \<rparr>, ref_items = Some (1, 1) \<rparr>,
      ProbeArray [\<lparr> probe_type_meta = (''FailoverProbe'', ''foip/v1''),
        probe_meta = \<lparr> meta_name = ''p'', meta_namespace = ''n'', meta_uid = ''u'',
          meta_annotations = None, meta_labels = Some 3, meta_finalizers = None, meta_others = [] \<rparr>,
        go_spec_of_probe = \<lparr> probe_plain = sample_probe_spec,
          go_network_policy = \<lparr> policy_plain = network_policy sample_probe_spec, ref_allowed = None,
            ref_denied = None \<rparr>,
          ref_kubernetes = None, ref_credential = None, ref_ca_bundle = None,
          ref_headers = Some (2, 1) \<rparr>,
        go_status_of_probe = \<lparr> ref_probe_conditions = None, ref_observations = None \<rparr> \<rparr>],
      Headers [\<lparr> header_name = ''Accept'', header_value = ''*/*'' \<rparr>], StringMap [(''app'', ''probe'')]]"

lemma sample_object:
  "object_typed sample_memory 0" "valid sample_memory (object_refs sample_memory 0)"
  "\<exists>b m1. FailoverIp_DeepCopy sample_library (Some 0) sample_memory = (Some b, m1)"
  by (simp_all add: sample_memory_def object_typed_def meta_typed_def object_refs_def foip_refs_def meta_refs_def
      spec_refs_def status_refs_def status_typed_def slice_typed_def pointer_typed_def
      pointer_refs_def slice_refs_def no_refs_def FailoverIp_DeepCopy_def copy_pointer_def
      split: prod.splits)

section \<open>Properties\<close>

text \<open>
  C23: A deep copy is isolated: it shows the object it was taken of, allocates without changing a
  cell that was there, and, whatever is written later into the object or anything else that is not
  the copy itself, goes on to show the object as it was.
\<close>

theorem deep_copy_is_isolated:
  assumes "library_copies L" "valid m (object_refs m p)"
    and "FailoverIp_DeepCopy L (Some p) m = (q, m1)"
  shows "\<exists>b. q = Some b \<and> prefix m m1 \<and> object_view m1 b = object_view m p
    \<and> object_refs m1 b \<inter> object_refs m1 p = {}
    \<and> (\<forall>m2. (\<forall>a < length m1. a \<notin> object_refs m1 b \<or> m2 ! a = m1 ! a) \<and> length m1 \<le> length m2
         \<longrightarrow> object_view m2 b = object_view m p)"
proof -
  note copier = copier_object [OF assms(1)]
  obtain b where b: "q = Some b" using assms(3)
    by (auto simp: FailoverIp_DeepCopy_def copy_pointer_def Let_def split: prod.splits)
  have refs: "valid m (pointer_refs the_foip foip_refs m (Some p))"
    using assms(2) by (simp only: object_pointer)
  note copied = copier.copied [OF copier refs assms(3) [unfolded b]]
  have "object_view m2 b = object_view m p"
    if "\<forall>a < length m1. a \<notin> object_refs m1 b \<or> m2 ! a = m1 ! a" "length m1 \<le> length m2" for m2
  proof -
    have "agree m1 m2 (pointer_refs the_foip foip_refs m1 (Some b))"
      using that copied by (auto simp: agree_def valid_def object_pointer)
    from copier.isolated [OF copier refs assms(3) [unfolded b] this] show ?thesis
      by (simp only: object_pointer option.inject)
  qed
  moreover have "object_refs m1 p \<inter> object_refs m1 b = {}"
    using copier.copy_disjoint [OF copier refs assms(3) [unfolded b]] by (simp only: object_pointer)
  ultimately show ?thesis
    using b copied by (simp only: object_pointer option.inject) (simp add: Int_commute)
qed

theorem deep_copy_is_isolated_witness:
  "\<exists>b m1. FailoverIp_DeepCopy sample_library (Some 0) sample_memory = (Some b, m1)
    \<and> object_view m1 b = object_view sample_memory 0
    \<and> object_refs m1 b \<inter> object_refs m1 0 = {}"
proof -
  obtain b m1 where copy: "FailoverIp_DeepCopy sample_library (Some 0) sample_memory = (Some b, m1)"
    using sample_object(3) by blast
  from deep_copy_is_isolated [OF sample_library_copies sample_object(2) copy] copy show ?thesis
    by auto
qed

text \<open>
  C24: The list of probes a cache hands out is the reader's own.  The copy \<open>DeepCopyObject\<close> takes of a
  list of \<open>FailoverProbe\<close>s is a list of the same probes, their policies, headers, secret references,
  conditions and observations included; nothing of it lies in the memory of the original, and a
  write to the original, or to the copy, leaves the other showing what it showed.
\<close>

theorem probe_list_copy_is_isolated:
  assumes "library_copies L" "valid m (probe_list_at_refs m p)"
    and "FailoverProbeList_DeepCopyObject L (Some p) m = (q, m1)"
  shows "\<exists>b. q = Some (FailoverProbeListObject b) \<and> probe_list_at m1 b = probe_list_at m p
    \<and> prefix m m1 \<and> (\<forall>a \<in> probe_list_at_refs m1 b. length m \<le> a)
    \<and> (\<forall>a c. a \<notin> probe_list_at_refs m1 b \<longrightarrow> probe_list_at (m1[a := c]) b = probe_list_at m p)
    \<and> (\<forall>a c. a \<notin> probe_list_at_refs m1 p \<longrightarrow> probe_list_at (m1[a := c]) p = probe_list_at m p)"
proof -
  note copier = copier_probe_list [OF assms(1)]
  obtain b where copy: "FailoverProbeList_DeepCopy L (Some p) m = (Some b, m1)"
    and q: "q = Some (FailoverProbeListObject b)"
    using assms(3) by (auto simp: FailoverProbeList_DeepCopyObject_def FailoverProbeList_DeepCopy_def
        copy_pointer_def Let_def split: prod.splits)
  have refs: "valid m (pointer_refs the_probe_list probe_list_refs m (Some p))"
    using assms(2) by (simp only: probe_list_pointer)
  note copied = copier.copied [OF copier refs copy]
  note stable = copier.stable [OF copier copied [THEN conjunct1] refs]
  have writes: "agree m1 (m1[a := c]) A" if "valid m1 A" "a \<notin> A" for a c A
    using that by (auto simp: agree_def valid_def intro!: nth_list_update_neq [symmetric])
  have "probe_list_at (m1[a := c]) b = probe_list_at m p" if "a \<notin> probe_list_at_refs m1 b" for a c
    using copier.isolated [OF copier refs copy writes] copied that
    by (simp add: probe_list_pointer)
  moreover have "probe_list_at (m1[a := c]) p = probe_list_at m p" if "a \<notin> probe_list_at_refs m1 p" for a c
    using copier.local [OF copier writes [OF stable(3), of a c]] stable(1) that
    by (simp add: probe_list_pointer)
  ultimately show ?thesis
    using q copied by (simp add: probe_list_pointer fresh_def)
qed

text \<open>A list of one probe with a header, read and copied.\<close>

theorem probe_list_copy_is_isolated_witness:
  "\<exists>b m1. FailoverProbeList_DeepCopyObject sample_library (Some 0) sample_probes =
      (Some (FailoverProbeListObject b), m1)
    \<and> probe_list_at (m1[2 := Headers []]) b = probe_list_at sample_probes 0"
proof -
  obtain q m1 where copy: "FailoverProbeList_DeepCopyObject sample_library (Some 0) sample_probes = (q, m1)"
    by fastforce
  have "valid sample_probes (probe_list_at_refs sample_probes 0)"
    by (simp add: sample_probes_def probe_list_at_refs_def probe_list_refs_def list_meta_refs_def
        probe_refs_def meta_refs_def probe_spec_refs_def policy_refs_def probe_status_refs_def
        pointer_refs_def slice_refs_def no_refs_def)
  from probe_list_copy_is_isolated [OF sample_library_copies this copy] obtain b where b:
    "q = Some (FailoverProbeListObject b)" "\<forall>a \<in> probe_list_at_refs m1 b. length sample_probes \<le> a"
    "\<forall>a c. a \<notin> probe_list_at_refs m1 b \<longrightarrow> probe_list_at (m1[a := c]) b = probe_list_at sample_probes 0"
    by blast
  have "2 \<notin> probe_list_at_refs m1 b"
  proof
    assume "2 \<in> probe_list_at_refs m1 b"
    with b(2) have "length sample_probes \<le> 2" by blast
    then show False by (simp add: sample_probes_def)
  qed
  with b copy show ?thesis by blast
qed

text \<open>A copy leaves types as they are.\<close>

lemma pointer_typed_prefix:
  "prefix m m1 \<Longrightarrow> valid m (pointer_refs old r m q) \<Longrightarrow> pointer_typed new m q \<Longrightarrow>
     pointer_typed new m1 q"
  by (cases q) (auto simp: pointer_typed_def pointer_refs_def prefix_def nth_append)

lemma slice_typed_prefix:
  "prefix m m1 \<Longrightarrow> valid m (slice_refs old r m s) \<Longrightarrow> slice_typed new m s \<Longrightarrow> slice_typed new m1 s"
  by (cases s) (auto simp: slice_typed_def slice_refs_def prefix_def nth_append)

lemma typed_prefix:
  assumes "prefix m m1" "object_typed m p" "valid m (object_refs m p)"
  shows "object_typed m1 p"
proof -
  obtain f where f: "m ! p = FoipCell f" and parts:
    "meta_typed m (foip_meta f)"
    "slice_typed ObjectReferences m (ref_probes (go_foip_spec f))" "status_typed m (go_foip_status f)"
    using assms(2) by (auto simp: object_typed_def)
  have refs: "valid m (meta_refs m (foip_meta f))" "valid m (spec_refs m (go_foip_spec f))"
    "valid m (status_refs m (go_foip_status f))"
    using assms(3) by (simp_all add: object_refs_def foip_refs_def f)
  have "m1 ! p = FoipCell f"
    using assms(1,3) f by (auto simp: object_refs_def prefix_def nth_append)
  moreover have "meta_typed m1 (foip_meta f)"
    using parts(1) refs(1) pointer_typed_prefix [OF assms(1), of the_map no_refs _ StringMap]
      pointer_typed_prefix [OF assms(1), of the_library no_refs _ LibraryCell]
      slice_typed_prefix [OF assms(1), of the_strings no_refs _ Strings]
    by (simp add: meta_refs_def meta_typed_def list_all_iff)
  moreover have "slice_typed ObjectReferences m1 (ref_probes (go_foip_spec f))"
    using slice_typed_prefix [OF assms(1) refs(2) [unfolded spec_refs_def] parts(2)] .
  moreover have "status_typed m1 (go_foip_status f)"
    using parts(3) refs(3) pointer_typed_prefix [OF assms(1), of the_time no_refs _ TimeCell]
      slice_typed_prefix [OF assms(1), of the_strings no_refs _ Strings]
      slice_typed_prefix [OF assms(1), of the_conditions no_refs _ Conditions]
    by (simp add: status_refs_def status_typed_def)
  ultimately show ?thesis by (simp add: object_typed_def)
qed

text \<open>
  C22: Objects may be treated as values.  After a deep copy, setting a condition of the object where
  it lies (overwriting an entry of its array, or appending to it, whatever spare capacity there is)
  leaves the copy showing the object as it was, and the object showing exactly what \<open>SetCondition\<close>
  on values computes: the pair a patch is the difference of.
\<close>

theorem in_place_change_refines_values:
  assumes "library_copies L" "object_typed m p" "valid m (object_refs m p)"
    and "FailoverIp_DeepCopy L (Some p) m = (Some b, m1)"
    and "m2 = SetCondition_in_place spare p ct cs rs msg now m1"
  shows "object_view m2 b = object_view m p
    \<and> object_view m2 p = (object_view m p)\<lparr>foip_status :=
        SetCondition (foip_status (object_view m p)) ct cs rs msg now\<rparr>"
proof
  note copier = copier_object [OF assms(1)]
  have refs: "valid m (pointer_refs the_foip foip_refs m (Some p))"
    using assms(3) by (simp only: object_pointer)
  note copied = copier.copied [OF copier refs assms(4)]
  note stable = copier.stable [OF copier copied [THEN conjunct1] refs, unfolded object_pointer]
  have typed: "object_typed m1 p"
    by (rule typed_prefix [OF copied [THEN conjunct1] assms(2,3)])
  have "object_view m2 p = (object_view m1 p)\<lparr>foip_status :=
      SetCondition (foip_status (object_view m1 p)) ct cs rs msg now\<rparr>"
    by (rule SetCondition_in_place_view [OF typed stable(3) assms(5)])
  then show "object_view m2 p = (object_view m p)\<lparr>foip_status :=
      SetCondition (foip_status (object_view m p)) ct cs rs msg now\<rparr>"
    using stable(1) by simp
  have "object_refs m1 p \<inter> object_refs m1 b = {}"
    using copier.copy_disjoint [OF copier refs assms(4)] by (simp only: object_pointer)
  moreover have "{p} \<union> arrays (ref_conditions (go_foip_status (the_foip (m1 ! p)))) \<subseteq> object_refs m1 p"
    by (auto simp: object_refs_def foip_refs_def status_refs_def slice_refs_def arrays_def
        split: option.splits)
  ultimately have apart: "a \<noteq> p \<and> a \<notin> arrays (ref_conditions (go_foip_status (the_foip (m1 ! p))))"
    if "a \<in> object_refs m1 b" for a
    using that by blast
  have "a < length m1" if "a \<in> object_refs m1 b" for a
    using that copied by (simp add: valid_def object_pointer)
  with apart SetCondition_in_place_keeps have "agree m1 m2 (object_refs m1 b)"
    by (simp add: agree_def assms(5))
  from copier.isolated [OF copier refs assms(4), unfolded object_pointer, OF this]
  show "object_view m2 b = object_view m p" by simp
qed

theorem in_place_change_refines_values_witness:
  "\<exists>b m1. FailoverIp_DeepCopy sample_library (Some 0) sample_memory = (Some b, m1)
    \<and> object_view (SetCondition_in_place [] 0 ''Ready'' ConditionTrue ''Done'' '''' 9 m1) b =
        object_view sample_memory 0
    \<and> conditions (foip_status (object_view
          (SetCondition_in_place [] 0 ''Ready'' ConditionTrue ''Done'' '''' 9 m1) 0)) =
        [new_condition ''Ready'' ConditionTrue ''Done'' '''' 9]"
proof -
  obtain b m1 where copy: "FailoverIp_DeepCopy sample_library (Some 0) sample_memory = (Some b, m1)"
    using sample_object(3) by blast
  have "conditions (foip_status (object_view sample_memory 0)) = [sample_old]"
    by (simp add: object_view_def sample_memory_def foip_view_def meta_view_def status_view_def
        slice_view_def)
  with in_place_change_refines_values
      [OF sample_library_copies sample_object(1,2) copy refl,
        of "[]" "''Ready''" ConditionTrue "''Done''" _ 9] copy
  show ?thesis by (auto simp: SetCondition_new sample_old_def new_condition_def Let_def)
qed

end
