(* ===== verification/Stuck_Runs.thy ===== *)
theory Stuck_Runs
  imports Cluster
begin

text \<open>
  Runs of the operator that lead nowhere.  A run whose provider reports the persisted owner and
  whose nodes hold no better candidate makes only reads until it looks at the target; what it does
  then in the phase \<open>Selecting\<close>, and in the phases after the route, is shown for every environment,
  and on the cluster of \<open>Cluster\<close> from a new object and from a target that stops being ready.
\<close>

section \<open>Complete runs, call by call\<close>

lemma steps_Return: "steps (Return x) es (Return y) \<longleftrightarrow> es = [] \<and> y = x"
  by (cases es) (auto simp: steps_simps pstep_simps)

lemma steps_Observe:
  "steps (Observe m p) es (Return y) \<longleftrightarrow> (\<exists>es'. es = EvObserve m # es' \<and> steps p es' (Return y))"
  by (cases es) (auto simp: steps_simps pstep_simps)

lemma steps_reads:
  "steps (GetSecret ns n ks) es (Return y)
     \<longleftrightarrow> (\<exists>a es'. es = EvGetSecret ns n a # es' \<and> steps (ks a) es' (Return y))"
  "steps (NewClient uid tok p) es (Return y)
     \<longleftrightarrow> (\<exists>es'. es = EvNewClient uid tok # es' \<and> steps p es' (Return y))"
  "steps (FindFailoverIP ip kf) es (Return y)
     \<longleftrightarrow> (\<exists>a es'. es = EvFindFailoverIP ip a # es' \<and> steps (kf a) es' (Return y))"
  "steps (ListNodes kn) es (Return y)
     \<longleftrightarrow> (\<exists>a es'. es = EvListNodes a # es' \<and> steps (kn a) es' (Return y))"
  "steps (GetNode n kd) es (Return y)
     \<longleftrightarrow> (\<exists>a es'. es = EvGetNode n a # es' \<and> steps (kd a) es' (Return y))"
  "steps (PatchStatus b f kp) es (Return y)
     \<longleftrightarrow> (\<exists>a es'. es = EvPatchStatus b f a # es' \<and> steps (kp a) es' (Return y))"
  by (cases es; auto simp: steps_simps pstep_simps)+

lemma steps_finish: "steps (finish_reconcile cp x) es (Return y)
    \<Longrightarrow> y = x \<and> (\<exists>m m'. es = [EvObserve m, EvObserve m'])"
  by (auto simp: finish_reconcile_def steps_Observe steps_Return)

lemmas complete = steps_reads steps_Observe steps_Return

section \<open>The reads before the hand-over\<close>

text \<open>The provider reported the persisted owner only, and no node is better than the target.\<close>

definition undisturbed :: "failover_ip \<Rightarrow> event list \<Rightarrow> bool" where
  "undisturbed foip es \<longleftrightarrow>
     (\<forall>ip i s. EvFindFailoverIP ip (Inr (i, s)) \<in> set es \<longrightarrow> itoa s = provider_observed_owner (foip_status foip))
     \<and> (\<forall>nodes. EvListNodes (Inr nodes) \<in> set es \<longrightarrow>
          betterNode (candidateNodes nodes) (target_node (foip_status foip)) = None)"

definition quiet_reads :: "event list \<Rightarrow> bool" where
  "quiet_reads es \<longleftrightarrow> (\<forall>e \<in> set es. case e of
     EvObserve m \<Rightarrow> True | EvGetSecret ns n a \<Rightarrow> True | EvNewClient u t \<Rightarrow> True
   | EvFindFailoverIP ip a \<Rightarrow> True | EvListNodes a \<Rightarrow> True | _ \<Rightarrow> False)"

lemma quiet_reads_simps [simp]:
  "quiet_reads []" "quiet_reads (EvObserve m # es) = quiet_reads es"
  "quiet_reads (EvGetSecret ns n a # es) = quiet_reads es"
  "quiet_reads (EvNewClient u t # es) = quiet_reads es"
  "quiet_reads (EvFindFailoverIP ip fa # es) = quiet_reads es"
  "quiet_reads (EvListNodes la # es) = quiet_reads es"
  by (simp_all add: quiet_reads_def)

text \<open>What happens in a stretch of reads: it fails, or the rest of the run goes on.\<close>

definition fails_or :: "(event list \<Rightarrow> bool) \<Rightarrow> (event list \<Rightarrow> bool) \<Rightarrow> event list \<Rightarrow> bool" where
  "fails_or fails goes_on es \<longleftrightarrow>
     (\<exists>pre post. es = pre @ post \<and> quiet_reads pre \<and> (fails post \<or> goes_on post))"

lemma fails_orI: "fails es \<Longrightarrow> fails_or fails goes_on es" "goes_on es \<Longrightarrow> fails_or fails goes_on es"
  unfolding fails_or_def by (metis append_Nil quiet_reads_simps(1))+

lemma fails_or_Cons: "quiet_reads [e] \<Longrightarrow> fails_or fails goes_on es \<Longrightarrow> fails_or fails goes_on (e # es)"
  unfolding fails_or_def quiet_reads_def
  by (metis append_Cons insert_iff list.simps(15) set_ConsD)

lemma set_status_same: "set_status foip (foip_status foip) = foip"
  by simp

lemma fails_or_fail:
  "steps (fin (failed e)) es (Return y) \<Longrightarrow> fails_or (\<lambda>post. \<exists>e. steps (fin (failed e)) post (Return y)) goes_on es"
  by (intro fails_orI(1)) blast

lemma credentials_run:
  assumes "steps (bind (with_credentials ns foip k) fin) es (Return y)"
  shows "fails_or (\<lambda>post. \<exists>e. steps (fin (failed e)) post (Return y))
    (\<lambda>post. steps (bind k fin) post (Return y)) es"
proof -
  from assms(1) obtain a es1 where es: "es = EvGetSecret ns (secret_name (foip_spec foip)) a # es1"
    by (auto simp: with_credentials_def Let_def complete)
  show ?thesis
    using assms es
    by (cases a; auto simp: with_credentials_def complete Let_def intro!: fails_or_Cons
        intro: fails_or_fail fails_orI(2) split: if_splits option.splits)
qed

lemma fails_or_trans:
  assumes "fails_or fails goes_on es"
    and "\<And>post. set post \<subseteq> set es \<Longrightarrow> goes_on post \<Longrightarrow> fails_or fails goes_on' post"
  shows "fails_or fails goes_on' es"
proof -
  obtain pre post where es: "es = pre @ post" "quiet_reads pre" "fails post \<or> goes_on post"
    using assms(1) by (auto simp: fails_or_def)
  from es(3) have "fails_or fails goes_on' post"
    using assms(2) [of post] es(1) by (auto intro: fails_orI)
  then obtain pre' post' where "post = pre' @ post'" "quiet_reads pre'" "fails post' \<or> goes_on' post'"
    by (auto simp: fails_or_def)
  then have "es = (pre @ pre') @ post'" "quiet_reads (pre @ pre')" "fails post' \<or> goes_on' post'"
    using es by (auto simp: quiet_reads_def)
  then show ?thesis unfolding fails_or_def by blast
qed

text \<open>A transition in progress with a target.\<close>

definition ongoing :: "failover_ip \<Rightarrow> bool" where
  "ongoing foip \<longleftrightarrow> transition_id (foip_status foip) \<noteq> '''' \<and> ValidateFailoverIpSpec (foip_spec foip) = None
     \<and> ValidateStatus (foip_status foip) = None \<and> target_node (foip_status foip) \<noteq> ''''
     \<and> phase (foip_status foip) \<notin> {FailoverPhaseBlocked, FailoverPhaseDegraded, FailoverPhaseStabilizing,
          FailoverPhaseSucceeded}"

lemma observation_run:
  assumes "steps (bind (observe_provider foip (\<lambda>foip1 ob. select_candidate foip1 ob (k foip1 ob))) fin) es (Return y)"
    and "ongoing foip" "undisturbed foip es"
  shows "fails_or (\<lambda>post. \<exists>e. steps (fin (failed e)) post (Return y))
    (\<lambda>post. \<exists>ob. itoa (obs_server_id ob) = provider_observed_owner (foip_status foip)
       \<and> steps (bind (k foip ob) fin) post (Return y)) es" (is "fails_or ?fails ?goes_on es")
proof -
  have ph: "phase (foip_status foip) \<noteq> FailoverPhaseStabilizing" "target_node (foip_status foip) \<noteq> ''''"
    using assms(2) by (simp_all add: ongoing_def)
  from assms(1) obtain f es1 m where es: "es = EvFindFailoverIP (spec_ip (foip_spec foip)) f # EvObserve m # es1"
    by (auto simp: observe_provider_def complete)
  show ?thesis
  proof (cases f)
    case (Inl e)
    then show ?thesis
      using assms(1) unfolding es
      by (auto simp: observe_provider_def complete intro!: fails_or_Cons intro: fails_or_fail)
  next
    case (Inr found)
    obtain i s where found: "found = (i, s)" by (cases found)
    then obtain l es2 where es1: "es1 = EvListNodes l # es2"
      using assms(1) unfolding es by (auto simp: observe_provider_def complete Inr)
    have owner: "itoa s = provider_observed_owner (foip_status foip)"
      using assms(3) unfolding undisturbed_def es Inr found by auto
    then have same: "set_status foip ((foip_status foip)\<lparr>provider_observed_owner := itoa s\<rparr>) = foip"
      by simp
    show ?thesis
    proof (cases l)
      case (Inl e)
      then show ?thesis
        using assms(1) unfolding es es1 found Inr
        by (auto simp: observe_provider_def complete intro!: fails_or_Cons intro: fails_or_fail)
    next
      case l: (Inr nodes)
      have best: "betterNode (candidateNodes nodes) (target_node (foip_status foip)) = None"
        using assms(3) unfolding undisturbed_def es es1 l by auto
      have "steps (bind (k foip \<lparr>obs_foip_id = i, obs_server_id = s, obs_nodes = nodes\<rparr>) fin) es2 (Return y)"
        using assms(1) unfolding es es1 found Inr l
        by (simp add: observe_provider_def complete validateProviderFence_def owner adopt_owner_def
            adopted_status_def ph Let_def same select_candidate_def best)
      then have "?goes_on es2" using owner by (intro exI [of _ "\<lparr>obs_foip_id = i, obs_server_id = s, obs_nodes = nodes\<rparr>"]) simp
      then have "fails_or ?fails ?goes_on es2" by (rule fails_orI)
      then show ?thesis unfolding es es1 by (intro fails_or_Cons) simp_all
    qed
  qed
qed

lemma reaches_handoff:
  assumes "steps (bind (reconcile_foip r ns foip) fin) es (Return y)" "ongoing foip" "undisturbed foip es"
  shows "fails_or (\<lambda>post. \<exists>e. steps (fin (failed e)) post (Return y))
    (\<lambda>post. \<exists>ob. itoa (obs_server_id ob) = provider_observed_owner (foip_status foip)
       \<and> steps (bind (handoff r foip ob) fin) post (Return y)) es"
proof -
  have "reconcile_foip r ns foip = with_credentials ns foip
      (observe_provider foip (\<lambda>foip1 ob. select_candidate foip1 ob (handoff r foip1 ob)))"
    using assms(2) by (simp add: ongoing_def reconcile_foip_def)
  then have "steps (bind (with_credentials ns foip
      (observe_provider foip (\<lambda>foip1 ob. select_candidate foip1 ob (handoff r foip1 ob)))) fin) es (Return y)"
    using assms(1) by simp
  then show ?thesis
  proof (rule fails_or_trans [OF credentials_run])
    fix post
    assume "set post \<subseteq> set es"
      and "steps (bind (observe_provider foip (\<lambda>foip1 ob. select_candidate foip1 ob (handoff r foip1 ob))) fin)
        post (Return y)"
    moreover from this(1) have "undisturbed foip post" using assms(3) by (auto simp: undisturbed_def)
    ultimately show "fails_or (\<lambda>post. \<exists>e. steps (fin (failed e)) post (Return y))
        (\<lambda>post. \<exists>ob. itoa (obs_server_id ob) = provider_observed_owner (foip_status foip)
           \<and> steps (bind (handoff r foip ob) fin) post (Return y)) post"
      using assms(2) by (intro observation_run)
  qed
qed

lemma Reconcile_run:
  assumes "steps (Reconcile r ns name) (EvGetFailoverIp ns name (Inr foip) # es) (Return y)"
  obtains m cp es' where "es = EvObserve m # es'"
    "steps (bind (reconcile_foip r ns foip) (finish_reconcile cp)) es' (Return y)"
proof -
  have "\<exists>m cp es'. es = EvObserve m # es' \<and> steps (bind (reconcile_foip r ns foip) (finish_reconcile cp)) es' (Return y)"
    using assms unfolding Reconcile_def Let_def
    by (auto simp: steps_simps pstep_simps complete)
  then show ?thesis using that by blast
qed

lemma harmless_reads: "quiet_reads es \<Longrightarrow> list_all harmless es"
  by (induction es) (auto simp: quiet_reads_def split: event.splits)

lemma no_node_read: "quiet_reads es \<Longrightarrow> EvGetNode n g \<notin> set es"
  by (auto simp: quiet_reads_def)

text \<open>What the code looks at once it has read the target's node.\<close>

definition at_target :: "failover_ip \<Rightarrow> (int \<Rightarrow> step) \<Rightarrow> go_error + node \<Rightarrow> step" where
  "at_target foip k g =
     (case g of Inl e \<Rightarrow> Return (failed e)
      | Inr nd \<Rightarrow>
          let serverIDStr = map_get (node_annotations nd) ServerIDAnnotation in
          if serverIDStr = '''' then
            Return (failed (GoError (''node '' @ target_node (foip_status foip) @ '' missing annotation ''
                              @ ServerIDAnnotation)))
          else (case sscanf_d serverIDStr of
                  None \<Rightarrow> Return (failed (GoError (''node '' @ target_node (foip_status foip) @ '' annotation ''
                                            @ ServerIDAnnotation @ '' is not an integer'')))
                | Some targetServerID \<Rightarrow>
                    if target_node (foip_status foip) \<notin> set (local_owners (foip_status foip)) then
                      Return (requeue preparationPollInterval)
                    else k targetServerID))"

lemma handoff_run:
  assumes "steps (bind (handoff r foip ob) fin) es (Return y)" "ongoing foip"
  obtains g es' where "es = EvGetNode (target_node (foip_status foip)) g # es'"
    "steps (bind (at_target foip (\<lambda>targetServerID. prepare_target foip (route_provider foip ob targetServerID (\<lambda>foip1.
            verify_provider foip1 ob targetServerID
              (verify_traffic foip1 ob (\<lambda>foip2. commit_and_clean r foip2))))) g) fin) es' (Return y)"
proof -
  have "resolve_target r foip k = GetNode (target_node (foip_status foip)) (at_target foip k)" for k
    using assms(2) by (simp add: resolve_target_def at_target_def [abs_def] ongoing_def Let_def)
  then show ?thesis
    using assms(1) that unfolding handoff_def by (auto simp: complete)
qed

lemma sscanf_empty: "sscanf_d '''' = None"
  by (simp add: sscanf_d_def skip_scan_space.simps parse_int_def Let_def)

lemma selecting_at_target:
  assumes "phase (foip_status foip) = FailoverPhaseSelecting" "spec_probes (foip_spec foip) = []"
  shows "prepare_target foip (route_provider foip ob targetServerID (\<lambda>foip1.
      verify_provider foip1 ob targetServerID (verify_traffic foip1 ob (\<lambda>foip2. commit_and_clean r foip2))))
    = (if obs_server_id ob \<noteq> targetServerID then Return (requeue providerVerifyInterval) else unexpected_phase foip)"
  using assms by (simp add: prepare_target_def route_provider_def verify_provider_def verify_traffic_def
      evaluateProbePhase_def commit_and_clean_def)

definition unexpectedly_blocked :: "failover_ip \<Rightarrow> failover_ip" where
  "unexpectedly_blocked foip = set_status foip ((foip_status foip)\<lparr>phase := FailoverPhaseBlocked,
     last_error := ''unexpected persisted phase '' @ quote (phase_string (phase (foip_status foip)))\<rparr>)"

lemma unexpected_run:
  assumes "steps (bind (unexpected_phase foip) fin) es (Return y)"
  obtains answer e post where "es = EvPatchStatus foip (unexpectedly_blocked foip) answer # post"
    "steps (fin (failed e)) post (Return y)"
proof -
  from assms obtain answer post where "es = EvPatchStatus foip (unexpectedly_blocked foip) answer # post"
    "steps (bind (case answer of Inl e \<Rightarrow> Return (failed e)
       | Inr served \<Rightarrow> Return (failed (GoError ''unexpected persisted phase''))) fin) post (Return y)"
    unfolding unexpected_phase_def unexpectedly_blocked_def [symmetric] patch_or_fail_def bind.simps complete
    by blast
  then show ?thesis using that by (cases answer) auto
qed

text \<open>The phases after the route to the target.\<close>

definition past_route :: "failover_phase \<Rightarrow> bool" where
  "past_route ph \<longleftrightarrow> ph \<in> {FailoverPhaseVerifyingProvider, FailoverPhaseVerifyingTraffic,
     FailoverPhaseCommitting, FailoverPhaseCleaningStaleOwners}"

definition with_owners :: "failover_ip \<Rightarrow> string list \<Rightarrow> failover_ip" where
  "with_owners foip owners = set_status foip ((foip_status foip)\<lparr>local_owners := owners\<rparr>)"

lemma past_route_at_target:
  assumes "past_route (phase (foip_status foip))" "obs_server_id ob \<noteq> targetServerID"
  shows "prepare_target foip (route_provider foip ob targetServerID k) = Return (requeue providerVerifyInterval)"
  using assms by (auto simp: past_route_def prepare_target_def route_provider_def)

text \<open>A run past the route whose target is on another server than the provider reports.\<close>

lemma past_route_run:
  assumes "steps (Reconcile r ns name) (EvGetFailoverIp ns name (Inr foip) # es) (Return res)"
    and "ongoing foip" "past_route (phase (foip_status foip))" "undisturbed foip es"
    and other: "\<And>nd s. EvGetNode (target_node (foip_status foip)) (Inr nd) \<in> set es
      \<Longrightarrow> sscanf_d (map_get (node_annotations nd) ServerIDAnnotation) = Some s
      \<Longrightarrow> itoa s \<noteq> provider_observed_owner (foip_status foip)"
  shows "list_all harmless es \<and> (result_err res = None \<longrightarrow> res = requeue (2 * second))"
proof -
  obtain m cp es1 where es: "es = EvObserve m # es1"
    and run: "steps (bind (reconcile_foip r ns foip) (finish_reconcile cp)) es1 (Return res)"
    using Reconcile_run [OF assms(1)] by blast
  have fin: "res = x \<and> list_all harmless post" if "steps (finish_reconcile cp x) post (Return res)" for x post
    using steps_finish [OF that] by auto
  have "undisturbed foip es1" using assms(4) es by (auto simp: undisturbed_def)
  from reaches_handoff [OF run assms(2) this] obtain pre post where
    split: "es1 = pre @ post" "quiet_reads pre" and
    post: "(\<exists>e. steps (finish_reconcile cp (failed e)) post (Return res))
      \<or> (\<exists>ob. itoa (obs_server_id ob) = provider_observed_owner (foip_status foip)
         \<and> steps (bind (handoff r foip ob) (finish_reconcile cp)) post (Return res))"
    unfolding fails_or_def by blast
  have "list_all harmless post \<and> (result_err res = None \<longrightarrow> res = requeue (2 * second))"
  proof (cases "\<exists>e. steps (finish_reconcile cp (failed e)) post (Return res)")
    case True
    then obtain e where "steps (finish_reconcile cp (failed e)) post (Return res)" by blast
    from fin [OF this] show ?thesis by (simp add: failed_def)
  next
    case False
    then obtain ob where ob: "itoa (obs_server_id ob) = provider_observed_owner (foip_status foip)"
      "steps (bind (handoff r foip ob) (finish_reconcile cp)) post (Return res)"
      using post by blast
    obtain g es2 where get: "post = EvGetNode (target_node (foip_status foip)) g # es2"
      and at: "steps (bind (at_target foip (\<lambda>sid. prepare_target foip (route_provider foip ob sid (\<lambda>foip1.
          verify_provider foip1 ob sid (verify_traffic foip1 ob (\<lambda>foip2. commit_and_clean r foip2))))) g)
        (finish_reconcile cp)) es2 (Return res)"
      by (rule handoff_run [OF ob(2) assms(2)])
    have "obs_server_id ob \<noteq> sid"
      if "g = Inr nd" "sscanf_d (map_get (node_annotations nd) ServerIDAnnotation) = Some sid" for nd sid
    proof -
      have "EvGetNode (target_node (foip_status foip)) (Inr nd) \<in> set es"
        using that(1) unfolding es split get by simp
      from other [OF this that(2)] show ?thesis using ob(1) by metis
    qed
    then obtain x where x: "steps (finish_reconcile cp x) es2 (Return res)"
        "(x = requeue preparationPollInterval \<or> x = requeue providerVerifyInterval \<or> (\<exists>e. x = failed e))"
      using at past_route_at_target [OF assms(3), of ob]
      by (auto simp: at_target_def Let_def split: sum.splits if_splits option.splits)
    from fin [OF x(1)] x(2) show ?thesis
      unfolding get by (auto simp: failed_def preparationPollInterval_def providerVerifyInterval_def)
  qed
  then show ?thesis using harmless_reads [OF split(2)] es split(1) by simp
qed

lemma switched_target:
  assumes "steps (switch_target foip better) (pre @ EvPatchStatus b f answer # post) p"
    and "past_route (phase (foip_status foip))"
  shows "phase (foip_status f) = phase (foip_status foip) \<and> target_node (foip_status f) = node_name better
    \<and> source_node (foip_status f) = target_node (foip_status foip)
    \<and> transition_id (foip_status f) = transition_id (foip_status foip)
    \<and> provider_observed_owner (foip_status f) = provider_observed_owner (foip_status foip)
    \<and> foip_spec f = foip_spec foip"
proof -
  have "wp (\<lambda>H e. case e of EvPatchStatus b f res \<Rightarrow>
      phase (foip_status f) = phase (foip_status foip) \<and> target_node (foip_status f) = node_name better
      \<and> source_node (foip_status f) = target_node (foip_status foip)
      \<and> transition_id (foip_status f) = transition_id (foip_status foip)
      \<and> provider_observed_owner (foip_status f) = provider_observed_owner (foip_status foip)
      \<and> foip_spec f = foip_spec foip | _ \<Rightarrow> True) (\<lambda>H x. True) {} (switch_target foip better)"
    using assms(2) by (auto simp: switch_target_def past_route_def Let_def split: sum.split)
  from wp_call [OF this assms(1)] show ?thesis by simp
qed

section \<open>On the cluster\<close>

text \<open>A new object, on the cluster whose healthy node b owns the address.\<close>

definition adopted :: failover_ip_status where
  "adopted = empty_status\<lparr>transition_id := ''t'', phase := FailoverPhaseSelecting,
     phase_started_at := Some 0, last_transition_at := Some 0, provider_observed_owner := ''12'',
     target_node := ''b'', candidate_reason := ''current provider owner observed''\<rparr>"

definition selecting :: failover_ip_status where
  "selecting = empty_status\<lparr>transition_id := ''t'', phase := FailoverPhaseSelecting,
     phase_started_at := Some 0, last_transition_at := Some 0\<rparr>"

lemma fresh1:
  "\<exists>cs. take_turn Controller (cluster_at 0 empty_status 12 tabs)
     = cluster_at 0 (selecting\<lparr>conditions := cs\<rparr>) 12 tabs"
  by (simp add: controller_run_def run_rules status_rules statuses selecting_def cong: run_congs;
      simp add: SetCondition_def Let_def)

lemma fresh2:
  "take_turn Controller (cluster_at 0 (selecting\<lparr>conditions := cs\<rparr>) 12 tabs)
     = cluster_at 0 (adopted\<lparr>conditions := cs\<rparr>) 12 tabs"
  by (simp add: controller_run_def run_rules status_rules statuses selecting_def adopted_def
      cong: run_congs)

lemma fresh3:
  "take_turn (Agent ''b'') (cluster_at 0 (adopted\<lparr>conditions := cs\<rparr>) 12 only_b)
     = cluster_at 0 (adopted\<lparr>local_owners := [''b''], conditions := cs\<rparr>) 12 only_b"
  by (simp add: agent_run_def run_rules shouldOwn_def statuses adopted_def cong: run_congs)

text \<open>Node a is the target of a transition that is verifying traffic when it stops being ready.\<close>

definition verifying :: failover_ip_status where
  "verifying = empty_status\<lparr>transition_id := ''t'', phase := FailoverPhaseVerifyingTraffic,
     source_node := ''b'', target_node := ''a'', provider_observed_owner := ''11'',
     local_owners := [''b'', ''a'']\<rparr>"

definition retargeted :: failover_ip_status where
  "retargeted = verifying\<lparr>source_node := ''a'', target_node := ''b'', local_owners := [''a'', ''b'']\<rparr>"

lemma retarget1:
  "take_turn Controller (cluster_at 0 verifying 11 tabs)
     = cluster_at 0 (verifying\<lparr>candidate_since := Some 0,
         candidate_reason := ''healthiest candidate selected''\<rparr>) 11 tabs"
  by (simp add: controller_run_def run_rules status_rules statuses verifying_def cong: run_congs)
    (simp add: merge_rules)

lemma retarget2:
  "take_turn Controller (cluster_at t1 (verifying\<lparr>candidate_since := Some 0,
         candidate_reason := ''healthiest candidate selected''\<rparr>) 11 tabs)
     = cluster_at t1 (retargeted\<lparr>local_owners := []\<rparr>) 11 tabs"
  by (simp add: controller_run_def run_rules status_rules statuses verifying_def cong: run_congs)
    (simp add: merge_rules retargeted_def verifying_def statuses)

lemma retarget3:
  "take_turn (Agent ''a'') (cluster_at t (retargeted\<lparr>local_owners := []\<rparr>) 11 both)
     = cluster_at t (retargeted\<lparr>local_owners := [''a'']\<rparr>) 11 both"
  "take_turn (Agent ''b'') (cluster_at t (retargeted\<lparr>local_owners := [''a'']\<rparr>) 11 both)
     = cluster_at t retargeted 11 both"
  by (simp_all add: agent_run_def run_rules shouldOwn_def statuses retargeted_def verifying_def
      cong: run_congs)

text \<open>The write that replaces the target.\<close>

definition given_up :: failover_ip_status where
  "given_up = verifying\<lparr>candidate_since := Some 0, candidate_reason := ''healthiest candidate selected'',
     candidate_failure_count := 1\<rparr>"

lemma given_up_call:
  "fst (run (cluster_env '''') (switch_target (foip_with given_up) (plain_node ''b'' ''12'' ConditionTrue))
     (cluster_at t1 given_up 11 both))
   = [EvPatchStatus (foip_with given_up) (foip_with (retargeted\<lparr>local_owners := []\<rparr>))
       (Inr (foip_with (retargeted\<lparr>local_owners := []\<rparr>)))]"
  by (simp add: run_rules given_up_def retargeted_def verifying_def merge_rules empty_status_def cong: run_congs)

text \<open>The calls of the two runs that get stuck.\<close>

lemma fresh_calls:
  "\<exists>m1 m2 m3 m4 m5 b f r. fst (run (cluster_env '''') (Reconcile operator_config ''ns'' ''ip'')
     (cluster_at 0 (adopted\<lparr>local_owners := [''b''], conditions := cs\<rparr>) 12 tabs)) =
   [EvGetFailoverIp ''ns'' ''ip'' (Inr (foip_with (adopted\<lparr>local_owners := [''b''], conditions := cs\<rparr>))), EvObserve m1,
    EvGetSecret ''ns'' ''s'' (Inr [(''refreshToken'', ''token''), (''userId'', ''7'')]), EvObserve m2,
    EvNewClient 7 ''token'', EvFindFailoverIP ''192.0.2.7'' (Inr (1, 12)), EvObserve m3, EvListNodes (Inr pair),
    EvGetNode ''b'' (Inr (plain_node ''b'' ''12'' ConditionTrue)), EvPatchStatus b f r, EvObserve m4, EvObserve m5]"
  by (simp add: controller_run_def run_rules status_rules statuses adopted_def cong: run_congs)

lemma retarget_calls:
  "\<exists>m1 m2 m3 m4 m5. fst (run (cluster_env '''') (Reconcile operator_config ''ns'' ''ip'')
     (cluster_at t retargeted 11 tabs)) =
   [EvGetFailoverIp ''ns'' ''ip'' (Inr (foip_with retargeted)), EvObserve m1,
    EvGetSecret ''ns'' ''s'' (Inr [(''refreshToken'', ''token''), (''userId'', ''7'')]), EvObserve m2,
    EvNewClient 7 ''token'', EvFindFailoverIP ''192.0.2.7'' (Inr (1, 11)), EvObserve m3, EvListNodes (Inr pair),
    EvGetNode ''b'' (Inr (plain_node ''b'' ''12'' ConditionTrue)), EvObserve m4, EvObserve m5]"
  by (simp add: controller_run_def run_rules status_rules statuses retargeted_def verifying_def
      providerVerifyInterval_def second_def cong: run_congs)

section \<open>Properties\<close>

text \<open>
  C28: A new failover IP whose owner is healthy does not come to rest.  The target that was
  adopted while the phase is Selecting gets no phase to go to.  Whatever the environment answers:
  once that target has reported the address, the provider reports the target's server, and no
  node is better, a run (of an object without probes) that gets to read the target's node blocks
  the transition as being in an unexpected phase, by its only write, and fails.
\<close>

theorem adopting_a_healthy_owner_blocks:
  assumes "steps (Reconcile r ns name) (EvGetFailoverIp ns name (Inr foip) # es) (Return res)"
    and "ongoing foip" and "phase (foip_status foip) = FailoverPhaseSelecting"
    and "spec_probes (foip_spec foip) = []"
    and "target_node (foip_status foip) \<in> set (local_owners (foip_status foip))"
    and "undisturbed foip es"
    and "EvGetNode (target_node (foip_status foip)) (Inr nd) \<in> set es"
    and "sscanf_d (map_get (node_annotations nd) ServerIDAnnotation) = Some s"
    and "itoa s = provider_observed_owner (foip_status foip)"
  shows "\<exists>reads answer metrics. es = reads @ EvPatchStatus foip (unexpectedly_blocked foip) answer # metrics
    \<and> list_all harmless reads \<and> list_all harmless metrics \<and> result_err res \<noteq> None
    \<and> phase (foip_status (unexpectedly_blocked foip)) = FailoverPhaseBlocked
    \<and> last_error (foip_status (unexpectedly_blocked foip)) = ''unexpected persisted phase '' @ quote ''Selecting''"
proof -
  let ?get = "EvGetNode (target_node (foip_status foip)) (Inr nd)"
  obtain m cp es1 where es: "es = EvObserve m # es1"
    and run: "steps (bind (reconcile_foip r ns foip) (finish_reconcile cp)) es1 (Return res)"
    using Reconcile_run [OF assms(1)] by blast
  have fin: "?get \<notin> set post" if "steps (finish_reconcile cp x) post (Return res)" for x post
    using steps_finish [OF that] by auto
  have "undisturbed foip es1" using assms(6) es by (auto simp: undisturbed_def)
  from reaches_handoff [OF run assms(2) this] obtain pre post ob where
    split: "es1 = pre @ post" "quiet_reads pre" and
    ob: "itoa (obs_server_id ob) = provider_observed_owner (foip_status foip)"
      "steps (bind (handoff r foip ob) (finish_reconcile cp)) post (Return res)"
    using assms(7) es fin by (auto simp: fails_or_def no_node_read)
  obtain g es2 where post: "post = EvGetNode (target_node (foip_status foip)) g # es2"
    and at: "steps (bind (at_target foip (\<lambda>sid. if obs_server_id ob \<noteq> sid
        then Return (requeue providerVerifyInterval) else unexpected_phase foip) g) (finish_reconcile cp)) es2 (Return res)"
    using handoff_run [OF ob(2) assms(2)] unfolding selecting_at_target [OF assms(3,4)] by metis
  have "?get \<notin> set es2"
    using at by (auto simp: at_target_def Let_def dest!: fin elim!: unexpected_run split: sum.splits if_splits option.splits)
  then have g: "g = Inr nd" using assms(7) es split post no_node_read by auto
  have annotated: "map_get (node_annotations nd) ServerIDAnnotation \<noteq> ''''"
    using assms(8) sscanf_empty by auto
  have "obs_server_id ob = s" using ob(1) assms(9) itoa_inj by metis
  then have "steps (bind (unexpected_phase foip) (finish_reconcile cp)) es2 (Return res)"
    using at assms(5,8) annotated by (simp add: at_target_def g Let_def)
  then obtain answer e post2 where "es2 = EvPatchStatus foip (unexpectedly_blocked foip) answer # post2"
    "steps (finish_reconcile cp (failed e)) post2 (Return res)"
    by (rule unexpected_run)
  moreover from steps_finish [OF this(2)] have "result_err res \<noteq> None" "list_all harmless post2"
    by (auto simp: failed_def)
  moreover have "list_all harmless (EvObserve m # pre @ [EvGetNode (target_node (foip_status foip)) g])"
    using harmless_reads [OF split(2)] by simp
  ultimately show ?thesis
    unfolding es split post
    by (intro exI [of _ "EvObserve m # pre @ [EvGetNode (target_node (foip_status foip)) g]"] exI [of _ answer]
        exI [of _ post2]) (simp add: unexpectedly_blocked_def assms(3))
qed

theorem adopting_a_healthy_owner_blocks_witness:
  "\<exists>cs m reads answer metrics. take_turns [Controller, Controller, Agent ''b''] (cluster_at 0 empty_status 12 only_b)
       = cluster_at 0 (adopted\<lparr>local_owners := [''b''], conditions := cs\<rparr>) 12 only_b
     \<and> fst (controller_run (cluster_at 0 (adopted\<lparr>local_owners := [''b''], conditions := cs\<rparr>) 12 only_b))
       = m # reads @ EvPatchStatus (foip_with (adopted\<lparr>local_owners := [''b''], conditions := cs\<rparr>))
           (unexpectedly_blocked (foip_with (adopted\<lparr>local_owners := [''b''], conditions := cs\<rparr>))) answer # metrics"
proof -
  obtain cs where "take_turn Controller (cluster_at 0 empty_status 12 only_b)
      = cluster_at 0 (selecting\<lparr>conditions := cs\<rparr>) 12 only_b"
    using fresh1 by blast
  then have reached: "take_turns [Controller, Controller, Agent ''b''] (cluster_at 0 empty_status 12 only_b)
      = cluster_at 0 (adopted\<lparr>local_owners := [''b''], conditions := cs\<rparr>) 12 only_b"
    unfolding take_turns_def by (simp only: fold_simps fresh2 fresh3)
  let ?foip = "foip_with (adopted\<lparr>local_owners := [''b''], conditions := cs\<rparr>)"
  let ?p = "Reconcile operator_config ''ns'' ''ip''"
  let ?w = "cluster_at 0 (adopted\<lparr>local_owners := [''b''], conditions := cs\<rparr>) 12 only_b"
  obtain es where calls: "fst (run (cluster_env '''') ?p ?w) = EvGetFailoverIp ''ns'' ''ip'' (Inr ?foip) # es"
    and und: "undisturbed ?foip es" and read: "EvGetNode ''b'' (Inr (plain_node ''b'' ''12'' ConditionTrue)) \<in> set es"
    using fresh_calls [of cs only_b] by (auto simp: undisturbed_def adopted_def status_rules texts)
  have steps: "steps ?p (EvGetFailoverIp ''ns'' ''ip'' (Inr ?foip) # es) (Return (fst (snd (run (cluster_env '''') ?p ?w))))"
    using fst_run_steps [of ?p "cluster_env ''''" ?w] calls by metis
  have "ongoing ?foip"
    by (simp add: ongoing_def adopted_def ValidateStatus_def empty_status_def)
  then obtain reads answer metrics where
    "es = reads @ EvPatchStatus ?foip (unexpectedly_blocked ?foip) answer # metrics"
    using adopting_a_healthy_owner_blocks [OF steps _ _ _ _ und, of "plain_node ''b'' ''12'' ConditionTrue" 12] read
    by (auto simp: adopted_def texts)
  then show ?thesis using reached calls unfolding controller_run_def by (metis append_Cons)
qed

text \<open>
  C29: A target that is replaced once the provider was routed to it is replaced in the status only.
  The write keeps the phase, in which the provider is not routed any more.  Whatever the
  environment answers, whichever nodes report the address: as long as the provider reports the
  same owner as before, the new target is on another server, and no node is better, every later
  run only reads, and comes back after two seconds unless it fails.  So the phase stays, and the
  address stays routed to the node that was given up.
\<close>

theorem retargeting_after_routing_stalls:
  assumes "steps (switch_target foip better) (pre @ EvPatchStatus b f answer # post) p"
    and "past_route (phase (foip_status foip))"
    and "transition_id (foip_status foip) \<noteq> ''''" "ValidateFailoverIpSpec (foip_spec foip) = None"
    and "node_name better \<noteq> ''''" "node_name better \<noteq> target_node (foip_status foip)"
    and "steps (Reconcile r ns name) (EvGetFailoverIp ns name (Inr (with_owners f owners)) # es) (Return res)"
    and "undisturbed (with_owners f owners) es"
    and "\<And>nd s. EvGetNode (node_name better) (Inr nd) \<in> set es
      \<Longrightarrow> sscanf_d (map_get (node_annotations nd) ServerIDAnnotation) = Some s
      \<Longrightarrow> itoa s \<noteq> provider_observed_owner (foip_status foip)"
  shows "phase (foip_status f) = phase (foip_status foip) \<and> target_node (foip_status f) = node_name better
    \<and> list_all harmless es \<and> (result_err res = None \<longrightarrow> res = requeue (2 * second))"
proof -
  note f = switched_target [OF assms(1,2)]
  have "ongoing (with_owners f owners)"
    using f assms(2-6) by (auto simp: ongoing_def with_owners_def past_route_def ValidateStatus_def)
  moreover have "past_route (phase (foip_status (with_owners f owners)))"
    using f assms(2) by (simp add: with_owners_def)
  ultimately show ?thesis
    using past_route_run [OF assms(7) _ _ assms(8)] f assms(9) by (auto simp: with_owners_def)
qed

theorem retargeting_after_routing_stalls_witness:
  "take_turns [Controller, Wait t1, Controller, Agent ''a'', Agent ''b''] (cluster_at 0 verifying 11 both)
       = cluster_at t1 retargeted 11 both
   \<and> phase retargeted = FailoverPhaseVerifyingTraffic \<and> target_node retargeted = ''b''
   \<and> list_all harmless (tl (fst (controller_run (cluster_at t1 retargeted 11 both))))"
proof -
  let ?p = "Reconcile operator_config ''ns'' ''ip''"
  let ?f = "foip_with (retargeted\<lparr>local_owners := []\<rparr>)"
  have reached: "take_turns [Controller, Wait t1, Controller, Agent ''a'', Agent ''b''] (cluster_at 0 verifying 11 both)
       = cluster_at t1 retargeted 11 both"
    unfolding take_turns_def
    by (simp only: fold_simps retarget1 retarget2 retarget3 take_turn.simps(3) cluster_at_simps add_0)
  have switch: "steps (switch_target (foip_with given_up) (plain_node ''b'' ''12'' ConditionTrue))
      ([] @ EvPatchStatus (foip_with given_up) ?f (Inr ?f) # []) (Return (fst (snd (run (cluster_env '''')
        (switch_target (foip_with given_up) (plain_node ''b'' ''12'' ConditionTrue)) (cluster_at t1 given_up 11 both)))))"
    using fst_run_steps [of "switch_target (foip_with given_up) (plain_node ''b'' ''12'' ConditionTrue)"
        "cluster_env ''''" "cluster_at t1 given_up 11 both"] given_up_call by simp
  have owners: "with_owners ?f [''a'', ''b''] = foip_with retargeted"
    by (simp add: with_owners_def retargeted_def)
  obtain es where calls: "fst (run (cluster_env '''') ?p (cluster_at t1 retargeted 11 both))
      = EvGetFailoverIp ''ns'' ''ip'' (Inr (foip_with retargeted)) # es"
    and und: "undisturbed (foip_with retargeted) es"
    and reads: "\<forall>n nd. EvGetNode n (Inr nd) \<in> set es \<longrightarrow> nd = plain_node ''b'' ''12'' ConditionTrue"
    using retarget_calls [of t1 both] by (auto simp: undisturbed_def retargeted_def verifying_def texts)
  have steps: "steps ?p (EvGetFailoverIp ''ns'' ''ip'' (Inr (with_owners ?f [''a'', ''b''])) # es)
      (Return (fst (snd (run (cluster_env '''') ?p (cluster_at t1 retargeted 11 both)))))"
    using fst_run_steps [of ?p "cluster_env ''''" "cluster_at t1 retargeted 11 both"] calls owners by metis
  have other: "itoa s \<noteq> provider_observed_owner (foip_status (foip_with given_up))"
    if "EvGetNode (node_name (plain_node ''b'' ''12'' ConditionTrue)) (Inr nd) \<in> set es"
      "sscanf_d (map_get (node_annotations nd) ServerIDAnnotation) = Some s" for nd s
  proof -
    have "nd = plain_node ''b'' ''12'' ConditionTrue" using reads that(1) by blast
    with that(2) show ?thesis by (auto simp: texts given_up_def verifying_def)
  qed
  have "list_all harmless es"
    using retargeting_after_routing_stalls [OF switch _ _ _ _ _ steps _ other] und
    by (simp add: owners given_up_def verifying_def past_route_def)
  then show ?thesis
    using reached calls by (simp add: controller_run_def retargeted_def verifying_def)
qed

end
