(* ===== verification/Spec2Isabelle.thy ===== *)
theory Spec2Isabelle
  imports Fake_Provider Netcup_Auth Metrics Entry_Points Observed_Gates
    Mutation_Spacing Patch_Bases Stuck_Runs
begin

text \<open>
  Failover IP operator: verification development.

  The program.  A Kubernetes operator moves a provider-routed failover IP address between the
  nodes of a cluster.  Two controllers cooperate only through the status of a FailoverIp object:

  (1) the failover controller (\<open>internal/controller/failoverip_controller.go\<close>), one instance,
  follows a persisted state machine: select a target, wait until it has lasted, wait until the
  target has prepared the address, route the provider, verify provider and traffic, commit,
  clean up stale owners;

  (2) the node agent (\<open>internal/controller/nodeinterface_controller.go\<close>), one instance per
  node, puts the address on its interface while its node is source or target, removes it
  otherwise, and enters or leaves the list of local owners in the status.

  Around them: the API types and the transition table (\<open>api/v1\<close>), node ranking, timing policy,
  provider fences and cooldown, probe gates, recovery policies, watches (\<open>internal/controller\<close>),
  the probe executors and their network policy (\<open>internal/probe\<close>), event deduplication,
  metrics, tracing and redaction (\<open>internal/observability\<close>), the provider client
  (\<open>internal/netcup\<close>), the two binaries that bring the controllers up, and two programs of
  their own: the token helper and the provider of the end-to-end tests (\<open>cmd\<close>).

  How the code is modelled.  Functions that compute are HOL functions on records and datatypes
  with the fields and constructors of the Go types.  Methods that act on the world are values of
  the datatype \<open>prog\<close> (\<open>Controller_Calls\<close>): every call to the API server, the provider, the
  kernel interface table, the clock, the random source or a probe executor is a constructor
  carrying its arguments and the rest of the method as a function of the answer.  A method that
  falls through to its next gate is cut into stretches, each with the rest of the method as last
  argument; early returns are \<open>Return\<close>.  \<open>steps p es q\<close> says that \<open>p\<close> makes the calls \<open>es\<close>
  and goes on as \<open>q\<close>, for arbitrary answers: it covers every environment, and, since an execution
  may stop anywhere, crashes and lost leadership.  \<open>run E p w\<close> executes \<open>p\<close> in an environment
  \<open>E\<close> with state \<open>w\<close>.  Go errors are values of \<open>go_error\<close> in a sum or option type.
  \<open>int32\<close> and \<open>int64\<close> values are integers with the wrap-around written out at each step that can
  leave the range; clock values and durations are nanoseconds.

  Theories, in the order they build on each other:

  Prelude: Go integers, time, string routines (\<open>fmt.Sscanf\<close>, \<open>strconv\<close>, replacement), errors,
  and the locale \<open>keyed_list\<close> for lists updated by key.
  Api_Types, Api_State: \<open>failoverip_types.go\<close> and \<open>failoverip_state.go\<close>; what validation
  accepts, what the transition table allows (the gates of a hand-over are passed in order), and
  that SetCondition upserts (an interpretation of \<open>keyed_list\<close>).
  Ip_Address: IP addresses and networks of package \<open>net\<close>, as far as the code uses them.
  Observability: the event deduper and the observing functions of the metrics.
  Metrics: the collectors and their registration; every observing call fits a registered
  collector and only ever uses one of 31 label values.
  Node_Scoring: \<open>node_scoring.go\<close>; the Go comparison is shown to be the order of a severity
  number, through the locale \<open>ranking\<close>, which gives optimality and order independence.
  Selection_Policy: \<open>selection_policy.go\<close>, \<open>provider_safety.go\<close>; the two back-off loops
  implement the contract \<open>capped_doubling\<close>, so neither overflows; the cooldown gate spaces
  mutations.
  Controller_Calls: \<open>prog\<close>, its small steps, runs, and the rule \<open>wp\<close>: a predicate on each call
  and on the calls completed before it, established once for a method and read off at any point
  of any execution.
  Probe_Checks: \<open>probe_checks.go\<close> and \<open>Aggregate\<close>.
  Recovery: \<open>recovery.go\<close> and the helpers that write the status and emit events.
  Failover_Controller: the Reconcile method of the failover controller.
  Controller_Safety: \<open>safe_call\<close>, the evidence every status write and every route must have, and
  one lemma per stretch of the method that it is there.  The evidence of a probe gate says on its
  own terms what the probes' executions count for, which composition is in force (the one of the
  failover IP, else the one its probes agree on, else All), and when it is satisfied.
  Node_Interface: the node agent with its watch predicates and the evidence its calls have.
  Cluster: a concrete environment (an API server with merge patches, two nodes, a provider, one
  interface table per node) in which the two controllers run in turns: a hand-over from the
  first failure to Succeeded.
  Stuck_Runs: two ways in which a transition comes to nothing, in every environment: the owner
  adopted by a new object, and a target replaced after the route; the cluster runs into both.
  Controller_Properties: what a run of the failover controller may do, for every environment.
  Single_Mutation: a run mutates the provider at most once, by counting the routes of the method
  over all answers of an API server that keeps the phase that was written.
  Mutation_Spacing: histories of runs, crashes included; two mutations of a history are a cooldown
  apart, as long as reads show the persisted attempts, and a history where they do not.
  Watches: the node watch predicate, the mappings of nodes, probes and secrets to requests and
  their registration; an update that is ignored does not change the selection.

  Json, Url: what the HTTP programs use of \<open>encoding/json\<close> and \<open>net/url\<close>: scanner and parser,
  encoder, storing into struct fields, the first value of a stream; parsing and escaping of URLs.
  The parser reads back what the encoder writes, and plain addresses parse into their parts.
  Web_Calls: the datatype \<open>web\<close> of programs that talk HTTP, their executions, the rule \<open>wpost\<close> on
  complete executions, and runs in a world.
  Provider_Contract: the locale \<open>provider_contract\<close>, what the controller relies on when it finds
  and routes; interpreted by the environment of Cluster and by the client on the fake provider.
  Netcup_Client: \<open>client.go\<close>; the token cache, one route request at most, success only when the
  task finished, and when the polling loop ends.
  Fake_Provider: \<open>cmd/fake-provider\<close>, and the refinement: client and provider together, down to
  the JSON texts, are an abstract account with one owner.
  Netcup_Auth: \<open>cmd/netcup-auth\<close>: flags, device flow, browser, output and exit code; the printed
  credentials belong together.
  Flags: what the binaries use of package \<open>flag\<close>.
  Network_Policy: the computing half of \<open>policy.go\<close> on Ip_Address and Url: CIDR networks, the
  blocked networks, the host of a target.
  Probe_Executor: \<open>executor.go\<close>, the calling half of \<open>policy.go\<close>, \<open>kubernetes.go\<close>: the datatype
  \<open>net\<close> of their calls, and one invariant per function, from which the properties follow: no dial
  outside the policy, no success without the observation it stands for.
  Observed_Gates: the probe gates on top of the executors; a forward route has seen its targets on
  the network, and a cluster with a probe in which it does.

  Regex: what the code uses of \<open>regexp\<close>, leftmost-first matching and ReplaceAllString, with the
  lemmas that say what a replacement leaves behind.
  Redaction: the three patterns of \<open>observability.go\<close> and RedactText; what a redacted text never
  contains, and two texts that keep what they should not.
  Telemetry: the identity a process reports under, the choice of the trace exporter, the set-up of
  tracing, trace fields and the errors a span records.
  Entry_Points: \<open>cmd/foip\<close> and \<open>cmd/node-interface\<close>: the flags, the manager
  options, and the start-up branch by branch, with the calls that may fail, \<open>os.Exit\<close> and the
  deferred flush of the telemetry; \<open>boot\<close> runs these statements as Go does.

  Go_Memory: the Go structs of the API types with their pointers, slices and maps, the cells they
  refer to, and the locale \<open>copier\<close>, what a deep copy promises, with a lemma for each way a struct
  is put together.
  Deep_Copy: \<open>zz_generated.deepcopy.go\<close>, every function; each implements \<open>copier\<close>.
  Patch_Bases: why the theories above may treat objects as values: what a deep copy shows is not
  changed by later writes, and setting a condition where the object lies, with the overwriting,
  appending and reallocating of a slice, refines SetCondition on values.

  Bounds and fuel.  The only loop of the Reconcile method that waits for the outside is the
  verification of a route, bounded by \<open>providerVerifyAttempts\<close> in the code; all other loops run
  over lists.  Every \<open>prog\<close>, \<open>web\<close> and \<open>net\<close> is a finite tree along each sequence of answers, so
  each method returns after finitely many calls, and runs are total functions.  Three loops of
  the code have no bound of their own and take fuel: the polls of a routing task
  (\<open>waitForTask\<close>), the polls for a token (\<open>poll_loop\<close>) and the redirects of an HTTP probe
  (\<open>do_http\<close>).  Their result \<open>None\<close> means "still going on"; how much fuel is enough is proved:
  the polls until the context ends or the device code expires, and for the redirects, which only
  the end of the context bounds in the code too, more than the requests answered before it; then
  the result does not depend on the fuel.

  Assumptions about what is not under src/.  None in most safety properties: the answers of the
  API server, the provider, resolvers and servers are arbitrary.  Single_Mutation assumes that the
  API server answers a status patch with the phase that was written, Mutation_Spacing that its
  answers show the attempts persisted before, Observed_Gates speaks of probes that are all asked for
  and tolerate no failure, and Stuck_Runs of runs in which the provider reports the persisted owner
  and no node is better than the target.  The concrete cluster
  instantiates them with the documented behaviour of a JSON merge patch, a provider with one
  owner per address and an interface table per node; the worlds of the HTTP programs with the
  fake provider or a fixed answer.  The termination theorems assume a clock that does not run
  backwards and waits that take their time, or, for the probes, a resolver without empty answers
  and a context that ends.  \<open>http.ParseTime\<close>, PEM parsing, the part of a body
  read before a read error, and the helpers of the Kubernetes modules are arguments, and so are
  the deep copies of \<open>metav1\<close> and \<open>corev1\<close>, which are assumed to keep the contract \<open>copier\<close>
  (\<open>library_copies\<close>).

  Not modelled: the scheme registration, which sets up variables of the library; writes in place
  other than SetCondition, which the theories above take on values; the test utilities; the transport of \<open>net/http\<close> below one exchange, and the redirects the provider
  client and the token helper leave to \<open>Client.Do\<close>; timestamps, owner references and managed fields
  of an object's metadata, which are references to opaque cells; the inside of the
  controller manager, of the metric registry and of the tracing SDK, which are calls or arguments;
  the values of duration samples (each is counted only); and the mutexes, since each handler is
  one step.
\<close>

end
